(* ===== verification/Prelude.thy ===== *)
theory Prelude
  imports Complex_Main "HOL-Library.Word"
begin

text \<open>
  Shared vocabulary of the development: bytes and the C integer types as machine words, the
  undefined behaviours of C as error values, sequencing of fallible steps, bounds-checked reads
  of a byte buffer, and the collections of simplification rules the component theories extend.

  Target ABI: 64-bit little-endian Linux compiled by gcc, so \<open>int\<close> has 32 bits, \<open>short\<close> 16, plain
  \<open>char\<close> is signed, shifts of negative or into the sign bit behave as gcc documents them
  (two's complement), \<open>float\<close> and \<open>double\<close> are IEEE-754 binary32 and binary64.
\<close>

unbundle bit_operations_syntax

named_theorems outcome_simps "sequencing of fallible steps and buffer reads"

section \<open>Machine types\<close>

type_synonym byte = "8 word"
type_synonym u16 = "16 word"
type_synonym u32 = "32 word"

section \<open>Undefined behaviour as a value\<close>

text \<open>
  Every operation that C leaves undefined is a branch of the model: a read past the end of a buffer,
  a dereference or a call through a null pointer, a shift by an amount outside the type, a \<open>free\<close> of
  something that is not allocated, a partial write over another member of a union, and a signed
  overflow. \<open>Diverges\<close> is the outcome of a loop that never ends.
\<close>

datatype ub = OutOfBounds | NullDeref | NullCall | DanglingPointer | BadShift | InvalidFree
  | InactiveMember | Uninitialised | SignedOverflow | Diverges

type_synonym 'a outcome = "ub + 'a"

definition obind :: "'a outcome \<Rightarrow> ('a \<Rightarrow> 'b outcome) \<Rightarrow> 'b outcome" where
  "obind m f = (case m of Inl e \<Rightarrow> Inl e | Inr a \<Rightarrow> f a)"

lemma obind_Inl [simp, outcome_simps]: "obind (Inl e) f = Inl e"
  by (simp add: obind_def)

lemma obind_Inr [simp, outcome_simps]: "obind (Inr a) f = f a"
  by (simp add: obind_def)

lemma obind_eq_Inr: "obind m f = Inr b \<longleftrightarrow> (\<exists>a. m = Inr a \<and> f a = Inr b)"
  by (cases m) auto

lemma obind_assoc: "obind (obind m f) g = obind m (\<lambda>a. obind (f a) g)"
  by (cases m) auto

definition defined :: "'a outcome \<Rightarrow> bool" where
  "defined m = (case m of Inl _ \<Rightarrow> False | Inr _ \<Rightarrow> True)"

lemma defined_simps [simp]: "\<not> defined (Inl e)" "defined (Inr a)"
  by (simp_all add: defined_def)

lemma defined_iff: "defined m \<longleftrightarrow> (\<exists>a. m = Inr a)"
  by (cases m) auto

section \<open>Byte buffers\<close>

text \<open>\<open>p[i]\<close> on an \<open>unsigned char *\<close> whose buffer holds exactly the bytes of the list.\<close>

definition rd :: "byte list \<Rightarrow> nat \<Rightarrow> byte outcome" where
  "rd p i = (if i < length p then Inr (p ! i) else Inl OutOfBounds)"

lemma rd_in_range [simp]: "i < length p \<Longrightarrow> rd p i = Inr (p ! i)"
  by (simp add: rd_def)

lemma rd_out_of_range [simp]: "length p \<le> i \<Longrightarrow> rd p i = Inl OutOfBounds"
  by (simp add: rd_def)

section \<open>Characters\<close>

lemma unat_of_char: "unat (of_char c :: byte) = of_char c"
proof -
  have "unat (of_char c :: byte) = unat (of_nat (of_char c) :: byte)" by (simp only: of_nat_of_char)
  also have "\<dots> = of_char c mod 256" by (simp add: unsigned_of_nat take_bit_eq_mod del: of_nat_of_char)
  finally show ?thesis by simp
qed

end
