(* ===== verification/Floats.thy ===== *)
theory Floats
  imports Prelude
begin

text \<open>
  The floating point arithmetic of the decoders. A finite \<open>float\<close> or \<open>double\<close> is the rational
  number it denotes; an arithmetic operation is the exact rational operation followed by rounding to
  nearest, ties to even, to the significand of the format (24 bits for \<open>float\<close>, 53 for \<open>double\<close>).
  The exponent is unbounded here: the decoders only produce values of moderate size, for which no
  operation overflows or is subnormal (\<open>Decoders\<close> bounds them), so this is IEEE-754 arithmetic.
\<close>

section \<open>Rounding\<close>

text \<open>Nearest integer, ties to even.\<close>

definition rne :: "rat \<Rightarrow> int" where
  "rne x = (let f = \<lfloor>x\<rfloor>; d = x - of_int f in
     if d < 1 / 2 then f else if 1 / 2 < d then f + 1 else if even f then f else f + 1)"

text \<open>The exponent of the leading bit of a positive number, \<open>floor (log2 x)\<close>.\<close>

lemma floor_half_less: "1 \<le> y \<Longrightarrow> \<lfloor>y / 2\<rfloor> < \<lfloor>y\<rfloor>" for y :: rat
proof -
  assume "1 \<le> y"
  then have "1 \<le> \<lfloor>y\<rfloor>" by simp
  then show ?thesis by linarith
qed

function expo :: "rat \<Rightarrow> int" where
  "expo x = (if x \<le> 0 then 0 else if 2 \<le> x then expo (x / 2) + 1
     else if x < 1 then expo (2 * x) - 1 else 0)"
  by pat_completeness auto
termination
proof (relation "measure (\<lambda>x. if 1 \<le> x then nat \<lfloor>x\<rfloor> else 2 + nat \<lfloor>1 / x\<rfloor>)")
  show "wf (measure (\<lambda>x::rat. if 1 \<le> x then nat \<lfloor>x\<rfloor> else 2 + nat \<lfloor>1 / x\<rfloor>))" by simp
next
  fix x :: rat
  assume "\<not> x \<le> 0" and x2: "2 \<le> x"
  have "\<lfloor>x / 2\<rfloor> < \<lfloor>x\<rfloor>"
    using x2 by (intro floor_half_less) simp
  moreover have "0 \<le> \<lfloor>x / 2\<rfloor>" using x2 by simp
  ultimately show "(x / 2, x) \<in> measure (\<lambda>x. if 1 \<le> x then nat \<lfloor>x\<rfloor> else 2 + nat \<lfloor>1 / x\<rfloor>)"
    using x2 by simp
next
  fix x :: rat
  assume x0: "\<not> x \<le> 0" and "\<not> 2 \<le> x" and x1: "x < 1"
  have xpos: "0 < x" using x0 by simp
  have inv: "1 < 1 / x" using xpos x1 by (simp add: field_simps)
  have half: "1 / (2 * x) = (1 / x) / 2" by simp
  have "\<lfloor>(1 / x) / 2\<rfloor> < \<lfloor>1 / x\<rfloor>"
    using inv by (intro floor_half_less) simp
  moreover have "1 \<le> 2 * x \<Longrightarrow> \<lfloor>2 * x\<rfloor> = 1" using x1 by linarith
  moreover have "0 \<le> \<lfloor>(1 / x) / 2\<rfloor>" using xpos by simp
  ultimately show "(2 * x, x) \<in> measure (\<lambda>x. if 1 \<le> x then nat \<lfloor>x\<rfloor> else 2 + nat \<lfloor>1 / x\<rfloor>)"
    using x1 half xpos by (auto simp: mult.commute)
qed

declare expo.simps [simp del]

text \<open>Rounding to \<open>p\<close> significant bits.\<close>

definition ulp :: "nat \<Rightarrow> rat \<Rightarrow> rat" where
  "ulp p x = 2 powi (expo \<bar>x\<bar> - int p + 1)"

definition rnd :: "nat \<Rightarrow> rat \<Rightarrow> rat" where
  "rnd p x = (if x = 0 then 0 else of_int (rne (x / ulp p x)) * ulp p x)"

section \<open>The two formats and the C operators on them\<close>

definition f32 :: "rat \<Rightarrow> rat" where "f32 = rnd 24"
definition f64 :: "rat \<Rightarrow> rat" where "f64 = rnd 53"

definition dadd :: "rat \<Rightarrow> rat \<Rightarrow> rat" where "dadd x y = f64 (x + y)"
definition dsub :: "rat \<Rightarrow> rat \<Rightarrow> rat" where "dsub x y = f64 (x - y)"
definition dmul :: "rat \<Rightarrow> rat \<Rightarrow> rat" where "dmul x y = f64 (x * y)"
definition ddiv :: "rat \<Rightarrow> rat \<Rightarrow> rat" where "ddiv x y = f64 (x / y)"

text \<open>Conversion of an \<open>int\<close> operand, and a decimal literal.\<close>

definition d_of_int :: "int \<Rightarrow> rat" where "d_of_int i = f64 (of_int i)"
definition dlit :: "rat \<Rightarrow> rat" where "dlit q = f64 q"

text \<open>A number is representable when it is an integer of at most \<open>p\<close> bits, scaled by a power of two.\<close>

definition representable :: "nat \<Rightarrow> rat \<Rightarrow> bool" where
  "representable p x \<longleftrightarrow> (\<exists>m e. x = of_int m * 2 powi e \<and> \<bar>m\<bar> \<le> 2 ^ p)"

section \<open>Facts about rounding\<close>


lemma rne_of_int [simp]: "rne (of_int k) = k"
  by (simp add: rne_def)

lemma rne_error: "\<bar>of_int (rne x) - x\<bar> \<le> 1 / 2"
  using floor_correct [of x] by (auto simp: rne_def Let_def abs_le_iff)

lemma rne_mono: "x \<le> y \<Longrightarrow> rne x \<le> rne y"
proof -
  assume xy: "x \<le> y"
  show ?thesis
  proof (cases "\<lfloor>x\<rfloor> = \<lfloor>y\<rfloor>")
    case True
    with xy show ?thesis unfolding rne_def Let_def by auto
  next
    case False
    with xy have "\<lfloor>x\<rfloor> + 1 \<le> \<lfloor>y\<rfloor>" using floor_mono [OF xy] by simp
    moreover have "rne x \<le> \<lfloor>x\<rfloor> + 1" "\<lfloor>y\<rfloor> \<le> rne y" by (simp_all add: rne_def Let_def)
    ultimately show ?thesis by simp
  qed
qed

lemma rne_minus [simp]: "rne (- x) = - rne x"
proof (cases "of_int \<lfloor>x\<rfloor> = x")
  case True
  then obtain k where "x = of_int k" by metis
  then show ?thesis by (metis of_int_minus rne_of_int)
next
  case False
  then have "of_int \<lfloor>x\<rfloor> < x" by linarith
  have "\<lfloor>- x\<rfloor> = - \<lfloor>x\<rfloor> - 1" using False by linarith
  then show ?thesis by (auto simp: rne_def Let_def)
qed

lemma expo_bounds: "0 < x \<Longrightarrow> 2 powi expo x \<le> x \<and> x < 2 powi (expo x + 1)"
proof (induction x rule: expo.induct)
  case (1 x)
  consider "2 \<le> x" | "x < 1" | "1 \<le> x" "x < 2" by linarith
  then show ?case
  proof cases
    case 1
    with "1.IH"(1) "1.prems" have "2 powi expo (x / 2) \<le> x / 2 \<and> x / 2 < 2 powi (expo (x / 2) + 1)" by simp
    with 1 "1.prems" show ?thesis
      by (simp add: expo.simps [of x] power_int_add)
  next
    case 2
    with "1.IH"(2) "1.prems" have "2 powi expo (2 * x) \<le> 2 * x \<and> 2 * x < 2 powi (expo (2 * x) + 1)" by simp
    with 2 "1.prems" show ?thesis
      by (simp add: expo.simps [of x] power_int_add power_int_diff)
  next
    case 3
    then show ?thesis by (simp add: expo.simps [of x])
  qed
qed

lemma pow2_pos: "0 < (2::rat) powi e"
  by simp

lemma pow2_le_iff [simp]: "(2::rat) powi a \<le> 2 powi b \<longleftrightarrow> a \<le> b"
  by (meson linorder_not_le one_less_numeral_iff power_int_increasing power_int_strict_increasing semiring_norm(76) less_imp_le one_le_numeral)

lemma pow2_less_iff [simp]: "(2::rat) powi a < 2 powi b \<longleftrightarrow> a < b"
  by (meson linorder_not_le pow2_le_iff)

lemma expo_unique: "2 powi e \<le> x \<Longrightarrow> x < 2 powi (e + 1) \<Longrightarrow> expo x = e"
proof -
  assume lo: "2 powi e \<le> x" and hi: "x < 2 powi (e + 1)"
  have "0 < x" using lo by (rule less_le_trans [rotated]) simp
  with expo_bounds have b: "2 powi expo x \<le> x" "x < 2 powi (expo x + 1)" by blast+
  have "(2::rat) powi e < 2 powi (expo x + 1)" using lo b(2) by (rule le_less_trans)
  moreover have "(2::rat) powi expo x < 2 powi (e + 1)" using b(1) hi by (rule le_less_trans)
  ultimately show ?thesis by simp
qed

lemma expo_mono: "0 < x \<Longrightarrow> x \<le> y \<Longrightarrow> expo x \<le> expo y"
proof -
  assume "0 < x" "x \<le> y"
  then have "2 powi expo x \<le> x" "y < 2 powi (expo y + 1)" using expo_bounds by auto
  with \<open>x \<le> y\<close> have "(2::rat) powi expo x < 2 powi (expo y + 1)" by linarith
  then show ?thesis by simp
qed

lemma ulp_pos [simp]: "0 < ulp p x"
  by (simp add: ulp_def)

lemma ulp_neq_0 [simp]: "ulp p x \<noteq> 0"
  by (rule less_imp_neq [OF ulp_pos, THEN not_sym])

lemma ulp_minus [simp]: "ulp p (- x) = ulp p x"
  by (simp add: ulp_def)

lemma rnd_zero [simp]: "rnd p 0 = 0"
  by (simp add: rnd_def)

lemma rnd_minus [simp]: "rnd p (- x) = - rnd p x"
  by (simp add: rnd_def)

lemma rnd_error: "\<bar>rnd p x - x\<bar> \<le> \<bar>x\<bar> * 2 powi (- int p)"
proof (cases "x = 0")
  case False
  let ?u = "ulp p x"
  have "\<bar>rnd p x - x\<bar> = \<bar>of_int (rne (x / ?u)) - x / ?u\<bar> * ?u"
  proof -
    have "rnd p x - x = (of_int (rne (x / ?u)) - x / ?u) * ?u"
      using False by (simp add: rnd_def left_diff_distrib)
    then show ?thesis by (simp add: abs_mult abs_of_pos)
  qed
  also have "\<dots> \<le> 1 / 2 * ?u"
    by (intro mult_right_mono rne_error) (simp add: less_imp_le)
  also have "\<dots> = 2 powi expo \<bar>x\<bar> * 2 powi (- int p)"
    by (simp add: ulp_def power_int_add power_int_diff power_int_minus field_simps)
  also have "\<dots> \<le> \<bar>x\<bar> * 2 powi (- int p)"
    using expo_bounds [of "\<bar>x\<bar>"] False by (intro mult_right_mono) auto
  finally show ?thesis .
qed simp

text \<open>The rounded value is an integer multiple of the unit in the last place, with a significand of
  at most \<open>p\<close> bits.\<close>

lemma pow_mult_ulp: "2 ^ n * ulp p x = 2 powi (expo \<bar>x\<bar> - int p + 1 + int n)"
  by (simp add: ulp_def power_int_add)

lemma quotient_bounds:
  assumes "0 < x" "0 < p"
  shows "2 ^ (p - 1) \<le> x / ulp p x" and "x / ulp p x < 2 ^ p"
proof -
  have pow: "2 ^ (p - 1) * ulp p x = 2 powi expo x" "2 ^ p * ulp p x = 2 powi (expo x + 1)"
    using assms by (simp_all add: pow_mult_ulp of_nat_diff)
  show "2 ^ (p - 1) \<le> x / ulp p x" "x / ulp p x < 2 ^ p"
    using expo_bounds [OF assms(1)] by (simp_all only: pos_le_divide_eq pos_divide_less_eq pow ulp_pos)
qed

lemma rne_pos_bounds:
  assumes "0 < x" "0 < p"
  shows "2 ^ (p - 1) \<le> rne (x / ulp p x)" and "rne (x / ulp p x) \<le> 2 ^ p"
proof -
  have "rne (of_int (2 ^ (p - 1))) \<le> rne (x / ulp p x)"
    by (rule rne_mono) (use quotient_bounds [OF assms] in simp)
  moreover have "rne (x / ulp p x) \<le> rne (of_int (2 ^ p))"
    by (rule rne_mono) (use quotient_bounds [OF assms] in simp)
  ultimately show "2 ^ (p - 1) \<le> rne (x / ulp p x)" "rne (x / ulp p x) \<le> 2 ^ p"
    by (simp_all only: rne_of_int)
qed


lemma rnd_pos_bounds:
  assumes "0 < x" "0 < p"
  shows "2 powi expo x \<le> rnd p x" and "rnd p x \<le> 2 powi (expo x + 1)"
proof -
  have pow: "2 ^ (p - 1) * ulp p x = 2 powi expo x" "2 ^ p * ulp p x = 2 powi (expo x + 1)"
    using assms by (simp_all add: pow_mult_ulp of_nat_diff)
  have "of_int (2 ^ (p - 1)) * ulp p x \<le> rnd p x" "rnd p x \<le> of_int (2 ^ p) * ulp p x"
    using assms rne_pos_bounds [OF assms]
    by (simp_all only: rnd_def less_imp_neq [THEN not_sym] if_False of_int_le_iff
        mult_le_cancel_right_pos ulp_pos)
  then show "2 powi expo x \<le> rnd p x" "rnd p x \<le> 2 powi (expo x + 1)"
    by (simp_all only: pow of_int_power of_int_numeral)
qed

lemma rnd_mono_pos:
  assumes "0 < x" "x \<le> y" "0 < p"
  shows "rnd p x \<le> rnd p y"
proof (cases "expo x = expo y")
  case True
  then have "ulp p y = ulp p x" using assms by (simp add: ulp_def)
  with assms show ?thesis
    by (simp add: rnd_def mult_le_cancel_right_pos rne_mono divide_right_mono less_imp_le)
next
  case False
  with expo_mono [OF assms(1,2)] have "expo x + 1 \<le> expo y" by simp
  then have "(2::rat) powi (expo x + 1) \<le> 2 powi expo y" by simp
  moreover have "rnd p x \<le> 2 powi (expo x + 1)" "2 powi expo y \<le> rnd p y"
    using assms by (auto intro: rnd_pos_bounds)
  ultimately show ?thesis by linarith
qed

lemma rnd_nonneg: "0 \<le> x \<Longrightarrow> 0 < p \<Longrightarrow> 0 \<le> rnd p x"
proof (cases "x = 0")
  case False
  assume "0 \<le> x" "0 < p"
  with False have "2 powi expo x \<le> rnd p x" by (auto intro: rnd_pos_bounds)
  then show ?thesis by (rule order_trans [rotated]) simp
qed simp

lemma rnd_mono:
  assumes "x \<le> y" "0 < p"
  shows "rnd p x \<le> rnd p y"
proof -
  consider "0 < x" | "x \<le> 0" "0 \<le> y" | "y < 0" by linarith
  then show ?thesis
  proof cases
    case 1
    with assms show ?thesis by (intro rnd_mono_pos)
  next
    case 2
    then have "0 \<le> rnd p (- x)" "0 \<le> rnd p y" using assms by (auto intro!: rnd_nonneg simp del: rnd_minus)
    then show ?thesis by simp
  next
    case 3
    then have "rnd p (- y) \<le> rnd p (- x)" using assms by (intro rnd_mono_pos) auto
    then show ?thesis by simp
  qed
qed

lemma rnd_exact_pos:
  assumes m: "0 < m" "m \<le> 2 ^ p" and p: "0 < p"
  shows "rnd p (of_int m * 2 powi e) = of_int m * 2 powi e"
proof -
  define x where "x = of_int m * (2::rat) powi e"
  have x0: "0 < x" using m by (simp add: x_def)
  have "2 powi expo x \<le> x" using expo_bounds [OF x0] by simp
  also have "x \<le> of_int (2 ^ p) * 2 powi e"
    unfolding x_def using m by (intro mult_right_mono) (simp_all only: of_int_le_iff pow2_pos less_imp_le)
  also have "\<dots> = 2 powi (e + int p)" by (simp add: power_int_add)
  finally have "expo x \<le> e + int p" by simp
  obtain k where k: "x / ulp p x = of_int k"
  proof (cases "expo x - int p + 1 \<le> e")
    case True
    have "x / ulp p x = of_int m * 2 powi (e - (expo x - int p + 1))"
      using x0 by (simp add: ulp_def x_def power_int_diff)
    also have "\<dots> = of_int (m * 2 ^ nat (e - (expo x - int p + 1)))"
      using True by (simp add: power_int_def)
    finally show thesis by (rule that)
  next
    case False
    with \<open>expo x \<le> e + int p\<close> have e: "expo x = e + int p" by simp
    with expo_bounds [OF x0] have "of_int (2 ^ p) * 2 powi e \<le> of_int m * (2::rat) powi e"
      by (simp add: x_def power_int_add)
    then have "m = 2 ^ p" using m by (simp only: mult_le_cancel_right_pos pow2_pos of_int_le_iff)
    moreover obtain q where "p = Suc q" using p by (cases p) auto
    ultimately have "x / ulp p x = of_int (2 ^ q)"
      using x0 e by (simp add: ulp_def x_def power_int_add power_int_diff)
    then show thesis by (rule that)
  qed
  then have "x = of_int k * ulp p x" by (simp add: divide_eq_eq)
  with k x0 have "rnd p x = x" by (simp add: rnd_def)
  then show ?thesis by (simp add: x_def)
qed


lemma rnd_exact:
  assumes "\<bar>m\<bar> \<le> 2 ^ p" and p: "0 < p"
  shows "rnd p (of_int m * 2 powi e) = of_int m * 2 powi e"
proof -
  consider "m = 0" | "0 < m" | "m < 0" by linarith
  then show ?thesis
  proof cases
    case 2
    with assms show ?thesis by (intro rnd_exact_pos) auto
  next
    case 3
    with assms have "rnd p (of_int (- m) * 2 powi e) = of_int (- m) * 2 powi e"
      by (intro rnd_exact_pos) auto
    then show ?thesis by simp
  qed simp
qed

lemma rnd_representable:
  assumes "0 < p"
  shows "representable p (rnd p x)"
proof -
  have pos: "representable p (rnd p y)" if "0 < y" for y
  proof -
    have "\<bar>rne (y / ulp p y)\<bar> \<le> 2 ^ p"
      using rne_pos_bounds [OF that assms] zero_le_power [of "2::int" "p - 1"] by linarith
    with that show ?thesis unfolding representable_def
      by (intro exI [of _ "rne (y / ulp p y)"] exI [of _ "expo \<bar>y\<bar> - int p + 1"])
        (simp add: rnd_def ulp_def)
  qed
  have neg: "representable p (- z)" if "representable p z" for z
    using that unfolding representable_def by (metis abs_minus mult_minus_left of_int_minus)
  consider "0 < x" | "x = 0" | "0 < - x" by linarith
  then show ?thesis
  proof cases
    case 2
    then show ?thesis unfolding representable_def by (intro exI [of _ 0]) simp
  next
    case 3
    with neg [OF pos [OF 3]] show ?thesis by simp
  qed (rule pos)
qed


section \<open>The interface of a rounding\<close>

text \<open>
  What the decoders rely on: representable numbers are kept, the relative error is at most half a
  unit in the last place, rounding is monotone and its result is representable.
\<close>

locale rounding =
  fixes rd_to :: "rat \<Rightarrow> rat" and prec :: nat
  assumes exact: "\<bar>m\<bar> \<le> 2 ^ prec \<Longrightarrow> rd_to (of_int m * 2 powi e) = of_int m * 2 powi e"
    and error: "\<bar>rd_to x - x\<bar> \<le> \<bar>x\<bar> * 2 powi (- int prec)"
    and mono: "x \<le> y \<Longrightarrow> rd_to x \<le> rd_to y"
    and in_format: "representable prec (rd_to x)"
begin

lemma exact_int: "\<bar>k\<bar> \<le> 2 ^ prec \<Longrightarrow> rd_to (of_int k) = of_int k"
  using exact [of k 0] by simp

lemma exact_quotient: "\<bar>m\<bar> \<le> 2 ^ prec \<Longrightarrow> rd_to (of_int m / 2 ^ n) = of_int m / 2 ^ n"
  using exact [of m "- int n"] by (simp add: power_int_minus field_simps)

lemma exact_representable: "representable prec x \<Longrightarrow> rd_to x = x"
  unfolding representable_def using exact by blast

lemma idem: "rd_to (rd_to x) = rd_to x"
  by (rule exact_representable) (rule in_format)

lemma upper: "x \<le> rd_to c \<Longrightarrow> rd_to x \<le> rd_to c"
  using mono [of x "rd_to c"] by (simp add: idem)

lemma lower: "rd_to c \<le> x \<Longrightarrow> rd_to c \<le> rd_to x"
  using mono [of "rd_to c" x] by (simp add: idem)

text \<open>The error of rounding an approximation of \<open>y\<close>.\<close>

lemma error_of_approx:
  assumes "\<bar>x - y\<bar> \<le> d" "\<bar>y\<bar> \<le> b"
  shows "\<bar>rd_to x - y\<bar> \<le> d + (b + d) * 2 powi (- int prec)"
proof -
  have "\<bar>x\<bar> \<le> b + d" using assms by linarith
  then have "\<bar>x\<bar> * 2 powi (- int prec) \<le> (b + d) * 2 powi (- int prec)"
    by (intro mult_right_mono) simp_all
  then show ?thesis using error [of x] assms by linarith
qed

end

lemma rounding_rnd: "0 < p \<Longrightarrow> rounding (rnd p) p"
  by (rule rounding.intro) (auto intro: rnd_exact rnd_error rnd_mono rnd_representable)

interpretation f32: rounding f32 24
  unfolding f32_def by (rule rounding_rnd) simp

interpretation f64: rounding f64 53
  unfolding f64_def by (rule rounding_rnd) simp

end
