(* ===== verification/Response_Types.thy ===== *)
theory Response_Types
  imports Floats
begin

text \<open>
  The data model of \<open>src/OBDII.h\<close>: pointers to commands and to heap blocks, the union inside
  \<open>OBDIIResponse\<close>, the response itself and the response type enumeration.
\<close>

section \<open>Pointers\<close>

text \<open>
  A pointer to heap memory is an address, \<open>None\<close> where C has \<open>NULL\<close>. The commands live in three static
  objects, so a pointer to a command is the object and an index into it.
\<close>

type_synonym addr = nat

datatype command_ref = Mode1Command nat | Mode3Command | Mode9Command nat

section \<open>OBDIIResponseType\<close>

datatype OBDIIResponseType = OBDIIResponseTypeBitfield | OBDIIResponseTypeNumeric
  | OBDIIResponseTypeString | OBDIIResponseTypeOther

text \<open>The integer value of an enumerator, and the order it gives the type.\<close>

fun response_type_code :: "OBDIIResponseType \<Rightarrow> nat" where
  "response_type_code OBDIIResponseTypeBitfield = 0"
| "response_type_code OBDIIResponseTypeNumeric = 1"
| "response_type_code OBDIIResponseTypeString = 2"
| "response_type_code OBDIIResponseTypeOther = 3"

lemma response_type_code_inj: "response_type_code a = response_type_code b \<longleftrightarrow> a = b"
  by (cases a; cases b) simp_all

instantiation OBDIIResponseType :: linorder
begin

definition "a \<le> b \<longleftrightarrow> response_type_code a \<le> response_type_code b"
definition "a < b \<longleftrightarrow> response_type_code a < response_type_code b"

instance
  by standard (auto simp: less_eq_OBDIIResponseType_def less_OBDIIResponseType_def
    response_type_code_inj)

end

section \<open>The union of an OBDIIResponse\<close>

text \<open>
  The two anonymous unions inside \<open>oxygenSensorValues\<close> overlay two floats each, so each is one
  number that either name reads.
\<close>

record oxygenSensorValues =
  voltage_or_current :: rat
  trim_or_ratio :: rat

text \<open>
  The union holds the member that was written last; \<open>ZeroBytes\<close> is the state after \<open>{ 0 }\<close>, in which
  every byte is zero and every member reads as zero or \<open>NULL\<close>. A float is the number it denotes.
\<close>

datatype response_value =
    ZeroBytes
  | NumericValue rat
  | BitfieldValue u32
  | StringValue "addr option"
  | DTCsValue "addr option" int
  | OxygenValue oxygenSensorValues

text \<open>Reading a member; \<open>None\<close> where the bytes of another member would be reinterpreted.\<close>

fun numericValue :: "response_value \<Rightarrow> rat option" where
  "numericValue ZeroBytes = Some 0"
| "numericValue (NumericValue q) = Some q"
| "numericValue _ = None"

fun bitfieldValue :: "response_value \<Rightarrow> u32 option" where
  "bitfieldValue ZeroBytes = Some 0"
| "bitfieldValue (BitfieldValue w) = Some w"
| "bitfieldValue _ = None"

fun stringValue :: "response_value \<Rightarrow> addr option option" where
  "stringValue ZeroBytes = Some None"
| "stringValue (StringValue p) = Some p"
| "stringValue _ = None"

fun troubleCodes :: "response_value \<Rightarrow> addr option option" where
  "troubleCodes ZeroBytes = Some None"
| "troubleCodes (DTCsValue p n) = Some p"
| "troubleCodes _ = None"

fun numTroubleCodes :: "response_value \<Rightarrow> int option" where
  "numTroubleCodes ZeroBytes = Some 0"
| "numTroubleCodes (DTCsValue p n) = Some n"
| "numTroubleCodes _ = None"

fun oxygenValues :: "response_value \<Rightarrow> oxygenSensorValues option" where
  "oxygenValues ZeroBytes = Some \<lparr>voltage_or_current = 0, trim_or_ratio = 0\<rparr>"
| "oxygenValues (OxygenValue v) = Some v"
| "oxygenValues _ = None"

section \<open>OBDIIResponse\<close>

record OBDIIResponse =
  r_success :: int
  r_command :: "command_ref option"
  r_value :: response_value

text \<open>\<open>OBDIIResponse response = { 0 }\<close>\<close>

definition zero_response :: OBDIIResponse where
  "zero_response = \<lparr>r_success = 0, r_command = None, r_value = ZeroBytes\<rparr>"

text \<open>The member of the union that a command of a given response type promises to fill.\<close>

fun member_matches :: "OBDIIResponseType \<Rightarrow> response_value \<Rightarrow> bool" where
  "member_matches OBDIIResponseTypeBitfield v \<longleftrightarrow> bitfieldValue v \<noteq> None"
| "member_matches OBDIIResponseTypeNumeric v \<longleftrightarrow> numericValue v \<noteq> None"
| "member_matches OBDIIResponseTypeString v \<longleftrightarrow> stringValue v \<noteq> None"
| "member_matches OBDIIResponseTypeOther v \<longleftrightarrow> troubleCodes v \<noteq> None \<or> oxygenValues v \<noteq> None"

lemma member_matches_ZeroBytes [simp]: "member_matches t ZeroBytes"
  by (cases t) simp_all

end
