(* ===== verification/Memory.thy ===== *)
theory Memory
  imports Response_Types
begin

text \<open>
  The heap of the library: \<open>malloc\<close>, \<open>free\<close>, writes into a block, and the two string routines the
  decoders use. Whether a call of \<open>malloc\<close> succeeds is up to the system: \<open>grants h a\<close> says
  whether the request that would be given address \<open>a\<close> is granted, and theorems hold for every
  such function. A fresh block is uninitialised (\<open>None\<close> cells).
\<close>

datatype block = ByteBlock "byte option list" | PointerBlock "command_ref option list"

text \<open>The heap of a process that keeps objects of type \<open>'b\<close> on it.\<close>

record 'b heap_of =
  blocks :: "addr \<Rightarrow> 'b option"
  next_addr :: addr
  grants :: "addr \<Rightarrow> bool"

type_synonym heap = "block heap_of"

definition heap_ok :: "'b heap_of \<Rightarrow> bool" where
  "heap_ok h \<longleftrightarrow> (\<forall>a b. blocks h a = Some b \<longrightarrow> a < next_addr h)"

text \<open>A heap with nothing allocated in which every request is granted.\<close>

definition empty_heap :: "'b heap_of" where
  "empty_heap = \<lparr>blocks = (\<lambda>_. None), next_addr = 0, grants = (\<lambda>_. True)\<rparr>"

lemma empty_heap_simps [simp]:
  "blocks empty_heap = (\<lambda>_. None)" "next_addr empty_heap = 0" "grants empty_heap a" "heap_ok empty_heap"
  by (simp_all add: empty_heap_def heap_ok_def)

text \<open>\<open>malloc\<close> of a block of the given shape, and \<open>free\<close> of a non-null pointer.\<close>

definition malloc :: "'b \<Rightarrow> 'b heap_of \<Rightarrow> addr option \<times> 'b heap_of" where
  "malloc b h = (let a = next_addr h in
     if grants h a then (Some a, h\<lparr>blocks := (blocks h)(a := Some b), next_addr := Suc a\<rparr>)
     else (None, h\<lparr>next_addr := Suc a\<rparr>))"

definition mfree :: "addr \<Rightarrow> 'b heap_of \<Rightarrow> 'b heap_of outcome" where
  "mfree a h = (case blocks h a of None \<Rightarrow> Inl InvalidFree
     | Some _ \<Rightarrow> Inr (h\<lparr>blocks := (blocks h)(a := None)\<rparr>))"

text \<open>\<open>p[i] = c\<close> for a \<open>char *\<close> into a heap block.\<close>

definition write_byte :: "addr option \<Rightarrow> nat \<Rightarrow> byte \<Rightarrow> heap \<Rightarrow> heap outcome" where
  "write_byte p i c h = (case p of None \<Rightarrow> Inl NullDeref | Some a \<Rightarrow>
     (case blocks h a of
        Some (ByteBlock bs) \<Rightarrow>
          if i < length bs
          then Inr (h\<lparr>blocks := (blocks h)(a := Some (ByteBlock (bs[i := Some c])))\<rparr>)
          else Inl OutOfBounds
      | _ \<Rightarrow> Inl DanglingPointer))"

text \<open>Several bytes in a row, starting at an offset.\<close>

fun write_bytes :: "addr option \<Rightarrow> nat \<Rightarrow> byte list \<Rightarrow> heap \<Rightarrow> heap outcome" where
  "write_bytes p i [] h = Inr h"
| "write_bytes p i (c # cs) h = obind (write_byte p i c h) (write_bytes p (Suc i) cs)"

text \<open>
  What \<open>strncpy(dst, src, n)\<close> writes: the source up to its first NUL byte, at most \<open>n\<close> bytes, padded
  with NUL to \<open>n\<close>. Without a NUL in the source buffer it would read past its end.
\<close>

definition strncpy_bytes :: "byte list \<Rightarrow> nat \<Rightarrow> byte list outcome" where
  "strncpy_bytes src n = (let s = takeWhile (\<lambda>c. c \<noteq> 0) src in
     if n \<le> length s then Inr (take n s)
     else if length s < length src then Inr (s @ replicate (n - length s) 0)
     else Inl OutOfBounds)"

text \<open>The C string that starts a block: its bytes up to the first NUL, all of them initialised.\<close>

fun c_string :: "byte option list \<Rightarrow> byte list outcome" where
  "c_string [] = Inl OutOfBounds"
| "c_string (None # cs) = Inl Uninitialised"
| "c_string (Some c # cs) = (if c = 0 then Inr [] else obind (c_string cs) (\<lambda>s. Inr (c # s)))"

section \<open>Laws of the allocator\<close>

text \<open>
  The contract the decoders and the command set code rely on: an allocation is fresh and changes no
  other block, a write changes one block only and keeps its length, a block that is allocated can be
  freed, and freeing what was just allocated leaves the other blocks as they were.
\<close>

locale allocator =
  fixes alloc :: "'b \<Rightarrow> 'h \<Rightarrow> addr option \<times> 'h"
    and release :: "addr \<Rightarrow> 'h \<Rightarrow> 'h outcome"
    and content :: "'h \<Rightarrow> addr \<Rightarrow> 'b option"
    and good :: "'h \<Rightarrow> bool"
  assumes alloc_content: "alloc b h = (Some a, h') \<Longrightarrow> content h' = (content h)(a := Some b)"
    and alloc_fresh: "alloc b h = (Some a, h') \<Longrightarrow> good h \<Longrightarrow> content h a = None"
    and alloc_fail: "alloc b h = (None, h') \<Longrightarrow> content h' = content h"
    and alloc_good: "alloc b h = (p, h') \<Longrightarrow> good h \<Longrightarrow> good h'"
    and release_ok: "content h a = Some b \<Longrightarrow>
      \<exists>h'. release a h = Inr h' \<and> content h' = (content h)(a := None)"
    and release_good: "release a h = Inr h' \<Longrightarrow> good h \<Longrightarrow> good h'"
begin

lemma release_allocated:
  assumes "alloc b h = (Some a, h1)" "good h" "content h2 = (content h1)(a := Some b2)"
  shows "\<exists>h3. release a h2 = Inr h3 \<and> content h3 = content h"
proof -
  from assms have "content h2 a = Some b2" by simp
  from release_ok [OF this] obtain h3
    where h3: "release a h2 = Inr h3" "content h3 = (content h2)(a := None)" by blast
  have "(content h2)(a := None) = (content h)(a := None)"
    using assms(3) alloc_content [OF assms(1)] by simp
  also have "\<dots> = content h" using alloc_fresh [OF assms(1,2)] by (auto simp: fun_upd_idem)
  finally show ?thesis using h3 by auto
qed

end

lemma malloc_SomeD:
  "malloc b h = (Some a, h') \<Longrightarrow>
     a = next_addr h \<and> grants h a \<and> h' = h\<lparr>blocks := (blocks h)(a := Some b), next_addr := Suc a\<rparr>"
  by (auto simp: malloc_def Let_def split: if_splits)

lemma malloc_NoneD:
  "malloc b h = (None, h') \<Longrightarrow> \<not> grants h (next_addr h) \<and> h' = h\<lparr>next_addr := Suc (next_addr h)\<rparr>"
  by (auto simp: malloc_def Let_def split: if_splits)

interpretation heap: allocator malloc mfree blocks heap_ok
proof
  fix b h h' a
  assume m: "malloc b h = (Some a, h')"
  show "blocks h' = (blocks h)(a := Some b)" using malloc_SomeD [OF m] by simp
  show "blocks h a = None" if "heap_ok h"
    using malloc_SomeD [OF m] that unfolding heap_ok_def by (cases "blocks h a") auto
next
  fix b h h' p
  assume m: "malloc b h = (p, h')" and "heap_ok h"
  then show "heap_ok h'"
    by (cases p) (auto dest!: malloc_SomeD malloc_NoneD simp: heap_ok_def less_Suc_eq)
qed (auto dest!: malloc_NoneD simp: mfree_def heap_ok_def split: option.splits if_splits)

section \<open>Writing\<close>

lemma write_byte_in_block:
  "blocks h a = Some (ByteBlock bs) \<Longrightarrow> i < length bs \<Longrightarrow>
     write_byte (Some a) i c h = Inr (h\<lparr>blocks := (blocks h)(a := Some (ByteBlock (bs[i := Some c])))\<rparr>)"
  by (simp add: write_byte_def)

lemma write_bytes_in_block:
  "blocks h a = Some (ByteBlock bs) \<Longrightarrow> i + length cs \<le> length bs \<Longrightarrow>
     write_bytes (Some a) i cs h =
       Inr (h\<lparr>blocks := (blocks h)(a := Some (ByteBlock (take i bs @ map Some cs @ drop (i + length cs) bs)))\<rparr>)"
proof (induction cs arbitrary: i h bs)
  case Nil
  then show ?case by (simp add: fun_upd_idem)
next
  case (Cons c cs)
  let ?h = "h\<lparr>blocks := (blocks h)(a := Some (ByteBlock (bs[i := Some c])))\<rparr>"
  have i: "i < length bs" using Cons.prems by simp
  have w: "write_byte (Some a) i c h = Inr ?h" using Cons.prems(1) i by (rule write_byte_in_block)
  have t: "take (Suc i) (bs[i := Some c]) = take i bs @ [Some c]"
    using i by (simp add: take_Suc_conv_app_nth)
  have "write_bytes (Some a) (Suc i) cs ?h =
      Inr (?h\<lparr>blocks := (blocks ?h)(a := Some (ByteBlock (take (Suc i) (bs[i := Some c]) @ map Some cs
        @ drop (Suc i + length cs) (bs[i := Some c]))))\<rparr>)"
    using Cons.prems by (intro Cons.IH) auto
  with w show ?case by (simp add: t fun_upd_def cong: if_cong)
qed

end
