(* ===== verification/Decoders.thy ===== *)
theory Decoders
  imports Memory
begin

text \<open>
  The response decoders of \<open>src/OBDII.c\<close>. A decoder gets the response to fill, the payload bytes
  and the payload length; it reads the payload through bounds-checked reads, computes in C \<open>int\<close>,
  \<open>uint32_t\<close> or \<open>double\<close> arithmetic and stores into the union. Two of them allocate: the trouble
  code decoder and the VIN decoder.
\<close>

type_synonym decoder =
  "OBDIIResponse \<Rightarrow> byte list \<Rightarrow> int \<Rightarrow> heap \<Rightarrow> (OBDIIResponse \<times> heap) outcome"

section \<open>Integer expressions on payload bytes\<close>

text \<open>\<open>p[i] << 8 | p[j]\<close> in \<open>int\<close>, with unsigned and with signed high byte.\<close>

definition be16 :: "byte \<Rightarrow> byte \<Rightarrow> int" where
  "be16 a b = push_bit 8 (uint a) OR uint b"

definition be16_signed :: "byte \<Rightarrow> byte \<Rightarrow> int" where
  "be16_signed a b = push_bit 8 (sint a) OR uint b"

text \<open>The reads of one, two and four payload bytes that the decoders share.\<close>

definition with_byte :: "byte list \<Rightarrow> nat \<Rightarrow> (byte \<Rightarrow> 'a outcome) \<Rightarrow> 'a outcome" where
  "with_byte p i f = obind (rd p i) f"

definition with_bytes :: "byte list \<Rightarrow> nat \<Rightarrow> nat \<Rightarrow> (byte \<Rightarrow> byte \<Rightarrow> 'a outcome) \<Rightarrow> 'a outcome" where
  "with_bytes p i j f = obind (rd p i) (\<lambda>a. obind (rd p j) (\<lambda>b. f a b))"

section \<open>Stores into the union\<close>

text \<open>\<open>response->numericValue = e\<close> converts the \<open>double\<close> or \<open>int\<close> value to \<open>float\<close>.\<close>

definition put_numeric :: "rat \<Rightarrow> OBDIIResponse \<Rightarrow> heap \<Rightarrow> (OBDIIResponse \<times> heap) outcome" where
  "put_numeric q r h = Inr (r\<lparr>r_value := NumericValue (f32 q)\<rparr>, h)"

definition put_bitfield :: "u32 \<Rightarrow> OBDIIResponse \<Rightarrow> heap \<Rightarrow> (OBDIIResponse \<times> heap) outcome" where
  "put_bitfield w r h = Inr (r\<lparr>r_value := BitfieldValue w\<rparr>, h)"

text \<open>A store to one half of \<open>oxygenSensorValues\<close> keeps the other half.\<close>

definition put_voltage_or_current :: "rat \<Rightarrow> OBDIIResponse \<Rightarrow> OBDIIResponse outcome" where
  "put_voltage_or_current q r = (case oxygenValues (r_value r) of
       None \<Rightarrow> Inl InactiveMember
     | Some v \<Rightarrow> Inr (r\<lparr>r_value := OxygenValue (v\<lparr>voltage_or_current := f32 q\<rparr>)\<rparr>))"

definition put_trim_or_ratio :: "rat \<Rightarrow> OBDIIResponse \<Rightarrow> OBDIIResponse outcome" where
  "put_trim_or_ratio q r = (case oxygenValues (r_value r) of
       None \<Rightarrow> Inl InactiveMember
     | Some v \<Rightarrow> Inr (r\<lparr>r_value := OxygenValue (v\<lparr>trim_or_ratio := f32 q\<rparr>)\<rparr>))"

section \<open>Bitfield decoders\<close>

definition OBDIIDecodeBitfield :: decoder where
  "OBDIIDecodeBitfield r p len h =
     with_bytes p 2 3 (\<lambda>a b. with_bytes p 4 5 (\<lambda>c d.
       put_bitfield (push_bit 24 (ucast a) OR push_bit 16 (ucast b) OR push_bit 8 (ucast c) OR ucast d) r h))"

definition OBDIIDecodeSingleByteBitfield :: decoder where
  "OBDIIDecodeSingleByteBitfield r p len h = with_byte p 2 (\<lambda>a. put_bitfield (ucast a) r h)"

definition OBDIIDecodeTwoByteBitfield :: decoder where
  "OBDIIDecodeTwoByteBitfield r p len h =
     with_bytes p 2 3 (\<lambda>a b. put_bitfield (push_bit 8 (ucast a) OR ucast b) r h)"

section \<open>Numeric decoders\<close>

definition OBDIIDecodeEngineRPMs :: decoder where
  "OBDIIDecodeEngineRPMs r p len h = with_bytes p 2 3 (\<lambda>a b.
     put_numeric (ddiv (dadd (dmul (dlit 256) (d_of_int (uint a))) (d_of_int (uint b))) (dlit 4)) r h)"

definition OBDIIDecodeTimingAdvance :: decoder where
  "OBDIIDecodeTimingAdvance r p len h = with_byte p 2 (\<lambda>a.
     put_numeric (dsub (ddiv (d_of_int (uint a)) (dlit 2)) (d_of_int 64)) r h)"

definition OBDIIDecodeTemperature :: decoder where
  "OBDIIDecodeTemperature r p len h = with_byte p 2 (\<lambda>a. put_numeric (of_int (uint a - 40)) r h)"

definition OBDIIDecodePercentage :: decoder where
  "OBDIIDecodePercentage r p len h = with_byte p 2 (\<lambda>a.
     put_numeric (ddiv (d_of_int (uint a)) (dlit (255 / 100))) r h)"

definition OBDIIDecodeFuelTrim :: decoder where
  "OBDIIDecodeFuelTrim r p len h = with_byte p 2 (\<lambda>a.
     put_numeric (dsub (ddiv (d_of_int (uint a)) (dlit (128 / 100))) (d_of_int 100)) r h)"

definition OBDIIDecodeFuelPressure :: decoder where
  "OBDIIDecodeFuelPressure r p len h = with_byte p 2 (\<lambda>a. put_numeric (of_int (3 * uint a)) r h)"

definition OBDIIDecodeThrottlePosition :: decoder where
  "OBDIIDecodeThrottlePosition r p len h = with_byte p 2 (\<lambda>a.
     put_numeric (dmul (ddiv (dlit 100) (dlit 255)) (d_of_int (uint a))) r h)"

definition OBDIIDecodeMAFAirFlowRate :: decoder where
  "OBDIIDecodeMAFAirFlowRate r p len h = with_bytes p 2 3 (\<lambda>a b.
     put_numeric (ddiv (d_of_int (be16 a b)) (dlit 100)) r h)"

definition OBDIIDecodeUInt16 :: decoder where
  "OBDIIDecodeUInt16 r p len h = with_bytes p 2 3 (\<lambda>a b. put_numeric (of_int (be16 a b)) r h)"

definition OBDIIDecodeFuelRailPressure :: decoder where
  "OBDIIDecodeFuelRailPressure r p len h = with_bytes p 2 3 (\<lambda>a b.
     put_numeric (dmul (dlit (79 / 1000)) (d_of_int (be16 a b))) r h)"

definition OBDIIDecodeFuelRailGaugePressure :: decoder where
  "OBDIIDecodeFuelRailGaugePressure r p len h = with_bytes p 2 3 (\<lambda>a b.
     put_numeric (of_int (10 * be16 a b)) r h)"

definition OBDIIDecodeUInt8 :: decoder where
  "OBDIIDecodeUInt8 r p len h = with_byte p 2 (\<lambda>a. put_numeric (of_int (uint a)) r h)"

definition OBDIIDecodeEGRError :: decoder where
  "OBDIIDecodeEGRError r p len h = with_byte p 2 (\<lambda>a.
     put_numeric (dsub (dmul (ddiv (dlit 100) (dlit 128)) (d_of_int (uint a))) (dlit 100)) r h)"

definition OBDIIDecodeVaporPressure :: decoder where
  "OBDIIDecodeVaporPressure r p len h = with_bytes p 2 3 (\<lambda>a b.
     put_numeric (ddiv (d_of_int (be16_signed a b)) (dlit 4)) r h)"

definition OBDIIDecodeCatalystTemperature :: decoder where
  "OBDIIDecodeCatalystTemperature r p len h = with_bytes p 2 3 (\<lambda>a b.
     put_numeric (dsub (ddiv (d_of_int (be16 a b)) (dlit 10)) (dlit 40)) r h)"

definition OBDIIDecodeControlModuleVoltage :: decoder where
  "OBDIIDecodeControlModuleVoltage r p len h = with_bytes p 2 3 (\<lambda>a b.
     put_numeric (ddiv (d_of_int (be16 a b)) (dlit 1000)) r h)"

definition OBDIIDecodeAbsoluteLoadValue :: decoder where
  "OBDIIDecodeAbsoluteLoadValue r p len h = with_bytes p 2 3 (\<lambda>a b.
     put_numeric (dmul (ddiv (dlit 100) (dlit 255)) (d_of_int (be16 a b))) r h)"

definition OBDIIDecodeFuelAirEquivalence :: decoder where
  "OBDIIDecodeFuelAirEquivalence r p len h = with_bytes p 2 3 (\<lambda>a b.
     put_numeric (dmul (ddiv (dlit 2) (dlit 65536)) (d_of_int (be16 a b))) r h)"

section \<open>Oxygen sensor decoders\<close>

definition OBDIIDecodeOxygenSensorValues :: decoder where
  "OBDIIDecodeOxygenSensorValues r p len h =
     with_byte p 2 (\<lambda>a. obind (put_voltage_or_current (ddiv (d_of_int (uint a)) (dlit 200)) r) (\<lambda>r.
     with_byte p 3 (\<lambda>b. obind (put_trim_or_ratio
       (dsub (dmul (ddiv (dlit 100) (dlit 128)) (d_of_int (uint b))) (dlit 100)) r) (\<lambda>r. Inr (r, h)))))"

definition OBDIIDecodeOxygenSensorValues2 :: decoder where
  "OBDIIDecodeOxygenSensorValues2 r p len h =
     with_bytes p 4 5 (\<lambda>a b. obind (put_voltage_or_current
       (dmul (ddiv (dlit 8) (dlit 65536)) (d_of_int (be16 a b))) r) (\<lambda>r.
     with_bytes p 2 3 (\<lambda>a b. obind (put_trim_or_ratio
       (dmul (ddiv (dlit 2) (dlit 65536)) (d_of_int (be16 a b))) r) (\<lambda>r. Inr (r, h)))))"

definition OBDIIDecodeOxygenSensorValues3 :: decoder where
  "OBDIIDecodeOxygenSensorValues3 r p len h =
     with_bytes p 2 3 (\<lambda>a b. obind (put_trim_or_ratio
       (dmul (ddiv (dlit 2) (dlit 65536)) (d_of_int (be16 a b))) r) (\<lambda>r.
     with_bytes p 4 5 (\<lambda>a b. obind (put_voltage_or_current
       (dsub (ddiv (d_of_int (be16 a b)) (dlit 256)) (dlit 128)) r) (\<lambda>r. Inr (r, h)))))"

definition OBDIIDecodeNop :: decoder where
  "OBDIIDecodeNop r p len h = Inr (r, h)"

section \<open>Trouble codes\<close>

text \<open>
  \<open>RawToAscii\<close> on a nibble, and the letter of the two top bits (the source has one branch per value
  and writes nothing otherwise).
\<close>

definition RawToAscii :: "byte \<Rightarrow> byte" where
  "RawToAscii raw = (if raw > 9 then 0x41 + raw - 10 else 0x30 + raw)"

definition dtc_letter :: "byte \<Rightarrow> byte option" where
  "dtc_letter raw = (if raw = 0 then Some 0x50 else if raw = 1 then Some 0x43
     else if raw = 2 then Some 0x42 else if raw = 3 then Some 0x55 else None)"

text \<open>The six stores for the trouble code at offset \<open>6 * i\<close> of the block.\<close>

definition write_dtc :: "addr option \<Rightarrow> nat \<Rightarrow> byte \<Rightarrow> byte \<Rightarrow> heap \<Rightarrow> heap outcome" where
  "write_dtc codes i a b h =
     obind (case dtc_letter (drop_bit 6 a) of None \<Rightarrow> Inr h | Some c \<Rightarrow> write_byte codes (6 * i) c h) (\<lambda>h.
     obind (write_byte codes (6 * i + 1) (0x30 + drop_bit 4 (a AND 0x30)) h) (\<lambda>h.
     obind (write_byte codes (6 * i + 2) (RawToAscii (a AND 0x0F)) h) (\<lambda>h.
     obind (write_byte codes (6 * i + 3) (RawToAscii (drop_bit 4 b)) h) (\<lambda>h.
     obind (write_byte codes (6 * i + 4) (RawToAscii (b AND 0x0F)) h) (\<lambda>h.
     write_byte codes (6 * i + 5) 0 h)))))"

text \<open>The loop \<open>for (i = 0; i < numDTCs; i++)\<close>; \<open>n\<close> counts the iterations left.\<close>

fun write_dtcs :: "addr option \<Rightarrow> byte list \<Rightarrow> nat \<Rightarrow> nat \<Rightarrow> heap \<Rightarrow> heap outcome" where
  "write_dtcs codes p i 0 h = Inr h"
| "write_dtcs codes p i (Suc n) h = with_bytes p (2 + i * 2) (2 + i * 2 + 1) (\<lambda>a b.
     obind (write_dtc codes i a b h) (write_dtcs codes p (Suc i) n))"

definition OBDIIDecodeDTCs :: decoder where
  "OBDIIDecodeDTCs r p len h = (let numBytes = len - 2 in
     if numBytes < 0 \<or> numBytes mod 2 \<noteq> 0 then Inr (r\<lparr>r_success := 0\<rparr>, h)
     else let numDTCs = nat (numBytes div 2);
              (codes, h) = malloc (ByteBlock (replicate (numDTCs * 6) None)) h;
              r = r\<lparr>r_value := DTCsValue codes (int numDTCs)\<rparr>
          in obind (write_dtcs codes p 0 numDTCs h) (\<lambda>h. Inr (r, h)))"

section \<open>Vehicle identification number\<close>

text \<open>Conversion of an \<open>int\<close> argument to \<open>size_t\<close>.\<close>

definition size_t :: "int \<Rightarrow> nat" where
  "size_t i = nat (i mod 2 ^ 64)"

definition OBDIIDecodeVIN :: decoder where
  "OBDIIDecodeVIN r p len h = (let len = len - 2;
       (s, h) = malloc (ByteBlock (replicate (size_t (len + 1)) None)) h;
       r = r\<lparr>r_value := StringValue s\<rparr>
     in if s = None then Inr (r, h)
        else obind (if 2 \<le> length p then Inr (drop 2 p) else Inl OutOfBounds) (\<lambda>src.
             obind (strncpy_bytes src (size_t len)) (\<lambda>bs.
             obind (write_bytes s 0 bs h) (\<lambda>h.
             obind (if 0 \<le> len then write_byte s (nat len) 0 h else Inl OutOfBounds) (\<lambda>h.
             Inr (r, h))))))"

end
