(* ===== verification/Scaling.thy ===== *)
theory Scaling
  imports Decoders
begin

text \<open>
  What the numeric decoders compute, as a specification: a physical quantity is a raw payload
  field times a factor plus an offset. The decoders compute it in floating point; the lemmas here
  show that each of them stores either exactly that quantity or a number within one part in
  \<open>2 ^ 23\<close> of it (the spacing of \<open>float\<close>), and that the stored number is a \<open>float\<close>.
\<close>

section \<open>The specification\<close>

datatype raw_field = U8 nat | U16 nat | S16 nat

fun raw_value :: "raw_field \<Rightarrow> byte list \<Rightarrow> int" where
  "raw_value (U8 i) p = uint (p ! i)"
| "raw_value (U16 i) p = 256 * uint (p ! i) + uint (p ! (i + 1))"
| "raw_value (S16 i) p = 256 * sint (p ! i) + uint (p ! (i + 1))"

record scaling =
  field_of :: raw_field
  factor :: rat
  offset :: rat
  exactly :: bool

definition quantity :: "scaling \<Rightarrow> byte list \<Rightarrow> rat" where
  "quantity s p = of_int (raw_value (field_of s) p) * factor s + offset s"

text \<open>Equality, or a relative error of at most one part in \<open>2 ^ 23\<close>.\<close>

definition fits :: "bool \<Rightarrow> rat \<Rightarrow> rat \<Rightarrow> bool" where
  "fits ex q y \<longleftrightarrow> (if ex then q = y else \<bar>q - y\<bar> \<le> \<bar>y\<bar> / 2 ^ 23)"

definition accurate :: "scaling \<Rightarrow> byte list \<Rightarrow> rat \<Rightarrow> bool" where
  "accurate s p q \<longleftrightarrow> representable 24 q \<and> fits (exactly s) q (quantity s p)"

definition measures :: "decoder \<Rightarrow> nat \<Rightarrow> scaling \<Rightarrow> bool" where
  "measures d n s \<longleftrightarrow> (\<forall>r p len h. n \<le> length p \<longrightarrow>
     (\<exists>q. d r p len h = Inr (r\<lparr>r_value := NumericValue q\<rparr>, h) \<and> accurate s p q))"

section \<open>Integer fields\<close>

lemma byte_bounds [simp]: "0 \<le> uint (a::byte)" "uint (a::byte) < 256" "uint (a::byte) \<le> 255"
  using uint_bounded [of a] by simp_all

lemma sbyte_bounds: "- 128 \<le> sint (a::byte)" "sint (a::byte) \<le> 127"
  using sint_range_size [of a] by (simp_all add: word_size)

lemma be16_eq: "be16 a b = 256 * uint a + uint b"
proof -
  have "be16 a b = concat_bit 8 (uint b) (uint a)"
    by (simp add: be16_def concat_bit_def or.commute take_bit_int_eq_self)
  then show ?thesis
    by (simp add: concat_bit_eq take_bit_int_eq_self push_bit_eq_mult)
qed

lemma be16_signed_eq: "be16_signed a b = 256 * sint a + uint b"
proof -
  have "be16_signed a b = concat_bit 8 (uint b) (sint a)"
    by (simp add: be16_signed_def concat_bit_def or.commute take_bit_int_eq_self)
  then show ?thesis
    by (simp add: concat_bit_eq take_bit_int_eq_self push_bit_eq_mult)
qed

lemma be16_bounds: "0 \<le> be16 a b" "be16 a b \<le> 65535"
  using byte_bounds [of a] byte_bounds [of b] unfolding be16_eq by linarith+

lemma be16_signed_bounds: "- 32768 \<le> be16_signed a b" "be16_signed a b \<le> 32767"
  using sbyte_bounds [of a] byte_bounds [of b] unfolding be16_signed_eq by linarith+

section \<open>Exact floating point steps\<close>

lemma f64_of_int [simp]: "\<bar>k\<bar> \<le> 2 ^ 53 \<Longrightarrow> f64 (of_int k) = of_int k"
  by (rule f64.exact_int)

lemma f32_of_int [simp]: "\<bar>k\<bar> \<le> 2 ^ 24 \<Longrightarrow> f32 (of_int k) = of_int k"
  by (rule f32.exact_int)

lemma d_of_int_exact [simp]: "\<bar>k\<bar> \<le> 2 ^ 53 \<Longrightarrow> d_of_int k = of_int k"
  by (simp add: d_of_int_def)

text \<open>A number with a denominator that is a small power of two is exact in both formats.\<close>

lemma dyadic_exact:
  assumes "x = of_int m / 2 ^ n" and "\<bar>m\<bar> \<le> 2 ^ 24"
  shows "f64 x = x" and "f32 x = x"
  using assms f64.exact_quotient [of m n] f32.exact_quotient [of m n] by auto

text \<open>The decimal literals of the source, as doubles.\<close>

lemma dlit_exact [simp]:
  "dlit 2 = 2" "dlit 4 = 4" "dlit 8 = 8" "dlit 10 = 10" "dlit 40 = 40" "dlit 100 = 100"
  "dlit 128 = 128" "dlit 200 = 200" "dlit 255 = 255" "dlit 256 = 256" "dlit 1000 = 1000"
  "dlit 65536 = 65536"
  unfolding dlit_def using f64.exact_int [of 2] f64.exact_int [of 4] f64.exact_int [of 8]
    f64.exact_int [of 10] f64.exact_int [of 40] f64.exact_int [of 100] f64.exact_int [of 128]
    f64.exact_int [of 200] f64.exact_int [of 255] f64.exact_int [of 256] f64.exact_int [of 1000]
    f64.exact_int [of 65536]
  by simp_all

section \<open>Rounded steps\<close>

text \<open>A result computed in \<open>double\<close> with a tiny relative error, stored as a \<open>float\<close>.\<close>

lemma f64_rel: "\<bar>x - y\<bar> \<le> \<bar>y\<bar> / 2 ^ 30 \<Longrightarrow> \<bar>f64 x - y\<bar> \<le> \<bar>y\<bar> / 2 ^ 29"
  using f64.error_of_approx [of x y "\<bar>y\<bar> / 2 ^ 30" "\<bar>y\<bar>"] by (simp add: power_int_minus field_simps)

lemma f32_rel: "\<bar>x - y\<bar> \<le> \<bar>y\<bar> / 2 ^ 29 \<Longrightarrow> \<bar>f32 x - y\<bar> \<le> \<bar>y\<bar> / 2 ^ 23"
  using f32.error_of_approx [of x y "\<bar>y\<bar> / 2 ^ 29" "\<bar>y\<bar>"] by (simp add: power_int_minus field_simps)

lemma stored_rel: "\<bar>x - y\<bar> \<le> \<bar>y\<bar> / 2 ^ 30 \<Longrightarrow> \<bar>f32 (f64 x) - y\<bar> \<le> \<bar>y\<bar> / 2 ^ 23"
  by (rule f32_rel) (rule f64_rel)

lemma fits_refl: "q = y \<Longrightarrow> fits ex q y"
  by (simp add: fits_def)

lemma fits_dyadic: "y = of_int m / 2 ^ n \<Longrightarrow> \<bar>m\<bar> \<le> 2 ^ 24 \<Longrightarrow> x = y \<Longrightarrow> fits ex (f32 x) y"
  using dyadic_exact(2) [of y m n] by (intro fits_refl) simp

lemma f64_dyadic: "x = of_int m / 2 ^ n \<Longrightarrow> \<bar>m\<bar> \<le> 2 ^ 24 \<Longrightarrow> f64 x = x"
  by (rule dyadic_exact(1))

lemma dlit_51_20: "dlit (51 / 20) = 2871044762448691 / 1125899906842624"
  by code_simp

lemma dlit_32_25: "dlit (32 / 25) = 5764607523034235 / 4503599627370496"
  by code_simp

lemma dlit_79_1000: "dlit (79 / 1000) = 5692549928996307 / 72057594037927936"
  by code_simp

lemma ddiv_100_255: "ddiv 100 255 = 7064470003718425 / 18014398509481984"
  by code_simp

lemma fits_stored: "\<bar>x - y\<bar> \<le> \<bar>y\<bar> / 2 ^ 30 \<Longrightarrow> fits False (f32 (f64 x)) y"
  using stored_rel [of x y] by (simp add: fits_def)

text \<open>Shared exact subexpressions: the RPM sum, a fuel trim and an equivalence ratio.\<close>

lemma rpm_sum:
  assumes "0 \<le> x" "x < 256" "0 \<le> y" "y < 256"
  shows "dadd (dmul (dlit 256) (d_of_int x)) (d_of_int y) = d_of_int (256 * x + y)"
proof -
  have "f64 (of_int (256 * x)) = of_int (256 * x)" "f64 (of_int (256 * x + y)) = of_int (256 * x + y)"
    using assms by (intro f64_of_int; simp)+
  then show ?thesis using assms by (simp add: dadd_def dmul_def d_of_int_def)
qed

lemma trim_exact:
  assumes "0 \<le> x" "x \<le> 255"
  shows "dsub (dmul (ddiv (dlit 100) (dlit 128)) (d_of_int x)) (dlit 100) = of_int (25 * x - 3200) / 2 ^ 5"
proof -
  have k: "ddiv (dlit 100) (dlit 128) = 25 / 32"
    using f64_dyadic [of _ 25 5] by (simp add: ddiv_def)
  have m: "dmul (25 / 32) (d_of_int x) = of_int (25 * x) / 2 ^ 5"
    using assms f64_dyadic [of _ "25 * x" 5] by (simp add: dmul_def)
  show ?thesis
    unfolding k m using assms f64_dyadic [of "of_int (25 * x) / 2 ^ 5 - 100" "25 * x - 3200" 5]
    by (simp add: dsub_def)
qed

lemma ratio_exact:
  assumes "0 \<le> x" "x \<le> 65535"
  shows "dmul (ddiv (dlit 2) (dlit 65536)) (d_of_int x) = of_int x / 2 ^ 15"
proof -
  have k: "ddiv (dlit 2) (dlit 65536) = 1 / 32768"
    using f64_dyadic [of _ 1 15] by (simp add: ddiv_def)
  show ?thesis
    unfolding k using assms f64_dyadic [of _ x 15] by (simp add: dmul_def)
qed

section \<open>From the stored expression to the decoder\<close>

lemma measures_byte:
  assumes d: "\<And>r p len h. d r p len h = with_byte p 2 (\<lambda>a. put_numeric (e (uint a)) r h)"
    and e: "\<And>x. 0 \<le> x \<Longrightarrow> x \<le> 255 \<Longrightarrow> fits ex (f32 (e x)) (of_int x * k + c)"
  shows "measures d 3 \<lparr>field_of = U8 2, factor = k, offset = c, exactly = ex\<rparr>" (is "measures d 3 ?s")
  unfolding measures_def
proof (intro allI impI exI conjI)
  fix r h len and p :: "byte list" assume n: "3 \<le> length p"
  show "d r p len h = Inr (r\<lparr>r_value := NumericValue (f32 (e (uint (p ! 2))))\<rparr>, h)"
    using n by (simp add: d with_byte_def put_numeric_def)
  show "accurate ?s p (f32 (e (uint (p ! 2))))"
    using e [of "uint (p ! 2)"] by (simp only: accurate_def quantity_def f32.in_format
        scaling.simps raw_value.simps byte_bounds simp_thms)
qed

lemma measures_word:
  assumes d: "\<And>r p len h. d r p len h = with_bytes p 2 3 (\<lambda>a b. put_numeric (e (be16 a b)) r h)"
    and e: "\<And>x. 0 \<le> x \<Longrightarrow> x \<le> 65535 \<Longrightarrow> fits ex (f32 (e x)) (of_int x * k + c)"
  shows "measures d 4 \<lparr>field_of = U16 2, factor = k, offset = c, exactly = ex\<rparr>" (is "measures d 4 ?s")
  unfolding measures_def
proof (intro allI impI exI conjI)
  fix r h len and p :: "byte list" assume n: "4 \<le> length p"
  show "d r p len h = Inr (r\<lparr>r_value := NumericValue (f32 (e (be16 (p ! 2) (p ! 3))))\<rparr>, h)"
    using n by (simp add: d with_bytes_def put_numeric_def)
  show "accurate ?s p (f32 (e (be16 (p ! 2) (p ! 3))))"
    using e [of "be16 (p ! 2) (p ! 3)"] by (simp only: accurate_def quantity_def f32.in_format
        scaling.simps raw_value.simps be16_bounds simp_thms) (simp add: be16_eq)
qed

section \<open>The numeric decoders\<close>

lemma measures_Temperature:
  "measures OBDIIDecodeTemperature 3 \<lparr>field_of = U8 2, factor = 1, offset = - 40, exactly = True\<rparr>"
proof (rule measures_byte [where e = "\<lambda>x. of_int (x - 40)", OF OBDIIDecodeTemperature_def])
  show "fits True (f32 (of_int (x - 40))) (of_int x * 1 + - 40)" if "0 \<le> x" "x \<le> 255" for x :: int
    using that by (intro fits_dyadic [of _ "x - 40" 0]) simp_all
qed

lemma measures_Percentage:
  "measures OBDIIDecodePercentage 3 \<lparr>field_of = U8 2, factor = 100 / 255, offset = 0, exactly = False\<rparr>"
proof (rule measures_byte [where e = "\<lambda>x. ddiv (d_of_int x) (dlit (255 / 100))", OF OBDIIDecodePercentage_def])
  show "fits False (f32 (ddiv (d_of_int x) (dlit (255 / 100)))) (of_int x * (100 / 255) + 0)"
    if "0 \<le> x" "x \<le> 255" for x :: int
    unfolding ddiv_def using that by (intro fits_stored) (simp add: dlit_51_20)
qed

lemma measures_TimingAdvance:
  "measures OBDIIDecodeTimingAdvance 3 \<lparr>field_of = U8 2, factor = 1 / 2, offset = - 64, exactly = True\<rparr>"
proof (rule measures_byte [where e = "\<lambda>x. dsub (ddiv (d_of_int x) (dlit 2)) (d_of_int 64)", OF OBDIIDecodeTimingAdvance_def])
  fix x :: int assume x: "0 \<le> x" "x \<le> 255"
  have "ddiv (d_of_int x) (dlit 2) = of_int x / 2"
    using x f64_dyadic [of _ x 1] by (simp add: ddiv_def)
  moreover have "dsub (of_int x / 2) (d_of_int 64) = of_int (x - 128) / 2"
    using x f64_dyadic [of "of_int x / 2 - 64" "x - 128" 1] by (simp add: dsub_def field_simps)
  ultimately show "fits True (f32 (dsub (ddiv (d_of_int x) (dlit 2)) (d_of_int 64))) (of_int x * (1 / 2) + - 64)"
    using x by (intro fits_dyadic [of _ "x - 128" 1]) (simp_all only:, simp_all)
qed

lemma measures_FuelTrim:
  "measures OBDIIDecodeFuelTrim 3 \<lparr>field_of = U8 2, factor = 100 / 128, offset = - 100, exactly = False\<rparr>"
proof (rule measures_byte [where e = "\<lambda>x. dsub (ddiv (d_of_int x) (dlit (128 / 100))) (d_of_int 100)", OF OBDIIDecodeFuelTrim_def])
  fix x :: int assume x: "0 \<le> x" "x \<le> 255"
  show "fits False (f32 (dsub (ddiv (d_of_int x) (dlit (128 / 100))) (d_of_int 100))) (of_int x * (100 / 128) + - 100)"
  proof (cases "x = 128")
    case True
    have "f32 (dsub (ddiv (d_of_int 128) (dlit (128 / 100))) (d_of_int 100)) = 0" by code_simp
    with True show ?thesis by (simp add: fits_def)
  next
    case False
    have "\<bar>ddiv (d_of_int x) (dlit (128 / 100)) - of_int x * (100 / 128)\<bar> \<le> 1 / 2 ^ 40"
      using x f64.error_of_approx [of "of_int x / (5764607523034235 / 4503599627370496)" "of_int x * (100 / 128)" "1 / 2 ^ 43" 200]
      by (simp add: ddiv_def dlit_32_25 power_int_minus)
    moreover have "1 / 32 \<le> \<bar>of_int x * (100 / 128) + - 100 :: rat\<bar>"
    proof -
      have "1 \<le> \<bar>25 * x - 3200\<bar>" using False by presburger
      then have "of_int 1 \<le> (of_int \<bar>25 * x - 3200\<bar> :: rat)" by (simp only: of_int_le_iff)
      then show ?thesis by (simp add: abs_if split: if_splits)
    qed
    ultimately show ?thesis unfolding dsub_def using x by (intro fits_stored) simp
  qed
qed

lemma measures_FuelPressure:
  "measures OBDIIDecodeFuelPressure 3 \<lparr>field_of = U8 2, factor = 3, offset = 0, exactly = True\<rparr>"
proof (rule measures_byte [where e = "\<lambda>x. of_int (3 * x)", OF OBDIIDecodeFuelPressure_def])
  show "fits True (f32 (of_int (3 * x))) (of_int x * 3 + 0)" if "0 \<le> x" "x \<le> 255" for x :: int
    using that by (intro fits_dyadic [of _ "3 * x" 0]) simp_all
qed

lemma measures_ThrottlePosition:
  "measures OBDIIDecodeThrottlePosition 3 \<lparr>field_of = U8 2, factor = 100 / 255, offset = 0, exactly = False\<rparr>"
proof (rule measures_byte [where e = "\<lambda>x. dmul (ddiv (dlit 100) (dlit 255)) (d_of_int x)", OF OBDIIDecodeThrottlePosition_def])
  show "fits False (f32 (dmul (ddiv (dlit 100) (dlit 255)) (d_of_int x))) (of_int x * (100 / 255) + 0)"
    if "0 \<le> x" "x \<le> 255" for x :: int
    unfolding dmul_def using that by (intro fits_stored) (simp add: ddiv_100_255)
qed

lemma measures_UInt8:
  "measures OBDIIDecodeUInt8 3 \<lparr>field_of = U8 2, factor = 1, offset = 0, exactly = True\<rparr>"
proof (rule measures_byte [where e = of_int, OF OBDIIDecodeUInt8_def])
  show "fits True (f32 (of_int x)) (of_int x * 1 + 0)" if "0 \<le> x" "x \<le> 255" for x :: int
    using that by (intro fits_dyadic [of _ x 0]) simp_all
qed

lemma measures_EGRError:
  "measures OBDIIDecodeEGRError 3 \<lparr>field_of = U8 2, factor = 100 / 128, offset = - 100, exactly = True\<rparr>"
proof (rule measures_byte [where e = "\<lambda>x. dsub (dmul (ddiv (dlit 100) (dlit 128)) (d_of_int x)) (dlit 100)", OF OBDIIDecodeEGRError_def])
  show "fits True (f32 (dsub (dmul (ddiv (dlit 100) (dlit 128)) (d_of_int x)) (dlit 100))) (of_int x * (100 / 128) + - 100)"
    if "0 \<le> x" "x \<le> 255" for x :: int
    unfolding trim_exact [OF that]
    using that by (intro fits_dyadic [of _ "25 * x - 3200" 5]) simp_all
qed

lemma measures_EngineRPMs:
  "measures OBDIIDecodeEngineRPMs 4 \<lparr>field_of = U16 2, factor = 1 / 4, offset = 0, exactly = True\<rparr>"
proof (rule measures_word [where e = "\<lambda>x. ddiv (d_of_int x) (dlit 4)"])
  show "OBDIIDecodeEngineRPMs r p len h = with_bytes p 2 3 (\<lambda>a b. put_numeric (ddiv (d_of_int (be16 a b)) (dlit 4)) r h)" for r p len h
    by (simp only: OBDIIDecodeEngineRPMs_def be16_eq rpm_sum byte_bounds)
  show "fits True (f32 (ddiv (d_of_int x) (dlit 4))) (of_int x * (1 / 4) + 0)" if "0 \<le> x" "x \<le> 65535" for x :: int
    using that f64_dyadic [of _ x 2] by (intro fits_dyadic [of _ x 2]) (simp_all add: ddiv_def)
qed

lemma measures_MAFAirFlowRate:
  "measures OBDIIDecodeMAFAirFlowRate 4 \<lparr>field_of = U16 2, factor = 1 / 100, offset = 0, exactly = False\<rparr>"
proof (rule measures_word [where e = "\<lambda>x. ddiv (d_of_int x) (dlit 100)", OF OBDIIDecodeMAFAirFlowRate_def])
  show "fits False (f32 (ddiv (d_of_int x) (dlit 100))) (of_int x * (1 / 100) + 0)" if "0 \<le> x" "x \<le> 65535" for x :: int
    unfolding ddiv_def using that by (intro fits_stored) simp
qed

lemma measures_UInt16:
  "measures OBDIIDecodeUInt16 4 \<lparr>field_of = U16 2, factor = 1, offset = 0, exactly = True\<rparr>"
proof (rule measures_word [where e = of_int, OF OBDIIDecodeUInt16_def])
  show "fits True (f32 (of_int x)) (of_int x * 1 + 0)" if "0 \<le> x" "x \<le> 65535" for x :: int
    using that by (intro fits_dyadic [of _ x 0]) simp_all
qed

lemma measures_FuelRailPressure:
  "measures OBDIIDecodeFuelRailPressure 4 \<lparr>field_of = U16 2, factor = 79 / 1000, offset = 0, exactly = False\<rparr>"
proof (rule measures_word [where e = "\<lambda>x. dmul (dlit (79 / 1000)) (d_of_int x)", OF OBDIIDecodeFuelRailPressure_def])
  show "fits False (f32 (dmul (dlit (79 / 1000)) (d_of_int x))) (of_int x * (79 / 1000) + 0)"
    if "0 \<le> x" "x \<le> 65535" for x :: int
    unfolding dmul_def using that by (intro fits_stored) (simp add: dlit_79_1000)
qed

lemma measures_FuelRailGaugePressure:
  "measures OBDIIDecodeFuelRailGaugePressure 4 \<lparr>field_of = U16 2, factor = 10, offset = 0, exactly = True\<rparr>"
proof (rule measures_word [where e = "\<lambda>x. of_int (10 * x)", OF OBDIIDecodeFuelRailGaugePressure_def])
  show "fits True (f32 (of_int (10 * x))) (of_int x * 10 + 0)" if "0 \<le> x" "x \<le> 65535" for x :: int
    using that by (intro fits_dyadic [of _ "10 * x" 0]) simp_all
qed

lemma measures_CatalystTemperature:
  "measures OBDIIDecodeCatalystTemperature 4 \<lparr>field_of = U16 2, factor = 1 / 10, offset = - 40, exactly = False\<rparr>"
proof (rule measures_word [where e = "\<lambda>x. dsub (ddiv (d_of_int x) (dlit 10)) (dlit 40)", OF OBDIIDecodeCatalystTemperature_def])
  fix x :: int assume x: "0 \<le> x" "x \<le> 65535"
  show "fits False (f32 (dsub (ddiv (d_of_int x) (dlit 10)) (dlit 40))) (of_int x * (1 / 10) + - 40)"
  proof (cases "x = 400")
    case True
    have "f32 (dsub (ddiv (d_of_int 400) (dlit 10)) (dlit 40)) = 0" by code_simp
    with True show ?thesis by (simp add: fits_def)
  next
    case False
    have "\<bar>ddiv (d_of_int x) (dlit 10) - of_int x / 10\<bar> \<le> 1 / 2 ^ 40"
      using x f64.error [of "of_int x / 10"] by (simp add: ddiv_def power_int_minus)
    moreover have "1 / 10 \<le> \<bar>of_int x * (1 / 10) + - 40 :: rat\<bar>"
    proof -
      have "1 \<le> \<bar>x - 400\<bar>" using False by presburger
      then have "of_int 1 \<le> (of_int \<bar>x - 400\<bar> :: rat)" by (simp only: of_int_le_iff)
      then show ?thesis by (simp add: abs_if split: if_splits)
    qed
    ultimately show ?thesis unfolding dsub_def using x by (intro fits_stored) simp
  qed
qed

lemma measures_ControlModuleVoltage:
  "measures OBDIIDecodeControlModuleVoltage 4 \<lparr>field_of = U16 2, factor = 1 / 1000, offset = 0, exactly = False\<rparr>"
proof (rule measures_word [where e = "\<lambda>x. ddiv (d_of_int x) (dlit 1000)", OF OBDIIDecodeControlModuleVoltage_def])
  show "fits False (f32 (ddiv (d_of_int x) (dlit 1000))) (of_int x * (1 / 1000) + 0)" if "0 \<le> x" "x \<le> 65535" for x :: int
    unfolding ddiv_def using that by (intro fits_stored) simp
qed

lemma measures_AbsoluteLoadValue:
  "measures OBDIIDecodeAbsoluteLoadValue 4 \<lparr>field_of = U16 2, factor = 100 / 255, offset = 0, exactly = False\<rparr>"
proof (rule measures_word [where e = "\<lambda>x. dmul (ddiv (dlit 100) (dlit 255)) (d_of_int x)", OF OBDIIDecodeAbsoluteLoadValue_def])
  show "fits False (f32 (dmul (ddiv (dlit 100) (dlit 255)) (d_of_int x))) (of_int x * (100 / 255) + 0)"
    if "0 \<le> x" "x \<le> 65535" for x :: int
    unfolding dmul_def using that by (intro fits_stored) (simp add: ddiv_100_255)
qed

lemma measures_FuelAirEquivalence:
  "measures OBDIIDecodeFuelAirEquivalence 4 \<lparr>field_of = U16 2, factor = 2 / 65536, offset = 0, exactly = True\<rparr>"
proof (rule measures_word [where e = "\<lambda>x. dmul (ddiv (dlit 2) (dlit 65536)) (d_of_int x)", OF OBDIIDecodeFuelAirEquivalence_def])
  show "fits True (f32 (dmul (ddiv (dlit 2) (dlit 65536)) (d_of_int x))) (of_int x * (2 / 65536) + 0)"
    if "0 \<le> x" "x \<le> 65535" for x :: int
    unfolding ratio_exact [OF that]
    using that by (intro fits_dyadic [of _ x 15]) simp_all
qed

lemma measures_VaporPressure:
  "measures OBDIIDecodeVaporPressure 4 \<lparr>field_of = S16 2, factor = 1 / 4, offset = 0, exactly = True\<rparr>" (is "measures _ _ ?s")
  unfolding measures_def
proof (intro allI impI exI conjI)
  fix r h len and p :: "byte list" assume n: "4 \<le> length p"
  let ?x = "be16_signed (p ! 2) (p ! 3)"
  have x: "- 32768 \<le> ?x" "?x \<le> 32767" by (rule be16_signed_bounds)+
  have e: "ddiv (d_of_int ?x) (dlit 4) = of_int ?x / 4"
    using x f64_dyadic [of _ ?x 2] by (simp add: ddiv_def abs_le_iff)
  show "OBDIIDecodeVaporPressure r p len h =
      Inr (r\<lparr>r_value := NumericValue (f32 (ddiv (d_of_int ?x) (dlit 4)))\<rparr>, h)"
    using n by (simp add: OBDIIDecodeVaporPressure_def with_bytes_def put_numeric_def)
  have "fits True (f32 (of_int ?x / 4)) (of_int ?x * (1 / 4) + 0)"
    using x by (intro fits_dyadic [of _ ?x 2]) (simp_all add: abs_le_iff)
  then show "accurate ?s p (f32 (ddiv (d_of_int ?x) (dlit 4)))"
    unfolding e by (simp only: accurate_def quantity_def f32.in_format scaling.simps raw_value.simps simp_thms)
      (simp add: be16_signed_eq)
qed

section \<open>The oxygen sensor decoders\<close>

text \<open>
  Each of them fills two numbers; \<open>senses d n v w\<close> states which quantities they are.
\<close>

definition senses :: "decoder \<Rightarrow> nat \<Rightarrow> scaling \<Rightarrow> scaling \<Rightarrow> bool" where
  "senses d n sv sw \<longleftrightarrow> (\<forall>r p len h. n \<le> length p \<longrightarrow> r_value r = ZeroBytes \<longrightarrow>
     (\<exists>v w. d r p len h = Inr (r\<lparr>r_value := OxygenValue \<lparr>voltage_or_current = v, trim_or_ratio = w\<rparr>\<rparr>, h)
        \<and> accurate sv p v \<and> accurate sw p w))"

lemma accurateI:
  assumes "representable 24 q" "fits ex q (of_int (raw_value f p) * k + c)"
  shows "accurate \<lparr>field_of = f, factor = k, offset = c, exactly = ex\<rparr> p q"
  using assms by (simp only: accurate_def quantity_def scaling.simps simp_thms)

lemmas oxygen_stores = put_voltage_or_current_def put_trim_or_ratio_def with_byte_def with_bytes_def

lemma senses_1:
  "senses OBDIIDecodeOxygenSensorValues 4
     \<lparr>field_of = U8 2, factor = 1 / 200, offset = 0, exactly = False\<rparr>
     \<lparr>field_of = U8 3, factor = 100 / 128, offset = - 100, exactly = True\<rparr>"
  unfolding senses_def
proof (intro allI impI exI conjI accurateI)
  fix r :: OBDIIResponse and h len and p :: "byte list" assume n: "4 \<le> length p" and z: "r_value r = ZeroBytes"
  let ?v = "f32 (ddiv (d_of_int (uint (p ! 2))) (dlit 200))"
  let ?w = "f32 (dsub (dmul (ddiv (dlit 100) (dlit 128)) (d_of_int (uint (p ! 3)))) (dlit 100))"
  show "OBDIIDecodeOxygenSensorValues r p len h =
    Inr (r\<lparr>r_value := OxygenValue \<lparr>voltage_or_current = ?v, trim_or_ratio = ?w\<rparr>\<rparr>, h)"
    using n z by (simp add: OBDIIDecodeOxygenSensorValues_def oxygen_stores)
  have "fits False (f32 (ddiv (d_of_int x) (dlit 200))) (of_int x * (1 / 200) + 0)" if "0 \<le> x" "x \<le> 255" for x
    unfolding ddiv_def using that by (intro fits_stored) simp
  then show "fits False ?v (of_int (raw_value (U8 2) p) * (1 / 200) + 0)"
    by (simp only: raw_value.simps byte_bounds)
  have "fits True (f32 (dsub (dmul (ddiv (dlit 100) (dlit 128)) (d_of_int x)) (dlit 100))) (of_int x * (100 / 128) + - 100)"
    if "0 \<le> x" "x \<le> 255" for x
    unfolding trim_exact [OF that] using that by (intro fits_dyadic [of _ "25 * x - 3200" 5]) simp_all
  then show "fits True ?w (of_int (raw_value (U8 3) p) * (100 / 128) + - 100)"
    by (simp only: raw_value.simps byte_bounds)
qed (rule f32.in_format)+

lemma fits_word_scaled:
  assumes "\<And>x. 0 \<le> x \<Longrightarrow> x \<le> 65535 \<Longrightarrow> fits ex (f32 (e x)) (of_int x * k + c)"
  shows "fits ex (f32 (e (be16 (p ! i) (p ! j)))) (of_int (be16 (p ! i) (p ! j)) * k + c)"
  by (rule assms) (rule be16_bounds)+

lemma ratio_fits: "0 \<le> x \<Longrightarrow> x \<le> 65535 \<Longrightarrow>
    fits True (f32 (dmul (ddiv (dlit 2) (dlit 65536)) (d_of_int x))) (of_int x * (2 / 65536) + 0)"
  unfolding ratio_exact by (intro fits_dyadic [of _ x 15]) simp_all

lemma raw_word: "raw_value (U16 i) p = be16 (p ! i) (p ! (i + 1))"
  by (simp add: be16_eq)

lemma senses_2:
  "senses OBDIIDecodeOxygenSensorValues2 6
     \<lparr>field_of = U16 4, factor = 8 / 65536, offset = 0, exactly = True\<rparr>
     \<lparr>field_of = U16 2, factor = 2 / 65536, offset = 0, exactly = True\<rparr>"
  unfolding senses_def
proof (intro allI impI exI conjI accurateI)
  fix r :: OBDIIResponse and h len and p :: "byte list" assume n: "6 \<le> length p" and z: "r_value r = ZeroBytes"
  let ?v = "f32 (dmul (ddiv (dlit 8) (dlit 65536)) (d_of_int (be16 (p ! 4) (p ! (4 + 1)))))"
  let ?w = "f32 (dmul (ddiv (dlit 2) (dlit 65536)) (d_of_int (be16 (p ! 2) (p ! (2 + 1)))))"
  show "OBDIIDecodeOxygenSensorValues2 r p len h =
    Inr (r\<lparr>r_value := OxygenValue \<lparr>voltage_or_current = ?v, trim_or_ratio = ?w\<rparr>\<rparr>, h)"
    using n z by (simp add: OBDIIDecodeOxygenSensorValues2_def oxygen_stores)
  have "fits True (f32 (dmul (ddiv (dlit 8) (dlit 65536)) (d_of_int x))) (of_int x * (8 / 65536) + 0)"
    if "0 \<le> x" "x \<le> 65535" for x
  proof -
    have "dmul (ddiv (dlit 8) (dlit 65536)) (d_of_int x) = of_int x / 2 ^ 13"
      using that f64_dyadic [of _ x 13] f64_dyadic [of _ 1 13] by (simp add: ddiv_def dmul_def)
    then show ?thesis using that by (intro fits_dyadic [of _ x 13]) simp_all
  qed
  then show "fits True ?v (of_int (raw_value (U16 4) p) * (8 / 65536) + 0)"
    unfolding raw_word by (rule fits_word_scaled)
  show "fits True ?w (of_int (raw_value (U16 2) p) * (2 / 65536) + 0)"
    unfolding raw_word by (rule fits_word_scaled) (rule ratio_fits)
qed (rule f32.in_format)+

lemma senses_3:
  "senses OBDIIDecodeOxygenSensorValues3 6
     \<lparr>field_of = U16 4, factor = 1 / 256, offset = - 128, exactly = True\<rparr>
     \<lparr>field_of = U16 2, factor = 2 / 65536, offset = 0, exactly = True\<rparr>"
  unfolding senses_def
proof (intro allI impI exI conjI accurateI)
  fix r :: OBDIIResponse and h len and p :: "byte list" assume n: "6 \<le> length p" and z: "r_value r = ZeroBytes"
  let ?v = "f32 (dsub (ddiv (d_of_int (be16 (p ! 4) (p ! (4 + 1)))) (dlit 256)) (dlit 128))"
  let ?w = "f32 (dmul (ddiv (dlit 2) (dlit 65536)) (d_of_int (be16 (p ! 2) (p ! (2 + 1)))))"
  show "OBDIIDecodeOxygenSensorValues3 r p len h =
    Inr (r\<lparr>r_value := OxygenValue \<lparr>voltage_or_current = ?v, trim_or_ratio = ?w\<rparr>\<rparr>, h)"
    using n z by (simp add: OBDIIDecodeOxygenSensorValues3_def oxygen_stores)
  have "fits True (f32 (dsub (ddiv (d_of_int x) (dlit 256)) (dlit 128))) (of_int x * (1 / 256) + - 128)"
    if "0 \<le> x" "x \<le> 65535" for x
  proof -
    have d: "ddiv (d_of_int x) (dlit 256) = of_int x / 2 ^ 8"
      using that f64_dyadic [of _ x 8] by (simp add: ddiv_def)
    have s: "dsub (of_int x / 2 ^ 8) (dlit 128) = of_int (x - 32768) / 2 ^ 8"
      using that f64_dyadic [of "of_int x / 2 ^ 8 - 128" "x - 32768" 8]
      by (simp add: dsub_def abs_le_iff)
    show ?thesis
      unfolding d s using that by (intro fits_dyadic [of _ "x - 32768" 8]) (simp_all add: abs_le_iff)
  qed
  then show "fits True ?v (of_int (raw_value (U16 4) p) * (1 / 256) + - 128)"
    unfolding raw_word by (rule fits_word_scaled)
  show "fits True ?w (of_int (raw_value (U16 2) p) * (2 / 65536) + 0)"
    unfolding raw_word by (rule fits_word_scaled) (rule ratio_fits)
qed (rule f32.in_format)+

end
