(* ===== verification/Decoder_Facts.thy ===== *)
theory Decoder_Facts
  imports Scaling
begin

text \<open>
  The bitfield, trouble code and VIN decoders against their specifications: big-endian words, the
  text form of a diagnostic trouble code, and the VIN as a C string in a fresh heap block.
\<close>

section \<open>Bitfields\<close>

text \<open>A decoder that stores a bitfield computed from the payload.\<close>

definition flags :: "decoder \<Rightarrow> nat \<Rightarrow> (byte list \<Rightarrow> u32) \<Rightarrow> bool" where
  "flags d n w \<longleftrightarrow> (\<forall>r p len h. n \<le> length p \<longrightarrow>
     d r p len h = Inr (r\<lparr>r_value := BitfieldValue (w p)\<rparr>, h))"

text \<open>The big-endian word of a list of bytes.\<close>

fun be_word :: "byte list \<Rightarrow> u32" where
  "be_word [] = 0"
| "be_word (b # bs) = word_of_int (uint b) * 2 ^ (8 * length bs) + be_word bs"

section \<open>Trouble codes\<close>

definition hex_digit :: "nat \<Rightarrow> char" where
  "hex_digit n = ''0123456789ABCDEF'' ! n"

text \<open>The five characters of a trouble code: system letter, digit, three hexadecimal digits.\<close>

definition dtc_name :: "byte \<Rightarrow> byte \<Rightarrow> string" where
  "dtc_name a b = (let m = unat a; n = unat b in
     [''PCBU'' ! (m div 64), hex_digit (m div 16 mod 4), hex_digit (m mod 16),
      hex_digit (n div 16), hex_digit (n mod 16)])"

definition c_bytes :: "string \<Rightarrow> byte list" where
  "c_bytes s = map of_char s @ [0]"

section \<open>Characters of a trouble code\<close>

lemma be16_word: "(push_bit 8 (ucast a) OR ucast b :: u32) = word_of_int (256 * uint (a::byte) + uint (b::byte))"
proof -
  have "(push_bit 8 (ucast a) OR ucast b :: u32) = word_of_int (be16 a b)"
    unfolding be16_def by (rule bit_word_eqI) (auto simp add: bit_simps)
  then show ?thesis by (simp only: be16_eq)
qed

lemma byte_below:
  assumes "list_all P (map of_nat [0..<n])" and "unat (w::byte) < n"
  shows "P w"
proof -
  have "of_nat (unat w) \<in> set (map of_nat [0..<n] :: byte list)"
    using assms(2) by (simp only: set_map set_upt) (intro imageI, simp)
  with assms(1) have "P (of_nat (unat w))" unfolding list_all_iff by blast
  then show ?thesis by simp
qed

lemma ascii_hex: "unat w < 16 \<Longrightarrow> RawToAscii w = of_char (hex_digit (unat w))"
  by (rule byte_below [where n = 16]) (simp_all add: upt_rec RawToAscii_def hex_digit_def)

lemma letter_name: "unat w < 4 \<Longrightarrow> dtc_letter w = Some (of_char (''PCBU'' ! unat w))"
  by (rule byte_below [where n = 4]) (simp_all add: upt_rec dtc_letter_def)

lemma digit_hex: "unat w < 4 \<Longrightarrow> 0x30 + w = of_char (hex_digit (unat (w::byte)))"
  by (rule byte_below [where n = 4 and w = w]) (simp_all add: upt_rec hex_digit_def)

lemma unat_byte: "unat (a::byte) < 256"
  using unsigned_less [of a] by simp

lemma unat_high: "unat (drop_bit n a) = unat (a::byte) div 2 ^ n"
  unfolding unsigned_drop_bit_eq using unat_byte [of a] by (simp add: drop_bit_eq_div take_bit_nat_eq_self)

lemma unat_low: "unat (a AND 0x0F) = unat (a::byte) mod 16"
proof -
  have "a AND 0x0F = take_bit 4 a" by (simp add: take_bit_eq_mask mask_eq_exp_minus_1)
  then have "unat (a AND 0x0F) = take_bit 4 (unat a)" by (simp only: unsigned_take_bit_eq)
  then show ?thesis by (simp add: take_bit_eq_mod)
qed

lemma digit_bits: "drop_bit 4 (a AND 0x30) = take_bit 2 (drop_bit 4 (a::byte))"
  by (simp add: take_bit_eq_mask mask_eq_exp_minus_1)

lemma unat_digit: "unat (drop_bit 4 (a AND 0x30)) = unat (a::byte) div 16 mod 4"
  unfolding digit_bits unsigned_take_bit_eq unat_high by (simp add: take_bit_eq_mod)

lemma obind_Inr_right: "obind m Inr = m"
  by (cases m) simp_all

lemma write_bytes_6:
  "write_bytes p k [a, b, c, d, e, f] h =
     obind (write_byte p k a h) (\<lambda>h. obind (write_byte p (k + 1) b h) (\<lambda>h.
     obind (write_byte p (k + 2) c h) (\<lambda>h. obind (write_byte p (k + 3) d h) (\<lambda>h.
     obind (write_byte p (k + 4) e h) (\<lambda>h. write_byte p (k + 5) f h)))))"
proof -
  have w: "write_bytes p k [c] = write_byte p k c" for k c
  proof
    have "write_bytes p (Suc k) [] = Inr" by (rule ext) simp
    then show "write_bytes p k [c] h = write_byte p k c h" for h by (simp add: obind_Inr_right)
  qed
  have c: "write_bytes p k (x # y # cs) = (\<lambda>h. obind (write_byte p k x h) (write_bytes p (Suc k) (y # cs)))"
    for k x y cs by (rule ext) simp
  show ?thesis unfolding c w by (simp add: numeral_eq_Suc)
qed

lemma dtc_characters:
  "dtc_letter (drop_bit 6 a) = Some (of_char (''PCBU'' ! (unat a div 64)))"
  "0x30 + drop_bit 4 (a AND 0x30) = of_char (hex_digit (unat a div 16 mod 4))"
  "RawToAscii (a AND 0x0F) = of_char (hex_digit (unat a mod 16))"
  "RawToAscii (drop_bit 4 a) = of_char (hex_digit (unat a div 16))"
proof -
  have "unat (drop_bit 6 a) < 4" "unat (drop_bit 4 a) < 16"
    using unat_byte [of a] unfolding unat_high by simp_all
  from letter_name [OF this(1)] ascii_hex [OF this(2)]
  show "dtc_letter (drop_bit 6 a) = Some (of_char (''PCBU'' ! (unat a div 64)))"
    "RawToAscii (drop_bit 4 a) = of_char (hex_digit (unat a div 16))"
    by (simp_all only: unat_high) simp_all
  have "unat (drop_bit 4 (a AND 0x30)) < 4" "unat (a AND 0x0F) < 16"
    unfolding unat_digit unat_low by simp_all
  from digit_hex [OF this(1)] ascii_hex [OF this(2)]
  show "0x30 + drop_bit 4 (a AND 0x30) = of_char (hex_digit (unat a div 16 mod 4))"
    "RawToAscii (a AND 0x0F) = of_char (hex_digit (unat a mod 16))"
    by (simp_all only: unat_digit unat_low)
qed

lemma write_dtc_eq:
  "write_dtc codes i a b h = write_bytes codes (6 * i) (c_bytes (dtc_name a b)) h"
  unfolding write_dtc_def dtc_characters option.case c_bytes_def dtc_name_def Let_def list.map append.simps
    write_bytes_6 by (rule refl)

lemma length_c_bytes_dtc [simp]: "length (c_bytes (dtc_name a b)) = 6"
  by (simp add: c_bytes_def dtc_name_def Let_def)

text \<open>The text of the codes at payload offsets \<open>2 + 2 * i, \<dots>\<close> as the array of six-byte strings.\<close>

definition dtc_array :: "byte list \<Rightarrow> nat \<Rightarrow> nat \<Rightarrow> byte list" where
  "dtc_array p i n = concat (map (\<lambda>j. c_bytes (dtc_name (p ! (2 + 2 * j)) (p ! (3 + 2 * j)))) [i..<i + n])"

lemma write_dtcs_array:
  assumes "blocks h x = Some (ByteBlock (map Some done @ replicate (6 * n) None))"
    and "length done = 6 * i" and "2 + 2 * (i + n) \<le> length p"
  shows "write_dtcs (Some x) p i n h =
    Inr (h\<lparr>blocks := (blocks h)(x := Some (ByteBlock (map Some (done @ dtc_array p i n))))\<rparr>)"
  using assms
proof (induction n arbitrary: i h "done")
  case 0
  then show ?case by (simp add: dtc_array_def fun_upd_idem)
next
  case (Suc n)
  let ?a = "p ! (2 + 2 * i)" and ?b = "p ! (3 + 2 * i)"
  let ?t = "c_bytes (dtc_name ?a ?b)"
  let ?done = "done @ ?t"
  let ?h = "h\<lparr>blocks := (blocks h)(x := Some (ByteBlock (map Some ?done @ replicate (6 * n) None)))\<rparr>"
  have reads: "rd p (2 + i * 2) = Inr ?a" "rd p (2 + i * 2 + 1) = Inr ?b"
    using Suc.prems(3) by (simp_all add: mult.commute numeral_3_eq_3)
  have "write_dtc (Some x) i ?a ?b h = Inr ?h"
    unfolding write_dtc_eq using Suc.prems
    by (subst write_bytes_in_block [OF Suc.prems(1)]) (simp_all add: drop_replicate)
  moreover have "write_dtcs (Some x) p (Suc i) n ?h =
      Inr (?h\<lparr>blocks := (blocks ?h)(x := Some (ByteBlock (map Some (?done @ dtc_array p (Suc i) n))))\<rparr>)"
    using Suc.prems by (intro Suc.IH) simp_all
  moreover have "dtc_array p i (Suc n) = ?t @ dtc_array p (Suc i) n"
    unfolding dtc_array_def by (subst upt_conv_Cons) simp_all
  ultimately show ?case
    by (simp only: write_dtcs.simps with_bytes_def reads obind_Inr)
      (simp add: fun_upd_def cong: if_cong)
qed

lemma decode_dtcs_granted:
  assumes len: "2 \<le> len" "len mod 2 = 0" "len \<le> int (length p)" and g: "grants h (next_addr h)"
  defines "n \<equiv> nat (len div 2) - 1"
  shows "OBDIIDecodeDTCs r p len h = Inr (r\<lparr>r_value := DTCsValue (Some (next_addr h)) (int n)\<rparr>,
    h\<lparr>blocks := (blocks h)(next_addr h := Some (ByteBlock (map Some (dtc_array p 0 n)))),
      next_addr := Suc (next_addr h)\<rparr>)"
proof -
  let ?x = "next_addr h"
  let ?h = "h\<lparr>blocks := (blocks h)(?x := Some (ByteBlock (replicate (n * 6) None))), next_addr := Suc ?x\<rparr>"
  obtain q where q: "len = 2 * q" using len(2) by (metis mod_0_imp_dvd dvdE)
  have num: "nat ((len - 2) div 2) = n" "(len - 2) mod 2 = 0" "\<not> len - 2 < 0"
    using len unfolding n_def q by auto
  have "malloc (ByteBlock (replicate (n * 6) None)) h = (Some ?x, ?h)"
    using g by (simp add: malloc_def Let_def)
  moreover have "write_dtcs (Some ?x) p 0 n ?h =
      Inr (?h\<lparr>blocks := (blocks ?h)(?x := Some (ByteBlock (map Some ([] @ dtc_array p 0 n))))\<rparr>)"
    using len unfolding n_def by (intro write_dtcs_array) (simp_all add: mult.commute)
  ultimately show ?thesis
    by (simp only: OBDIIDecodeDTCs_def Let_def num simp_thms if_False split_conv obind_Inr) simp
qed

lemma decode_dtcs_malformed:
  "len < 2 \<or> len mod 2 \<noteq> 0 \<Longrightarrow> OBDIIDecodeDTCs r p len h = Inr (r\<lparr>r_success := 0\<rparr>, h)"
proof -
  assume "len < 2 \<or> len mod 2 \<noteq> 0"
  then have "len - 2 < 0 \<or> (len - 2) mod 2 \<noteq> 0" by presburger
  then show ?thesis by (simp only: OBDIIDecodeDTCs_def Let_def if_True)
qed

text \<open>The result of \<open>malloc\<close> is not checked: with at least one code and no memory the first store goes
  through a null pointer.\<close>

lemma decode_dtcs_no_memory:
  assumes len: "4 \<le> len" "len mod 2 = 0" "len \<le> int (length p)" and g: "\<not> grants h (next_addr h)"
  shows "OBDIIDecodeDTCs r p len h = Inl NullDeref"
proof -
  obtain q where q: "len = 2 * q" using len(2) by (metis mod_0_imp_dvd dvdE)
  define n where "n = nat (q - 2)"
  have num: "nat ((len - 2) div 2) = Suc n" "(len - 2) mod 2 = 0" "\<not> len - 2 < 0"
    using len unfolding n_def q by auto
  have "malloc b h = (None, h\<lparr>next_addr := Suc (next_addr h)\<rparr>)" for b
    using g by (simp add: malloc_def Let_def)
  moreover have "rd p (2 + 0 * 2) = Inr (p ! 2)" "rd p (2 + 0 * 2 + 1) = Inr (p ! 3)"
    using len by simp_all
  ultimately show ?thesis
    by (simp only: OBDIIDecodeDTCs_def Let_def num simp_thms if_False split_conv write_dtcs.simps
        with_bytes_def obind_Inr write_dtc_def dtc_characters option.case) (simp add: write_byte_def)
qed

section \<open>The VIN\<close>

abbreviation no_nul :: "byte list \<Rightarrow> byte list" where
  "no_nul \<equiv> takeWhile (\<lambda>c. c \<noteq> 0)"

lemma no_nul_replicate: "no_nul (xs @ replicate k 0) = no_nul xs"
  by (induction xs) (cases k, simp_all)

lemma takeWhile_take: "takeWhile P (take n xs) = take n (takeWhile P xs)"
  by (induction xs arbitrary: n) (auto simp: take_Cons split: nat.splits)

lemma strncpy_in_range:
  assumes "n \<le> length src"
  shows "\<exists>bs. strncpy_bytes src n = Inr bs \<and> length bs = n \<and> no_nul bs = no_nul (take n src)"
proof (cases "n \<le> length (no_nul src)")
  case True
  then show ?thesis by (simp add: strncpy_bytes_def takeWhile_take)
next
  case False
  then show ?thesis using assms
    by (simp add: strncpy_bytes_def Let_def no_nul_replicate takeWhile_take)
qed

lemma c_string_block: "c_string (map Some bs @ [Some 0]) = Inr (no_nul bs)"
  by (induction bs) simp_all

lemma decode_vin_granted:
  assumes len: "2 \<le> len" "len \<le> int (length p)" "len < 2 ^ 31" and g: "grants h (next_addr h)"
  shows "\<exists>bs. OBDIIDecodeVIN r p len h = Inr (r\<lparr>r_value := StringValue (Some (next_addr h))\<rparr>,
      h\<lparr>blocks := (blocks h)(next_addr h := Some (ByteBlock (map Some bs @ [Some 0]))),
        next_addr := Suc (next_addr h)\<rparr>)
    \<and> c_string (map Some bs @ [Some 0]) = Inr (no_nul (take (nat len - 2) (drop 2 p)))"
proof -
  let ?x = "next_addr h" and ?n = "nat len - 2"
  have sz: "size_t (len - 2 + 1) = Suc ?n" "size_t (len - 2) = ?n" "nat (len - 2) = ?n"
    using len by (simp_all add: size_t_def nat_diff_distrib Suc_nat_eq_nat_zadd1)
  have "?n \<le> length (drop 2 p)" using len by simp
  from strncpy_in_range [OF this] obtain bs where bs: "strncpy_bytes (drop 2 p) ?n = Inr bs"
    "length bs = ?n" "no_nul bs = no_nul (take ?n (drop 2 p))" by blast
  let ?h = "\<lambda>b. h\<lparr>blocks := (blocks h)(?x := Some (ByteBlock b)), next_addr := Suc ?x\<rparr>"
  have m: "malloc (ByteBlock (replicate (Suc ?n) None)) h = (Some ?x, ?h (replicate (Suc ?n) None))"
    using g by (simp add: malloc_def Let_def)
  have d: "drop ?n (replicate (Suc ?n) None) = [None :: byte option]"
    by (subst drop_replicate) simp
  have w1: "write_bytes (Some ?x) 0 bs (?h (replicate (Suc ?n) None)) = Inr (?h (map Some bs @ [None]))"
    using bs(2) by (subst write_bytes_in_block [where bs = "replicate (Suc ?n) None"]) (simp_all add: d del: drop_replicate replicate_Suc)
  have w2: "write_byte (Some ?x) ?n 0 (?h (map Some bs @ [None])) = Inr (?h (map Some bs @ [Some 0]))"
    using bs(2) by (subst write_byte_in_block [where bs = "map Some bs @ [None]"]) (simp_all add: list_update_append)
  have "OBDIIDecodeVIN r p len h = Inr (r\<lparr>r_value := StringValue (Some ?x)\<rparr>, ?h (map Some bs @ [Some 0]))"
  proof -
    have "2 \<le> length p" "0 \<le> len - 2" using len by simp_all
    then show ?thesis
      by (simp only: OBDIIDecodeVIN_def Let_def sz m bs(1) w1 w2 split_conv if_True if_False
          option.distinct obind_Inr)
  qed
  with bs(3) show ?thesis by (auto simp: c_string_block)
qed

lemma decode_vin_no_memory:
  "\<not> grants h (next_addr h) \<Longrightarrow>
     OBDIIDecodeVIN r p len h = Inr (r\<lparr>r_value := StringValue None\<rparr>, h\<lparr>next_addr := Suc (next_addr h)\<rparr>)"
  by (simp add: OBDIIDecodeVIN_def Let_def malloc_def)

lemma word_bits_split:
  "(push_bit 24 a OR push_bit 16 b OR push_bit 8 c OR d :: u32) = push_bit 16 (push_bit 8 a OR b) OR (push_bit 8 c OR d)"
  by (rule bit_word_eqI) (auto simp add: bit_simps)

lemma be_word_2: "(push_bit 8 (ucast a) OR ucast b :: u32) = be_word [a, b]"
  unfolding be16_word by simp

lemma be_word_4:
  "(push_bit 24 (ucast a) OR push_bit 16 (ucast b) OR push_bit 8 (ucast c) OR ucast d :: u32) = be_word [a, b, c, d]"
proof -
  have disj: "push_bit 16 u OR be_word [c, d] = push_bit 16 u + be_word [c, d]" for u
    unfolding be_word_2 [symmetric]
    by (rule disjunctive_add [symmetric]) (auto simp: bit_simps dest!: bit_imp_le_length)
  show ?thesis
    unfolding word_bits_split unfolding be_word_2 disj
    by (simp add: push_bit_eq_mult algebra_simps)
qed

lemma flags_Bitfield: "flags OBDIIDecodeBitfield 6 (\<lambda>p. be_word [p ! 2, p ! 3, p ! 4, p ! 5])"
  unfolding flags_def by (simp add: OBDIIDecodeBitfield_def with_bytes_def put_bitfield_def be_word_4 del: be_word.simps)

lemma flags_TwoByteBitfield: "flags OBDIIDecodeTwoByteBitfield 4 (\<lambda>p. be_word [p ! 2, p ! 3])"
  unfolding flags_def by (simp add: OBDIIDecodeTwoByteBitfield_def with_bytes_def put_bitfield_def be_word_2 del: be_word.simps)

lemma flags_SingleByteBitfield: "flags OBDIIDecodeSingleByteBitfield 3 (\<lambda>p. be_word [p ! 2])"
  unfolding flags_def by (simp add: OBDIIDecodeSingleByteBitfield_def with_byte_def put_bitfield_def)

end
