(* ===== verification/Commands.thy ===== *)
theory Commands
  imports Decoder_Facts
begin

text \<open>
  The command objects of \<open>src/OBDII.c\<close>: the tables for modes 1 and 9, the mode 3 command, the
  structure \<open>OBDIICommands\<close> that names them, and the dereferencing of a pointer to a command.
\<close>

section \<open>OBDIICommand\<close>

definition VARIABLE_RESPONSE_LENGTH :: int where
  "VARIABLE_RESPONSE_LENGTH = 0"

text \<open>A decoder that is a null pointer is \<open>None\<close>; the two payload bytes are a list.\<close>

record OBDIICommand =
  c_name :: string
  c_payload :: "byte list"
  c_responseType :: OBDIIResponseType
  c_expectedResponseLength :: int
  c_responseDecoder :: "decoder option"

definition OBDIICommandGetMode :: "OBDIICommand \<Rightarrow> byte" where
  "OBDIICommandGetMode c = c_payload c ! 0"

definition OBDIICommandGetPID :: "OBDIICommand \<Rightarrow> byte" where
  "OBDIICommandGetPID c = c_payload c ! 1"

text \<open>The dashes in some names, in UTF-8.\<close>

definition em_dash :: string where "em_dash = [CHR 0xE2, CHR 0x80, CHR 0x94]"
definition en_dash :: string where "en_dash = [CHR 0xE2, CHR 0x80, CHR 0x93]"

section \<open>The tables\<close>

definition OBDIIMode1Commands :: "OBDIICommand list" where
  "OBDIIMode1Commands = [
    \<lparr>c_name = ''Supported PIDs in the range 01 - 20'', c_payload = [0x01, 0x00],
      c_responseType = OBDIIResponseTypeBitfield, c_expectedResponseLength = 6,
      c_responseDecoder = Some OBDIIDecodeBitfield\<rparr>,
    \<lparr>c_name = ''Monitor status since DTCs cleared'', c_payload = [0x01, 0x01],
      c_responseType = OBDIIResponseTypeBitfield, c_expectedResponseLength = 6,
      c_responseDecoder = Some OBDIIDecodeBitfield\<rparr>,
    \<lparr>c_name = ''Freeze DTC'', c_payload = [0x01, 0x02],
      c_responseType = OBDIIResponseTypeOther, c_expectedResponseLength = 4,
      c_responseDecoder = Some OBDIIDecodeNop\<rparr>,
    \<lparr>c_name = ''Fuel system status'', c_payload = [0x01, 0x03],
      c_responseType = OBDIIResponseTypeBitfield, c_expectedResponseLength = 4,
      c_responseDecoder = Some OBDIIDecodeTwoByteBitfield\<rparr>,
    \<lparr>c_name = ''Calculated engine load'', c_payload = [0x01, 0x04],
      c_responseType = OBDIIResponseTypeNumeric, c_expectedResponseLength = 3,
      c_responseDecoder = Some OBDIIDecodePercentage\<rparr>,
    \<lparr>c_name = ''Engine coolant temperature'', c_payload = [0x01, 0x05],
      c_responseType = OBDIIResponseTypeNumeric, c_expectedResponseLength = 3,
      c_responseDecoder = Some OBDIIDecodeTemperature\<rparr>,
    \<lparr>c_name = (''Short term fuel trim'' @ em_dash @ ''Bank 1''), c_payload = [0x01, 0x06],
      c_responseType = OBDIIResponseTypeNumeric, c_expectedResponseLength = 3,
      c_responseDecoder = Some OBDIIDecodeFuelTrim\<rparr>,
    \<lparr>c_name = (''Long term fuel trim'' @ em_dash @ ''Bank 1''), c_payload = [0x01, 0x07],
      c_responseType = OBDIIResponseTypeNumeric, c_expectedResponseLength = 3,
      c_responseDecoder = Some OBDIIDecodeFuelTrim\<rparr>,
    \<lparr>c_name = (''Short term fuel trim'' @ em_dash @ ''Bank 2''), c_payload = [0x01, 0x08],
      c_responseType = OBDIIResponseTypeNumeric, c_expectedResponseLength = 3,
      c_responseDecoder = Some OBDIIDecodeFuelTrim\<rparr>,
    \<lparr>c_name = (''Long term fuel trim'' @ em_dash @ ''Bank 2''), c_payload = [0x01, 0x09],
      c_responseType = OBDIIResponseTypeNumeric, c_expectedResponseLength = 3,
      c_responseDecoder = Some OBDIIDecodeFuelTrim\<rparr>,
    \<lparr>c_name = ''Fuel pressure (gauge pressure)'', c_payload = [0x01, 0x0A],
      c_responseType = OBDIIResponseTypeNumeric, c_expectedResponseLength = 3,
      c_responseDecoder = Some OBDIIDecodeFuelPressure\<rparr>,
    \<lparr>c_name = ''Intake manifold absolute pressure'', c_payload = [0x01, 0x0B],
      c_responseType = OBDIIResponseTypeNumeric, c_expectedResponseLength = 3,
      c_responseDecoder = Some OBDIIDecodeUInt8\<rparr>,
    \<lparr>c_name = ''Engine RPM'', c_payload = [0x01, 0x0C],
      c_responseType = OBDIIResponseTypeNumeric, c_expectedResponseLength = 4,
      c_responseDecoder = Some OBDIIDecodeEngineRPMs\<rparr>,
    \<lparr>c_name = ''Vehicle speed'', c_payload = [0x01, 0x0D],
      c_responseType = OBDIIResponseTypeNumeric, c_expectedResponseLength = 3,
      c_responseDecoder = Some OBDIIDecodeUInt8\<rparr>,
    \<lparr>c_name = ''Timing advance'', c_payload = [0x01, 0x0E],
      c_responseType = OBDIIResponseTypeNumeric, c_expectedResponseLength = 3,
      c_responseDecoder = Some OBDIIDecodeTimingAdvance\<rparr>,
    \<lparr>c_name = ''Intake air temperature'', c_payload = [0x01, 0x0F],
      c_responseType = OBDIIResponseTypeNumeric, c_expectedResponseLength = 3,
      c_responseDecoder = Some OBDIIDecodeTemperature\<rparr>,
    \<lparr>c_name = ''MAF air flow rate'', c_payload = [0x01, 0x10],
      c_responseType = OBDIIResponseTypeNumeric, c_expectedResponseLength = 4,
      c_responseDecoder = Some OBDIIDecodeMAFAirFlowRate\<rparr>,
    \<lparr>c_name = ''Throttle position'', c_payload = [0x01, 0x11],
      c_responseType = OBDIIResponseTypeNumeric, c_expectedResponseLength = 3,
      c_responseDecoder = Some OBDIIDecodeThrottlePosition\<rparr>,
    \<lparr>c_name = ''Commanded secondary air status'', c_payload = [0x01, 0x12],
      c_responseType = OBDIIResponseTypeBitfield, c_expectedResponseLength = 3,
      c_responseDecoder = Some OBDIIDecodeSingleByteBitfield\<rparr>,
    \<lparr>c_name = ''Oxygen sensors present'', c_payload = [0x01, 0x13],
      c_responseType = OBDIIResponseTypeBitfield, c_expectedResponseLength = 3,
      c_responseDecoder = Some OBDIIDecodeSingleByteBitfield\<rparr>,
    \<lparr>c_name = ''Oxygen sensor 1'', c_payload = [0x01, 0x14],
      c_responseType = OBDIIResponseTypeOther, c_expectedResponseLength = 4,
      c_responseDecoder = Some OBDIIDecodeOxygenSensorValues\<rparr>,
    \<lparr>c_name = ''Oxygen sensor 2'', c_payload = [0x01, 0x15],
      c_responseType = OBDIIResponseTypeOther, c_expectedResponseLength = 4,
      c_responseDecoder = Some OBDIIDecodeOxygenSensorValues\<rparr>,
    \<lparr>c_name = ''Oxygen sensor 3'', c_payload = [0x01, 0x16],
      c_responseType = OBDIIResponseTypeOther, c_expectedResponseLength = 4,
      c_responseDecoder = Some OBDIIDecodeOxygenSensorValues\<rparr>,
    \<lparr>c_name = ''Oxygen sensor 4'', c_payload = [0x01, 0x17],
      c_responseType = OBDIIResponseTypeOther, c_expectedResponseLength = 4,
      c_responseDecoder = Some OBDIIDecodeOxygenSensorValues\<rparr>,
    \<lparr>c_name = ''Oxygen sensor 5'', c_payload = [0x01, 0x18],
      c_responseType = OBDIIResponseTypeOther, c_expectedResponseLength = 4,
      c_responseDecoder = Some OBDIIDecodeOxygenSensorValues\<rparr>,
    \<lparr>c_name = ''Oxygen sensor 6'', c_payload = [0x01, 0x19],
      c_responseType = OBDIIResponseTypeOther, c_expectedResponseLength = 4,
      c_responseDecoder = Some OBDIIDecodeOxygenSensorValues\<rparr>,
    \<lparr>c_name = ''Oxygen sensor 7'', c_payload = [0x01, 0x1A],
      c_responseType = OBDIIResponseTypeOther, c_expectedResponseLength = 4,
      c_responseDecoder = Some OBDIIDecodeOxygenSensorValues\<rparr>,
    \<lparr>c_name = ''Oxygen sensor 8'', c_payload = [0x01, 0x1B],
      c_responseType = OBDIIResponseTypeOther, c_expectedResponseLength = 4,
      c_responseDecoder = Some OBDIIDecodeOxygenSensorValues\<rparr>,
    \<lparr>c_name = ''OBD standards this vehicle conforms to'', c_payload = [0x01, 0x1C],
      c_responseType = OBDIIResponseTypeBitfield, c_expectedResponseLength = 3,
      c_responseDecoder = Some OBDIIDecodeSingleByteBitfield\<rparr>,
    \<lparr>c_name = ''Oxygen sensors present in 4 banks'', c_payload = [0x01, 0x1D],
      c_responseType = OBDIIResponseTypeBitfield, c_expectedResponseLength = 3,
      c_responseDecoder = Some OBDIIDecodeSingleByteBitfield\<rparr>,
    \<lparr>c_name = ''Auxiliary input status'', c_payload = [0x01, 0x1E],
      c_responseType = OBDIIResponseTypeBitfield, c_expectedResponseLength = 3,
      c_responseDecoder = Some OBDIIDecodeSingleByteBitfield\<rparr>,
    \<lparr>c_name = ''Run time since engine start'', c_payload = [0x01, 0x1F],
      c_responseType = OBDIIResponseTypeNumeric, c_expectedResponseLength = 4,
      c_responseDecoder = Some OBDIIDecodeUInt16\<rparr>,
    \<lparr>c_name = ''Supported PIDs in the range 21 - 40'', c_payload = [0x01, 0x20],
      c_responseType = OBDIIResponseTypeBitfield, c_expectedResponseLength = 6,
      c_responseDecoder = Some OBDIIDecodeBitfield\<rparr>,
    \<lparr>c_name = ''Distance traveled with malfunction indicator lamp on'', c_payload = [0x01, 0x21],
      c_responseType = OBDIIResponseTypeNumeric, c_expectedResponseLength = 4,
      c_responseDecoder = Some OBDIIDecodeUInt16\<rparr>,
    \<lparr>c_name = ''Fuel rail pressure (relative to mainfold vacuum'', c_payload = [0x01, 0x22],
      c_responseType = OBDIIResponseTypeNumeric, c_expectedResponseLength = 4,
      c_responseDecoder = Some OBDIIDecodeFuelRailPressure\<rparr>,
    \<lparr>c_name = ''Fuel rail gauge pressure (diesel, or gasoline direct injection'', c_payload = [0x01, 0x23],
      c_responseType = OBDIIResponseTypeNumeric, c_expectedResponseLength = 4,
      c_responseDecoder = Some OBDIIDecodeFuelRailGaugePressure\<rparr>,
    \<lparr>c_name = ''Oxygen sensor 1'', c_payload = [0x01, 0x24],
      c_responseType = OBDIIResponseTypeOther, c_expectedResponseLength = 6,
      c_responseDecoder = Some OBDIIDecodeOxygenSensorValues2\<rparr>,
    \<lparr>c_name = ''Oxygen sensor 2'', c_payload = [0x01, 0x25],
      c_responseType = OBDIIResponseTypeOther, c_expectedResponseLength = 6,
      c_responseDecoder = Some OBDIIDecodeOxygenSensorValues2\<rparr>,
    \<lparr>c_name = ''Oxygen sensor 3'', c_payload = [0x01, 0x26],
      c_responseType = OBDIIResponseTypeOther, c_expectedResponseLength = 6,
      c_responseDecoder = Some OBDIIDecodeOxygenSensorValues2\<rparr>,
    \<lparr>c_name = ''Oxygen sensor 4'', c_payload = [0x01, 0x27],
      c_responseType = OBDIIResponseTypeOther, c_expectedResponseLength = 6,
      c_responseDecoder = Some OBDIIDecodeOxygenSensorValues2\<rparr>,
    \<lparr>c_name = ''Oxygen sensor 5'', c_payload = [0x01, 0x28],
      c_responseType = OBDIIResponseTypeOther, c_expectedResponseLength = 6,
      c_responseDecoder = Some OBDIIDecodeOxygenSensorValues2\<rparr>,
    \<lparr>c_name = ''Oxygen sensor 6'', c_payload = [0x01, 0x29],
      c_responseType = OBDIIResponseTypeOther, c_expectedResponseLength = 6,
      c_responseDecoder = Some OBDIIDecodeOxygenSensorValues2\<rparr>,
    \<lparr>c_name = ''Oxygen sensor 7'', c_payload = [0x01, 0x2A],
      c_responseType = OBDIIResponseTypeOther, c_expectedResponseLength = 6,
      c_responseDecoder = Some OBDIIDecodeOxygenSensorValues2\<rparr>,
    \<lparr>c_name = ''Oxygen sensor 8'', c_payload = [0x01, 0x2B],
      c_responseType = OBDIIResponseTypeOther, c_expectedResponseLength = 6,
      c_responseDecoder = Some OBDIIDecodeOxygenSensorValues2\<rparr>,
    \<lparr>c_name = ''Commanded EGR'', c_payload = [0x01, 0x2C],
      c_responseType = OBDIIResponseTypeNumeric, c_expectedResponseLength = 3,
      c_responseDecoder = Some OBDIIDecodePercentage\<rparr>,
    \<lparr>c_name = ''EGR error'', c_payload = [0x01, 0x2D],
      c_responseType = OBDIIResponseTypeNumeric, c_expectedResponseLength = 3,
      c_responseDecoder = Some OBDIIDecodeEGRError\<rparr>,
    \<lparr>c_name = ''Commanded evaporative purge'', c_payload = [0x01, 0x2E],
      c_responseType = OBDIIResponseTypeNumeric, c_expectedResponseLength = 3,
      c_responseDecoder = Some OBDIIDecodePercentage\<rparr>,
    \<lparr>c_name = ''Fuel tank level input'', c_payload = [0x01, 0x2F],
      c_responseType = OBDIIResponseTypeNumeric, c_expectedResponseLength = 3,
      c_responseDecoder = Some OBDIIDecodePercentage\<rparr>,
    \<lparr>c_name = ''Warm-ups since codes cleared'', c_payload = [0x01, 0x30],
      c_responseType = OBDIIResponseTypeNumeric, c_expectedResponseLength = 3,
      c_responseDecoder = Some OBDIIDecodeUInt8\<rparr>,
    \<lparr>c_name = ''Distance traveled since codes cleared'', c_payload = [0x01, 0x31],
      c_responseType = OBDIIResponseTypeNumeric, c_expectedResponseLength = 4,
      c_responseDecoder = Some OBDIIDecodeUInt16\<rparr>,
    \<lparr>c_name = ''Evaporative system vapor pressure'', c_payload = [0x01, 0x32],
      c_responseType = OBDIIResponseTypeNumeric, c_expectedResponseLength = 4,
      c_responseDecoder = Some OBDIIDecodeVaporPressure\<rparr>,
    \<lparr>c_name = ''Absolute barometric pressure'', c_payload = [0x01, 0x33],
      c_responseType = OBDIIResponseTypeNumeric, c_expectedResponseLength = 3,
      c_responseDecoder = Some OBDIIDecodeUInt8\<rparr>,
    \<lparr>c_name = ''Oxygen sensor 1'', c_payload = [0x01, 0x34],
      c_responseType = OBDIIResponseTypeOther, c_expectedResponseLength = 6,
      c_responseDecoder = Some OBDIIDecodeOxygenSensorValues3\<rparr>,
    \<lparr>c_name = ''Oxygen sensor 2'', c_payload = [0x01, 0x35],
      c_responseType = OBDIIResponseTypeOther, c_expectedResponseLength = 6,
      c_responseDecoder = Some OBDIIDecodeOxygenSensorValues3\<rparr>,
    \<lparr>c_name = ''Oxygen sensor 3'', c_payload = [0x01, 0x36],
      c_responseType = OBDIIResponseTypeOther, c_expectedResponseLength = 6,
      c_responseDecoder = Some OBDIIDecodeOxygenSensorValues3\<rparr>,
    \<lparr>c_name = ''Oxygen sensor 4'', c_payload = [0x01, 0x37],
      c_responseType = OBDIIResponseTypeOther, c_expectedResponseLength = 6,
      c_responseDecoder = Some OBDIIDecodeOxygenSensorValues3\<rparr>,
    \<lparr>c_name = ''Oxygen sensor 5'', c_payload = [0x01, 0x38],
      c_responseType = OBDIIResponseTypeOther, c_expectedResponseLength = 6,
      c_responseDecoder = Some OBDIIDecodeOxygenSensorValues3\<rparr>,
    \<lparr>c_name = ''Oxygen sensor 6'', c_payload = [0x01, 0x39],
      c_responseType = OBDIIResponseTypeOther, c_expectedResponseLength = 6,
      c_responseDecoder = Some OBDIIDecodeOxygenSensorValues3\<rparr>,
    \<lparr>c_name = ''Oxygen sensor 7'', c_payload = [0x01, 0x3A],
      c_responseType = OBDIIResponseTypeOther, c_expectedResponseLength = 6,
      c_responseDecoder = Some OBDIIDecodeOxygenSensorValues3\<rparr>,
    \<lparr>c_name = ''Oxygen sensor 8'', c_payload = [0x01, 0x3B],
      c_responseType = OBDIIResponseTypeOther, c_expectedResponseLength = 6,
      c_responseDecoder = Some OBDIIDecodeOxygenSensorValues3\<rparr>,
    \<lparr>c_name = ''Catalyst temperature, bank 1, sensor 1'', c_payload = [0x01, 0x3C],
      c_responseType = OBDIIResponseTypeNumeric, c_expectedResponseLength = 4,
      c_responseDecoder = Some OBDIIDecodeCatalystTemperature\<rparr>,
    \<lparr>c_name = ''Catalyst temperature, bank 2, sensor 1'', c_payload = [0x01, 0x3D],
      c_responseType = OBDIIResponseTypeNumeric, c_expectedResponseLength = 4,
      c_responseDecoder = Some OBDIIDecodeCatalystTemperature\<rparr>,
    \<lparr>c_name = ''Catalyst temperature, bank 1, sensor 2'', c_payload = [0x01, 0x3E],
      c_responseType = OBDIIResponseTypeNumeric, c_expectedResponseLength = 4,
      c_responseDecoder = Some OBDIIDecodeCatalystTemperature\<rparr>,
    \<lparr>c_name = ''Catalyst temperature, bank 2, sensor 2'', c_payload = [0x01, 0x3F],
      c_responseType = OBDIIResponseTypeNumeric, c_expectedResponseLength = 4,
      c_responseDecoder = Some OBDIIDecodeCatalystTemperature\<rparr>,
    \<lparr>c_name = ''Supported PIDs in the range 41 - 60'', c_payload = [0x01, 0x40],
      c_responseType = OBDIIResponseTypeBitfield, c_expectedResponseLength = 6,
      c_responseDecoder = Some OBDIIDecodeBitfield\<rparr>,
    \<lparr>c_name = ''Monitor status this drive cycle'', c_payload = [0x01, 0x41],
      c_responseType = OBDIIResponseTypeBitfield, c_expectedResponseLength = 6,
      c_responseDecoder = Some OBDIIDecodeBitfield\<rparr>,
    \<lparr>c_name = ''Control module voltage'', c_payload = [0x01, 0x42],
      c_responseType = OBDIIResponseTypeNumeric, c_expectedResponseLength = 4,
      c_responseDecoder = Some OBDIIDecodeControlModuleVoltage\<rparr>,
    \<lparr>c_name = ''Absolute load value'', c_payload = [0x01, 0x43],
      c_responseType = OBDIIResponseTypeNumeric, c_expectedResponseLength = 4,
      c_responseDecoder = Some OBDIIDecodeAbsoluteLoadValue\<rparr>,
    \<lparr>c_name = (''Fuel'' @ en_dash @ ''Air commanded equivalence ratio''), c_payload = [0x01, 0x44],
      c_responseType = OBDIIResponseTypeNumeric, c_expectedResponseLength = 4,
      c_responseDecoder = Some OBDIIDecodeFuelAirEquivalence\<rparr>,
    \<lparr>c_name = ''Relative throttle position'', c_payload = [0x01, 0x45],
      c_responseType = OBDIIResponseTypeNumeric, c_expectedResponseLength = 3,
      c_responseDecoder = Some OBDIIDecodePercentage\<rparr>,
    \<lparr>c_name = ''Ambient air temperature'', c_payload = [0x01, 0x46],
      c_responseType = OBDIIResponseTypeNumeric, c_expectedResponseLength = 3,
      c_responseDecoder = Some OBDIIDecodeTemperature\<rparr>,
    \<lparr>c_name = ''Absolute throttle position B'', c_payload = [0x01, 0x47],
      c_responseType = OBDIIResponseTypeNumeric, c_expectedResponseLength = 3,
      c_responseDecoder = Some OBDIIDecodePercentage\<rparr>,
    \<lparr>c_name = ''Absolute throttle position C'', c_payload = [0x01, 0x48],
      c_responseType = OBDIIResponseTypeNumeric, c_expectedResponseLength = 3,
      c_responseDecoder = Some OBDIIDecodePercentage\<rparr>,
    \<lparr>c_name = ''Accelerator pedal position D'', c_payload = [0x01, 0x49],
      c_responseType = OBDIIResponseTypeNumeric, c_expectedResponseLength = 3,
      c_responseDecoder = Some OBDIIDecodePercentage\<rparr>,
    \<lparr>c_name = ''Accelerator pedal position E'', c_payload = [0x01, 0x4A],
      c_responseType = OBDIIResponseTypeNumeric, c_expectedResponseLength = 3,
      c_responseDecoder = Some OBDIIDecodePercentage\<rparr>,
    \<lparr>c_name = ''Accelerator pedal position F'', c_payload = [0x01, 0x4B],
      c_responseType = OBDIIResponseTypeNumeric, c_expectedResponseLength = 3,
      c_responseDecoder = Some OBDIIDecodePercentage\<rparr>,
    \<lparr>c_name = ''Commanded throttle actuator'', c_payload = [0x01, 0x4C],
      c_responseType = OBDIIResponseTypeNumeric, c_expectedResponseLength = 3,
      c_responseDecoder = Some OBDIIDecodePercentage\<rparr>,
    \<lparr>c_name = ''Time run with MIL on'', c_payload = [0x01, 0x4D],
      c_responseType = OBDIIResponseTypeNumeric, c_expectedResponseLength = 4,
      c_responseDecoder = Some OBDIIDecodeUInt16\<rparr>,
    \<lparr>c_name = ''Time since trouble codes cleared'', c_payload = [0x01, 0x4E],
      c_responseType = OBDIIResponseTypeNumeric, c_expectedResponseLength = 4,
      c_responseDecoder = Some OBDIIDecodeUInt16\<rparr>]"

definition OBDIIMode3Command :: OBDIICommand where
  "OBDIIMode3Command =
    \<lparr>c_name = ''Get DTCs'', c_payload = [0x03, 0x00],
      c_responseType = OBDIIResponseTypeOther, c_expectedResponseLength = VARIABLE_RESPONSE_LENGTH,
      c_responseDecoder = Some OBDIIDecodeDTCs\<rparr>"

definition OBDIIMode9Commands :: "OBDIICommand list" where
  "OBDIIMode9Commands = [
    \<lparr>c_name = ''Supported PIDs'', c_payload = [0x09, 0x00],
      c_responseType = OBDIIResponseTypeBitfield, c_expectedResponseLength = 6,
      c_responseDecoder = Some OBDIIDecodeBitfield\<rparr>,
    \<lparr>c_name = ''VIN message count'', c_payload = [0x09, 0x01],
      c_responseType = OBDIIResponseTypeNumeric, c_expectedResponseLength = 3,
      c_responseDecoder = None\<rparr>,
    \<lparr>c_name = ''Get VIN'', c_payload = [0x09, 0x02],
      c_responseType = OBDIIResponseTypeString, c_expectedResponseLength = VARIABLE_RESPONSE_LENGTH,
      c_responseDecoder = Some OBDIIDecodeVIN\<rparr>]"

text \<open>Following a pointer to a command.\<close>

fun deref :: "command_ref \<Rightarrow> OBDIICommand outcome" where
  "deref (Mode1Command i) = (if i < length OBDIIMode1Commands then Inr (OBDIIMode1Commands ! i) else Inl OutOfBounds)"
| "deref Mode3Command = Inr OBDIIMode3Command"
| "deref (Mode9Command i) = (if i < length OBDIIMode9Commands then Inr (OBDIIMode9Commands ! i) else Inl OutOfBounds)"

section \<open>The structure of named commands\<close>

text \<open>Each member is a pointer to a command.\<close>

record OBDIICommands_struct =
  mode1SupportedPIDs_1_to_20 :: "command_ref option"
  monitorStatus :: "command_ref option"
  freezeDTC :: "command_ref option"
  fuelSystemStatus :: "command_ref option"
  calculatedEngineLoad :: "command_ref option"
  engineCoolantTemperature :: "command_ref option"
  bank1ShortTermFuelTrim :: "command_ref option"
  bank1LongTermFueldTrim :: "command_ref option"
  bank2ShortTermFuelTrim :: "command_ref option"
  bank2LongTermFuelTrim :: "command_ref option"
  fuelPressure :: "command_ref option"
  intakeManifoldAbsolutePressure :: "command_ref option"
  engineRPMs :: "command_ref option"
  vehicleSpeed :: "command_ref option"
  timingAdvance :: "command_ref option"
  intakeAirTemperature :: "command_ref option"
  mafAirFlowRate :: "command_ref option"
  throttlePosition :: "command_ref option"
  commandedSecondaryAirStatus :: "command_ref option"
  oxygenSensorsPresentIn2Banks :: "command_ref option"
  oxygenSensor1_fuelTrim :: "command_ref option"
  oxygenSensor2_fuelTrim :: "command_ref option"
  oxygenSensor3_fuelTrim :: "command_ref option"
  oxygenSensor4_fuelTrim :: "command_ref option"
  oxygenSensor5_fuelTrim :: "command_ref option"
  oxygenSensor6_fuelTrim :: "command_ref option"
  oxygenSensor7_fuelTrim :: "command_ref option"
  oxygenSensor8_fuelTrim :: "command_ref option"
  conformingStandards :: "command_ref option"
  oxygenSensorsPresentIn4Banks :: "command_ref option"
  auxiliaryInputStatus :: "command_ref option"
  runtimeSinceEngineStart :: "command_ref option"
  mode1SupportedPIDs_21_to_40 :: "command_ref option"
  distanceTraveledWithMalfunctionIndicatorLampOn :: "command_ref option"
  fuelRailPressure :: "command_ref option"
  fuelRailGaugePressure :: "command_ref option"
  oxygenSensor1_fuelAirRatioVoltage :: "command_ref option"
  oxygenSensor2_fuelAirRatioVoltage :: "command_ref option"
  oxygenSensor3_fuelAirRatioVoltage :: "command_ref option"
  oxygenSensor4_fuelAirRatioVoltage :: "command_ref option"
  oxygenSensor5_fuelAirRatioVoltage :: "command_ref option"
  oxygenSensor6_fuelAirRatioVoltage :: "command_ref option"
  oxygenSensor7_fuelAirRatioVoltage :: "command_ref option"
  oxygenSensor8_fuelAirRatioVoltage :: "command_ref option"
  commandedEGR :: "command_ref option"
  egrError :: "command_ref option"
  commandedEvaporativePurge :: "command_ref option"
  fuelTankLevelInput :: "command_ref option"
  warmUpsSinceCodesCleared :: "command_ref option"
  distanceTraveledSinceCodesCleared :: "command_ref option"
  evaporativeSystemVaporPressure :: "command_ref option"
  absoluteBarometricPressure :: "command_ref option"
  oxygenSensor1_fuelAirRatioCurrent :: "command_ref option"
  oxygenSensor2_fuelAirRatioCurrent :: "command_ref option"
  oxygenSensor3_fuelAirRatioCurrent :: "command_ref option"
  oxygenSensor4_fuelAirRatioCurrent :: "command_ref option"
  oxygenSensor5_fuelAirRatioCurrent :: "command_ref option"
  oxygenSensor6_fuelAirRatioCurrent :: "command_ref option"
  oxygenSensor7_fuelAirRatioCurrent :: "command_ref option"
  oxygenSensor8_fuelAirRatioCurrent :: "command_ref option"
  catalystTemperatureBank1Sensor1 :: "command_ref option"
  catalystTemperatureBank2Sensor1 :: "command_ref option"
  catalystTemperatureBank1Sensor2 :: "command_ref option"
  catalystTemperatureBank2Sensor2 :: "command_ref option"
  mode1SupportedPIDs_41_to_60 :: "command_ref option"
  currentDriveCycleMonitorStatus :: "command_ref option"
  controlModuleVoltage :: "command_ref option"
  absoluteLoadValue :: "command_ref option"
  fuelAirCommandEquivalenceRatio :: "command_ref option"
  relativeThrottlePosition :: "command_ref option"
  ambientAirTemperature :: "command_ref option"
  absoluteThrottlePositionB :: "command_ref option"
  absoluteThrottlePositionC :: "command_ref option"
  acceleratorPedalPositionD :: "command_ref option"
  acceleratorPedalPositionE :: "command_ref option"
  acceleratorPedalPositionF :: "command_ref option"
  commandedThrottleActuator :: "command_ref option"
  timeRunWithMalfunctionIndicatorLampOn :: "command_ref option"
  timeSinceTroubleCodesCleared :: "command_ref option"
  DTCs :: "command_ref option"
  mode9SupportedPIDs :: "command_ref option"
  vinMessageCount :: "command_ref option"
  VIN :: "command_ref option"
  ECUName :: "command_ref option"

text \<open>The initializer gives the members in order; the last one has none, which leaves it \<open>NULL\<close>.\<close>

definition OBDIICommands :: OBDIICommands_struct where
  "OBDIICommands = \<lparr>
    mode1SupportedPIDs_1_to_20 = Some (Mode1Command 0),
    monitorStatus = Some (Mode1Command 1),
    freezeDTC = Some (Mode1Command 2),
    fuelSystemStatus = Some (Mode1Command 3),
    calculatedEngineLoad = Some (Mode1Command 4),
    engineCoolantTemperature = Some (Mode1Command 5),
    bank1ShortTermFuelTrim = Some (Mode1Command 6),
    bank1LongTermFueldTrim = Some (Mode1Command 7),
    bank2ShortTermFuelTrim = Some (Mode1Command 8),
    bank2LongTermFuelTrim = Some (Mode1Command 9),
    fuelPressure = Some (Mode1Command 10),
    intakeManifoldAbsolutePressure = Some (Mode1Command 11),
    engineRPMs = Some (Mode1Command 12),
    vehicleSpeed = Some (Mode1Command 13),
    timingAdvance = Some (Mode1Command 14),
    intakeAirTemperature = Some (Mode1Command 15),
    mafAirFlowRate = Some (Mode1Command 16),
    throttlePosition = Some (Mode1Command 17),
    commandedSecondaryAirStatus = Some (Mode1Command 18),
    oxygenSensorsPresentIn2Banks = Some (Mode1Command 19),
    oxygenSensor1_fuelTrim = Some (Mode1Command 20),
    oxygenSensor2_fuelTrim = Some (Mode1Command 21),
    oxygenSensor3_fuelTrim = Some (Mode1Command 22),
    oxygenSensor4_fuelTrim = Some (Mode1Command 23),
    oxygenSensor5_fuelTrim = Some (Mode1Command 24),
    oxygenSensor6_fuelTrim = Some (Mode1Command 25),
    oxygenSensor7_fuelTrim = Some (Mode1Command 26),
    oxygenSensor8_fuelTrim = Some (Mode1Command 27),
    conformingStandards = Some (Mode1Command 28),
    oxygenSensorsPresentIn4Banks = Some (Mode1Command 29),
    auxiliaryInputStatus = Some (Mode1Command 30),
    runtimeSinceEngineStart = Some (Mode1Command 31),
    mode1SupportedPIDs_21_to_40 = Some (Mode1Command 32),
    distanceTraveledWithMalfunctionIndicatorLampOn = Some (Mode1Command 33),
    fuelRailPressure = Some (Mode1Command 34),
    fuelRailGaugePressure = Some (Mode1Command 35),
    oxygenSensor1_fuelAirRatioVoltage = Some (Mode1Command 36),
    oxygenSensor2_fuelAirRatioVoltage = Some (Mode1Command 37),
    oxygenSensor3_fuelAirRatioVoltage = Some (Mode1Command 38),
    oxygenSensor4_fuelAirRatioVoltage = Some (Mode1Command 39),
    oxygenSensor5_fuelAirRatioVoltage = Some (Mode1Command 40),
    oxygenSensor6_fuelAirRatioVoltage = Some (Mode1Command 41),
    oxygenSensor7_fuelAirRatioVoltage = Some (Mode1Command 42),
    oxygenSensor8_fuelAirRatioVoltage = Some (Mode1Command 43),
    commandedEGR = Some (Mode1Command 44),
    egrError = Some (Mode1Command 45),
    commandedEvaporativePurge = Some (Mode1Command 46),
    fuelTankLevelInput = Some (Mode1Command 47),
    warmUpsSinceCodesCleared = Some (Mode1Command 48),
    distanceTraveledSinceCodesCleared = Some (Mode1Command 49),
    evaporativeSystemVaporPressure = Some (Mode1Command 50),
    absoluteBarometricPressure = Some (Mode1Command 51),
    oxygenSensor1_fuelAirRatioCurrent = Some (Mode1Command 52),
    oxygenSensor2_fuelAirRatioCurrent = Some (Mode1Command 53),
    oxygenSensor3_fuelAirRatioCurrent = Some (Mode1Command 54),
    oxygenSensor4_fuelAirRatioCurrent = Some (Mode1Command 55),
    oxygenSensor5_fuelAirRatioCurrent = Some (Mode1Command 56),
    oxygenSensor6_fuelAirRatioCurrent = Some (Mode1Command 57),
    oxygenSensor7_fuelAirRatioCurrent = Some (Mode1Command 58),
    oxygenSensor8_fuelAirRatioCurrent = Some (Mode1Command 59),
    catalystTemperatureBank1Sensor1 = Some (Mode1Command 60),
    catalystTemperatureBank2Sensor1 = Some (Mode1Command 61),
    catalystTemperatureBank1Sensor2 = Some (Mode1Command 62),
    catalystTemperatureBank2Sensor2 = Some (Mode1Command 63),
    mode1SupportedPIDs_41_to_60 = Some (Mode1Command 64),
    currentDriveCycleMonitorStatus = Some (Mode1Command 65),
    controlModuleVoltage = Some (Mode1Command 66),
    absoluteLoadValue = Some (Mode1Command 67),
    fuelAirCommandEquivalenceRatio = Some (Mode1Command 68),
    relativeThrottlePosition = Some (Mode1Command 69),
    ambientAirTemperature = Some (Mode1Command 70),
    absoluteThrottlePositionB = Some (Mode1Command 71),
    absoluteThrottlePositionC = Some (Mode1Command 72),
    acceleratorPedalPositionD = Some (Mode1Command 73),
    acceleratorPedalPositionE = Some (Mode1Command 74),
    acceleratorPedalPositionF = Some (Mode1Command 75),
    commandedThrottleActuator = Some (Mode1Command 76),
    timeRunWithMalfunctionIndicatorLampOn = Some (Mode1Command 77),
    timeSinceTroubleCodesCleared = Some (Mode1Command 78),
    DTCs = Some Mode3Command,
    mode9SupportedPIDs = Some (Mode9Command 0),
    vinMessageCount = Some (Mode9Command 1),
    VIN = Some (Mode9Command 2),
    ECUName = None\<rparr>"

end
