(* ===== verification/Response.thy ===== *)
theory Response
  imports Commands
begin

text \<open>
  Recognising, decoding and freeing a response: \<open>OBDIIResponseSuccessful\<close>,
  \<open>OBDIIDecodeResponseForCommand\<close> and \<open>OBDIIResponseFree\<close> of \<open>src/OBDII.c\<close>. A pointer argument is
  an \<open>option\<close>; the payload buffer is the list of its bytes and \<open>len\<close> the length the caller claims.
\<close>

section \<open>The functions\<close>

definition OBDIIResponseSuccessful :: "OBDIICommand option \<Rightarrow> byte list option \<Rightarrow> int \<Rightarrow> int outcome" where
  "OBDIIResponseSuccessful command payload len = (case (command, payload) of
     (Some c, Some p) \<Rightarrow>
       if len \<le> 0 then Inr 0
       else if c_expectedResponseLength c \<noteq> VARIABLE_RESPONSE_LENGTH \<and> len \<noteq> c_expectedResponseLength c then Inr 0
       else let mode = sint (OBDIICommandGetMode c) in
         obind (rd p 0) (\<lambda>p0.
           if uint p0 \<noteq> mode + 0x40 then Inr 0
           else if mode = 0x01 \<or> mode = 0x09 then
             (if len < 2 then Inr 0
              else obind (rd p 1) (\<lambda>p1. if p1 \<noteq> c_payload c ! 1 then Inr 0 else Inr 1))
           else Inr 1)
   | _ \<Rightarrow> Inr 0)"

definition OBDIIDecodeResponseForCommand ::
  "command_ref option \<Rightarrow> byte list option \<Rightarrow> int \<Rightarrow> heap \<Rightarrow> (OBDIIResponse \<times> heap) outcome" where
  "OBDIIDecodeResponseForCommand command payload len h =
     (let response = zero_response\<lparr>r_command := command\<rparr> in
      case (command, payload) of
        (Some ref, Some p) \<Rightarrow>
          if len \<le> 0 then Inr (response, h)
          else obind (deref ref) (\<lambda>c.
            obind (OBDIIResponseSuccessful (Some c) payload len) (\<lambda>success.
              let response = response\<lparr>r_success := success\<rparr> in
              if success \<noteq> 0 then
                (case c_responseDecoder c of None \<Rightarrow> Inl NullCall
                 | Some decode \<Rightarrow> decode response p len h)
              else Inr (response, h)))
      | _ \<Rightarrow> Inr (response, h))"

text \<open>\<open>if (p != NULL) free(p)\<close> for a pointer read from the union.\<close>

definition free_member :: "addr option option \<Rightarrow> heap \<Rightarrow> heap outcome" where
  "free_member member h = (case member of None \<Rightarrow> Inl InactiveMember
     | Some None \<Rightarrow> Inr h | Some (Some a) \<Rightarrow> mfree a h)"

definition OBDIIResponseFree :: "OBDIIResponse option \<Rightarrow> heap \<Rightarrow> heap outcome" where
  "OBDIIResponseFree response h = (case response of None \<Rightarrow> Inr h
     | Some r \<Rightarrow>
         obind (if r_command r = DTCs OBDIICommands then free_member (troubleCodes (r_value r)) h else Inr h)
           (\<lambda>h. case r_command r of None \<Rightarrow> Inl NullDeref
              | Some ref \<Rightarrow> obind (deref ref) (\<lambda>c.
                  if c_responseType c = OBDIIResponseTypeString then free_member (stringValue (r_value r)) h
                  else Inr h)))"

section \<open>What a positive response looks like\<close>

text \<open>
  The specification of a response that is accepted for a command: the expected length where there is
  one, the mode plus \<open>0x40\<close>, and for modes 1 and 9 the echoed PID.
\<close>

definition answers :: "OBDIICommand \<Rightarrow> byte list \<Rightarrow> int \<Rightarrow> bool" where
  "answers c p len \<longleftrightarrow> 0 < len \<and>
     (c_expectedResponseLength c \<noteq> 0 \<longrightarrow> len = c_expectedResponseLength c) \<and>
     uint (p ! 0) = sint (OBDIICommandGetMode c) + 0x40 \<and>
     (sint (OBDIICommandGetMode c) \<in> {0x01, 0x09} \<longrightarrow> 2 \<le> len \<and> p ! 1 = OBDIICommandGetPID c)"

lemma successful_iff_answers:
  assumes "len \<le> int (length p)"
  shows "OBDIIResponseSuccessful (Some c) (Some p) len = Inr (if answers c p len then 1 else 0)"
proof (cases "0 < len")
  case True
  then have "0 < length p" using assms by linarith
  moreover have "\<not> len < 2 \<Longrightarrow> 1 < length p" using assms by simp
  ultimately show ?thesis using True
    by (auto simp: OBDIIResponseSuccessful_def answers_def VARIABLE_RESPONSE_LENGTH_def
        OBDIICommandGetPID_def Let_def)
qed (simp add: OBDIIResponseSuccessful_def answers_def)

lemma successful_null: "OBDIIResponseSuccessful None payload len = Inr 0"
  "OBDIIResponseSuccessful command None len = Inr 0"
  by (simp_all add: OBDIIResponseSuccessful_def split: option.splits)

text \<open>The decoder runs exactly on accepted responses; everything else leaves the zero response.\<close>

lemma decode_rejected:
  assumes "deref ref = Inr c" "len \<le> int (length p)" "\<not> answers c p len"
  shows "OBDIIDecodeResponseForCommand (Some ref) (Some p) len h =
    Inr (zero_response\<lparr>r_command := Some ref\<rparr>, h)"
  using assms(1,3)
  by (simp add: OBDIIDecodeResponseForCommand_def successful_iff_answers [OF assms(2)] zero_response_def Let_def)

lemma decode_accepted:
  assumes "deref ref = Inr c" "len \<le> int (length p)" "answers c p len" "c_responseDecoder c = Some d"
  shows "OBDIIDecodeResponseForCommand (Some ref) (Some p) len h =
    d (zero_response\<lparr>r_command := Some ref, r_success := 1\<rparr>) p len h"
proof -
  have "0 < len" using assms(3) by (simp add: answers_def)
  then show ?thesis using assms
    by (simp add: OBDIIDecodeResponseForCommand_def successful_iff_answers [OF assms(2)])
qed

lemma decode_null:
  "OBDIIDecodeResponseForCommand None payload len h = Inr (zero_response\<lparr>r_command := None\<rparr>, h)"
  "OBDIIDecodeResponseForCommand command None len h = Inr (zero_response\<lparr>r_command := command\<rparr>, h)"
  by (simp_all add: OBDIIDecodeResponseForCommand_def Let_def split: option.split)

end
