(* ===== verification/Command_Spec.thy ===== *)
theory Command_Spec
  imports Response
begin

text \<open>
  An independent description of what the response to each command means, in the order of the PIDs:
  how many bytes of flags, which scaled quantity, or which two oxygen sensor quantities. The command
  table meets it, entry by entry.
\<close>

named_theorems decoder_specs "each decoder against the meaning of its commands"

datatype meaning = Flags nat | Quantity scaling | Sensor scaling scaling | Undecoded nat

text \<open>Bytes a positive response needs: two of header, then the data.\<close>

fun field_end :: "raw_field \<Rightarrow> nat" where
  "field_end (U8 i) = i + 1"
| "field_end (U16 i) = i + 2"
| "field_end (S16 i) = i + 2"

fun payload_length :: "meaning \<Rightarrow> nat" where
  "payload_length (Flags k) = 2 + k"
| "payload_length (Quantity s) = field_end (field_of s)"
| "payload_length (Sensor s t) = max (field_end (field_of s)) (field_end (field_of t))"
| "payload_length (Undecoded n) = n"

fun meaning_type :: "meaning \<Rightarrow> OBDIIResponseType" where
  "meaning_type (Flags k) = OBDIIResponseTypeBitfield"
| "meaning_type (Quantity s) = OBDIIResponseTypeNumeric"
| "meaning_type (Sensor s t) = OBDIIResponseTypeOther"
| "meaning_type (Undecoded n) = OBDIIResponseTypeOther"

text \<open>The value the meaning gives to a payload.\<close>

fun value_ok :: "meaning \<Rightarrow> byte list \<Rightarrow> response_value \<Rightarrow> bool" where
  "value_ok (Flags k) p v \<longleftrightarrow> v = BitfieldValue (be_word (take k (drop 2 p)))"
| "value_ok (Quantity s) p v \<longleftrightarrow> (\<exists>q. v = NumericValue q \<and> accurate s p q)"
| "value_ok (Sensor s t) p v \<longleftrightarrow> (\<exists>x y. v = OxygenValue \<lparr>voltage_or_current = x, trim_or_ratio = y\<rparr>
      \<and> accurate s p x \<and> accurate t p y)"
| "value_ok (Undecoded n) p v \<longleftrightarrow> v = ZeroBytes"

text \<open>A decoder gives a payload of the right length that value, and touches nothing else.\<close>

definition decodes :: "decoder \<Rightarrow> meaning \<Rightarrow> bool" where
  "decodes d m \<longleftrightarrow> (\<forall>r p len h. payload_length m \<le> length p \<longrightarrow> r_value r = ZeroBytes \<longrightarrow>
     (\<exists>v. d r p len h = Inr (r\<lparr>r_value := v\<rparr>, h) \<and> value_ok m p v))"

definition meets :: "OBDIICommand \<Rightarrow> meaning \<Rightarrow> bool" where
  "meets c m \<longleftrightarrow> c_responseType c = meaning_type m \<and>
     c_expectedResponseLength c = int (payload_length m) \<and>
     (\<exists>d. c_responseDecoder c = Some d \<and> decodes d m)"

section \<open>The quantities\<close>

definition byte_quantity :: "rat \<Rightarrow> rat \<Rightarrow> bool \<Rightarrow> meaning" where
  "byte_quantity k c ex = Quantity \<lparr>field_of = U8 2, factor = k, offset = c, exactly = ex\<rparr>"

definition word_quantity :: "rat \<Rightarrow> rat \<Rightarrow> bool \<Rightarrow> meaning" where
  "word_quantity k c ex = Quantity \<lparr>field_of = U16 2, factor = k, offset = c, exactly = ex\<rparr>"

text \<open>Percentages of a full byte, temperatures in degrees Celsius, fuel trims in percent, counts.\<close>

definition percentage :: meaning where "percentage = byte_quantity (100 / 255) 0 False"
definition temperature :: meaning where "temperature = byte_quantity 1 (- 40) True"
definition fuel_trim :: meaning where "fuel_trim = byte_quantity (100 / 128) (- 100) False"
definition count8 :: meaning where "count8 = byte_quantity 1 0 True"
definition count16 :: meaning where "count16 = word_quantity 1 0 True"
definition catalyst :: meaning where "catalyst = word_quantity (1 / 10) (- 40) False"

text \<open>The three kinds of oxygen sensor data.\<close>

definition sensor_trim :: meaning where
  "sensor_trim = Sensor \<lparr>field_of = U8 2, factor = 1 / 200, offset = 0, exactly = False\<rparr>
     \<lparr>field_of = U8 3, factor = 100 / 128, offset = - 100, exactly = True\<rparr>"

definition sensor_voltage :: meaning where
  "sensor_voltage = Sensor \<lparr>field_of = U16 4, factor = 8 / 65536, offset = 0, exactly = True\<rparr>
     \<lparr>field_of = U16 2, factor = 2 / 65536, offset = 0, exactly = True\<rparr>"

definition sensor_current :: meaning where
  "sensor_current = Sensor \<lparr>field_of = U16 4, factor = 1 / 256, offset = - 128, exactly = True\<rparr>
     \<lparr>field_of = U16 2, factor = 2 / 65536, offset = 0, exactly = True\<rparr>"

definition vapor_pressure :: meaning where
  "vapor_pressure = Quantity \<lparr>field_of = S16 2, factor = 1 / 4, offset = 0, exactly = True\<rparr>"

text \<open>The meanings of mode 1 PIDs \<open>0x00\<close> to \<open>0x4E\<close>, eight or sixteen to a line.\<close>

definition mode1_meanings :: "meaning list" where
  "mode1_meanings =
    [Flags 4, Flags 4, Undecoded 4, Flags 2, percentage, temperature, fuel_trim, fuel_trim,
     fuel_trim, fuel_trim, byte_quantity 3 0 True, count8, word_quantity (1 / 4) 0 True, count8,
       byte_quantity (1 / 2) (- 64) True, temperature]
    @ [word_quantity (1 / 100) 0 False, percentage, Flags 1, Flags 1] @ replicate 8 sensor_trim
    @ [Flags 1, Flags 1, Flags 1, count16]
    @ [Flags 4, count16, word_quantity (79 / 1000) 0 False, word_quantity 10 0 True]
    @ replicate 8 sensor_voltage
    @ [percentage, byte_quantity (100 / 128) (- 100) True, percentage, percentage]
    @ [count8, count16, vapor_pressure, count8] @ replicate 8 sensor_current @ replicate 4 catalyst
    @ [Flags 4, Flags 4, word_quantity (1 / 1000) 0 False, word_quantity (100 / 255) 0 False,
       word_quantity (2 / 65536) 0 True, percentage, temperature, percentage]
    @ [percentage, percentage, percentage, percentage, percentage, count16, count16]"

section \<open>The decoders meet the meanings\<close>

lemma decodes_Quantity:
  "measures d n s \<Longrightarrow> field_end (field_of s) = n \<Longrightarrow> decodes d (Quantity s)"
  unfolding measures_def decodes_def by fastforce

lemma decodes_Sensor:
  "senses d n s t \<Longrightarrow> max (field_end (field_of s)) (field_end (field_of t)) = n \<Longrightarrow> decodes d (Sensor s t)"
  unfolding senses_def decodes_def by fastforce

lemma decodes_Flags:
  assumes "flags d (2 + k) w" "\<And>p. 2 + k \<le> length p \<Longrightarrow> w p = be_word (take k (drop 2 p))"
  shows "decodes d (Flags k)"
  using assms unfolding flags_def decodes_def by simp

lemma take_drop_2: "2 < length p \<Longrightarrow> take (Suc k) (drop 2 p) = p ! 2 # take k (drop 3 p)"
  "3 < length p \<Longrightarrow> take (Suc k) (drop 3 p) = p ! 3 # take k (drop 4 p)"
  "4 < length p \<Longrightarrow> take (Suc k) (drop 4 p) = p ! 4 # take k (drop 5 p)"
  "5 < length p \<Longrightarrow> take (Suc k) (drop 5 p) = p ! 5 # take k (drop 6 p)"
  by (simp_all add: Cons_nth_drop_Suc [symmetric])

lemma payload_bytes:
  "6 \<le> length p \<Longrightarrow> take 4 (drop 2 p) = [p ! 2, p ! 3, p ! 4, p ! 5]"
  "4 \<le> length p \<Longrightarrow> take 2 (drop 2 p) = [p ! 2, p ! 3]"
  "3 \<le> length p \<Longrightarrow> take 1 (drop 2 p) = [p ! 2]"
  using take_drop_2(1) [of p 3] take_drop_2(2) [of p 2] take_drop_2(3) [of p 1] take_drop_2(4) [of p 0]
    take_drop_2(1) [of p 1] take_drop_2(2) [of p 0] take_drop_2(1) [of p 0]
  by (simp_all add: numeral_eq_Suc)

lemma decodes_flags [decoder_specs]:
  "decodes OBDIIDecodeBitfield (Flags 4)"
  "decodes OBDIIDecodeTwoByteBitfield (Flags 2)"
  "decodes OBDIIDecodeSingleByteBitfield (Flags 1)"
  using decodes_Flags [of OBDIIDecodeBitfield 4] decodes_Flags [of OBDIIDecodeTwoByteBitfield 2]
    decodes_Flags [of OBDIIDecodeSingleByteBitfield 1] flags_Bitfield flags_TwoByteBitfield
    flags_SingleByteBitfield
  by (simp_all add: payload_bytes del: be_word.simps One_nat_def)

lemmas quantity_defs = percentage_def temperature_def fuel_trim_def count8_def count16_def
  catalyst_def vapor_pressure_def byte_quantity_def word_quantity_def

lemma decodes_quantities [decoder_specs]:
  "decodes OBDIIDecodePercentage percentage"
  "decodes OBDIIDecodeThrottlePosition percentage"
  "decodes OBDIIDecodeTemperature temperature"
  "decodes OBDIIDecodeFuelTrim fuel_trim"
  "decodes OBDIIDecodeUInt8 count8"
  "decodes OBDIIDecodeUInt16 count16"
  "decodes OBDIIDecodeCatalystTemperature catalyst"
  "decodes OBDIIDecodeVaporPressure vapor_pressure"
  "decodes OBDIIDecodeFuelPressure (byte_quantity 3 0 True)"
  "decodes OBDIIDecodeEngineRPMs (word_quantity (1 / 4) 0 True)"
  "decodes OBDIIDecodeTimingAdvance (byte_quantity (1 / 2) (- 64) True)"
  "decodes OBDIIDecodeMAFAirFlowRate (word_quantity (1 / 100) 0 False)"
  "decodes OBDIIDecodeFuelRailPressure (word_quantity (79 / 1000) 0 False)"
  "decodes OBDIIDecodeFuelRailGaugePressure (word_quantity 10 0 True)"
  "decodes OBDIIDecodeEGRError (byte_quantity (100 / 128) (- 100) True)"
  "decodes OBDIIDecodeControlModuleVoltage (word_quantity (1 / 1000) 0 False)"
  "decodes OBDIIDecodeAbsoluteLoadValue (word_quantity (100 / 255) 0 False)"
  "decodes OBDIIDecodeFuelAirEquivalence (word_quantity (2 / 65536) 0 True)"
  unfolding quantity_defs
  by (rule decodes_Quantity,
     rule measures_Percentage measures_ThrottlePosition measures_Temperature measures_FuelTrim
       measures_UInt8 measures_UInt16 measures_CatalystTemperature measures_VaporPressure
       measures_FuelPressure measures_EngineRPMs measures_TimingAdvance measures_MAFAirFlowRate
       measures_FuelRailPressure measures_FuelRailGaugePressure measures_EGRError
       measures_ControlModuleVoltage measures_AbsoluteLoadValue measures_FuelAirEquivalence, simp)+

lemma decodes_sensors [decoder_specs]:
  "decodes OBDIIDecodeOxygenSensorValues sensor_trim"
  "decodes OBDIIDecodeOxygenSensorValues2 sensor_voltage"
  "decodes OBDIIDecodeOxygenSensorValues3 sensor_current"
  unfolding sensor_trim_def sensor_voltage_def sensor_current_def
  by (rule decodes_Sensor, rule senses_1 senses_2 senses_3, simp)+

lemma decodes_nop [decoder_specs]: "decodes OBDIIDecodeNop (Undecoded n)"
  by (auto simp: decodes_def OBDIIDecodeNop_def intro!: exI [of _ ZeroBytes])


lemma meaning_shape [simp]:
  "payload_length percentage = 3" "meaning_type percentage = OBDIIResponseTypeNumeric"
  "payload_length temperature = 3" "meaning_type temperature = OBDIIResponseTypeNumeric"
  "payload_length fuel_trim = 3" "meaning_type fuel_trim = OBDIIResponseTypeNumeric"
  "payload_length count8 = 3" "meaning_type count8 = OBDIIResponseTypeNumeric"
  "payload_length count16 = 4" "meaning_type count16 = OBDIIResponseTypeNumeric"
  "payload_length catalyst = 4" "meaning_type catalyst = OBDIIResponseTypeNumeric"
  "payload_length vapor_pressure = 4" "meaning_type vapor_pressure = OBDIIResponseTypeNumeric"
  "payload_length (byte_quantity k c ex) = 3" "meaning_type (byte_quantity k c ex) = OBDIIResponseTypeNumeric"
  "payload_length (word_quantity k c ex) = 4" "meaning_type (word_quantity k c ex) = OBDIIResponseTypeNumeric"
  "payload_length sensor_trim = 4" "meaning_type sensor_trim = OBDIIResponseTypeOther"
  "payload_length sensor_voltage = 6" "meaning_type sensor_voltage = OBDIIResponseTypeOther"
  "payload_length sensor_current = 6" "meaning_type sensor_current = OBDIIResponseTypeOther"
  by (simp_all add: quantity_defs sensor_trim_def sensor_voltage_def sensor_current_def)

lemmas decoder_specs_normal = decodes_flags(3) [simplified] decodes_quantities(15,17,18) [simplified]

lemma replicate_4_8: "replicate 4 x = [x, x, x, x]" "replicate 8 x = [x, x, x, x, x, x, x, x]"
  by (simp_all add: numeral_eq_Suc)

lemma mode1_meets: "list_all2 meets OBDIIMode1Commands mode1_meanings"
  by (simp add: OBDIIMode1Commands_def mode1_meanings_def meets_def decoder_specs decoder_specs_normal
      replicate_4_8)

lemma mode1_payloads: "map c_payload OBDIIMode1Commands = map (\<lambda>i. [1, of_nat i]) [0..<79]"
  by (simp add: OBDIIMode1Commands_def upt_rec)

lemma length_mode1 [simp]: "length OBDIIMode1Commands = 79" "length mode1_meanings = 79"
  using mode1_payloads [THEN arg_cong [where f = length]] mode1_meets [THEN list_all2_lengthD] by simp_all

lemma mode1_entry: "pid < 79 \<Longrightarrow> meets (OBDIIMode1Commands ! pid) (mode1_meanings ! pid)"
  using mode1_meets by (simp add: list_all2_conv_all_nth)

lemma mode1_payload: "pid < 79 \<Longrightarrow> c_payload (OBDIIMode1Commands ! pid) = [1, of_nat pid]"
  using mode1_payloads [THEN arg_cong [where f = "\<lambda>xs. xs ! pid"]] by (simp add: nth_map)

lemma length_mode9 [simp]: "length OBDIIMode9Commands = 3"
  by (simp add: OBDIIMode9Commands_def)

end
