(* ===== verification/Decoding.thy ===== *)
theory Decoding
  imports Command_Spec
begin

text \<open>
  \<open>OBDIIDecodeResponseForCommand\<close> and \<open>OBDIIResponseFree\<close> over the real command objects: which
  value a response gives, when it is successful, that the union always holds the member its command
  promises, that no access leaves its buffer, and that freeing a response gives back what decoding it
  allocated.
\<close>

section \<open>One command at a time\<close>

lemma mode1_deref: "pid < 79 \<Longrightarrow> deref (Mode1Command pid) = Inr (OBDIIMode1Commands ! pid)"
  by simp

lemma mode9_0: "deref (Mode9Command 0) = Inr (OBDIIMode9Commands ! 0)"
  by simp

lemma mode9_entries:
  "meets (OBDIIMode9Commands ! 0) (Flags 4)"
  "c_responseType (OBDIIMode9Commands ! 1) = OBDIIResponseTypeNumeric"
  "c_responseDecoder (OBDIIMode9Commands ! 1) = None"
  "c_responseType (OBDIIMode9Commands ! 2) = OBDIIResponseTypeString"
  "c_expectedResponseLength (OBDIIMode9Commands ! 2) = 0"
  "c_responseDecoder (OBDIIMode9Commands ! 2) = Some OBDIIDecodeVIN"
  "c_payload (OBDIIMode9Commands ! 0) = [9, 0]" "c_payload (OBDIIMode9Commands ! 1) = [9, 1]"
  "c_payload (OBDIIMode9Commands ! 2) = [9, 2]"
  by (simp_all add: OBDIIMode9Commands_def meets_def decoder_specs VARIABLE_RESPONSE_LENGTH_def
      numeral_2_eq_2)

lemma mode3_entry:
  "c_responseType OBDIIMode3Command = OBDIIResponseTypeOther"
  "c_expectedResponseLength OBDIIMode3Command = 0"
  "c_responseDecoder OBDIIMode3Command = Some OBDIIDecodeDTCs"
  "c_payload OBDIIMode3Command = [3, 0]"
  by (simp_all add: OBDIIMode3Command_def VARIABLE_RESPONSE_LENGTH_def)

text \<open>The zero response with its command, and with success recorded.\<close>

abbreviation failed :: "command_ref \<Rightarrow> OBDIIResponse" where
  "failed ref \<equiv> \<lparr>r_success = 0, r_command = Some ref, r_value = ZeroBytes\<rparr>"

abbreviation decoded :: "command_ref \<Rightarrow> response_value \<Rightarrow> OBDIIResponse" where
  "decoded ref v \<equiv> \<lparr>r_success = 1, r_command = Some ref, r_value = v\<rparr>"

lemma reject:
  "deref ref = Inr c \<Longrightarrow> len \<le> int (length p) \<Longrightarrow> \<not> answers c p len \<Longrightarrow>
     OBDIIDecodeResponseForCommand (Some ref) (Some p) len h = Inr (failed ref, h)"
  by (simp add: decode_rejected zero_response_def)

lemma accept:
  "deref ref = Inr c \<Longrightarrow> len \<le> int (length p) \<Longrightarrow> answers c p len \<Longrightarrow> c_responseDecoder c = Some d \<Longrightarrow>
     OBDIIDecodeResponseForCommand (Some ref) (Some p) len h = d (decoded ref ZeroBytes) p len h"
  by (simp add: decode_accepted zero_response_def)

lemma accept_meets:
  assumes "deref ref = Inr c" "meets c m" "len \<le> int (length p)" "answers c p len"
  shows "\<exists>v. OBDIIDecodeResponseForCommand (Some ref) (Some p) len h = Inr (decoded ref v, h) \<and> value_ok m p v"
proof -
  from assms(2) obtain d where len: "c_expectedResponseLength c = int (payload_length m)"
    and d: "c_responseDecoder c = Some d" "decodes d m"
    unfolding meets_def by blast
  have "payload_length m \<le> length p"
    using assms(3,4) len by (cases "payload_length m = 0") (auto simp: answers_def)
  then obtain v where "d (decoded ref ZeroBytes) p len h = Inr (decoded ref v, h)" "value_ok m p v"
    using d(2) unfolding decodes_def
    by (metis OBDIIResponse.select_convs(3) OBDIIResponse.update_convs(3))
  with accept [OF assms(1,3,4) d(1)] show ?thesis by auto
qed

text \<open>The commands there are, for case analysis on a pointer that can be followed.\<close>

lemma deref_cases:
  assumes "deref ref = Inr c"
  obtains (mode1) pid where "ref = Mode1Command pid" "pid < 79" "c = OBDIIMode1Commands ! pid"
      "meets c (mode1_meanings ! pid)"
  | (dtcs) "ref = Mode3Command" "c = OBDIIMode3Command"
  | (pids9) "ref = Mode9Command 0" "c = OBDIIMode9Commands ! 0" "meets c (Flags 4)"
  | (vin_count) "ref = Mode9Command 1" "c = OBDIIMode9Commands ! 1"
  | (vin) "ref = Mode9Command 2" "c = OBDIIMode9Commands ! 2"
proof (cases ref)
  case (Mode1Command pid)
  with assms show ?thesis using mode1 mode1_entry by (auto split: if_splits)
next
  case Mode3Command
  with assms show ?thesis using dtcs by simp
next
  case (Mode9Command i)
  with assms have "i < 3" "c = OBDIIMode9Commands ! i" by (auto split: if_splits)
  from this(1) consider "i = 0" | "i = 1" | "i = 2" by linarith
  then show ?thesis
  proof cases
    case 1
    then show ?thesis using pids9 Mode9Command \<open>c = OBDIIMode9Commands ! i\<close> mode9_entries(1) by simp
  next
    case 2
    then show ?thesis using vin_count Mode9Command \<open>c = OBDIIMode9Commands ! i\<close> by simp
  next
    case 3
    then show ?thesis using vin Mode9Command \<open>c = OBDIIMode9Commands ! i\<close> by simp
  qed
qed

lemma accept_vin:
  assumes "deref ref = Inr c" "ref = Mode9Command 2" "len \<le> int (length p)" "answers c p len"
  shows "OBDIIDecodeResponseForCommand (Some ref) (Some p) len h = OBDIIDecodeVIN (decoded ref ZeroBytes) p len h"
    and "2 \<le> len"
proof -
  have c: "c = OBDIIMode9Commands ! 2" using assms(1,2) by simp
  show "OBDIIDecodeResponseForCommand (Some ref) (Some p) len h = OBDIIDecodeVIN (decoded ref ZeroBytes) p len h"
    using assms(1,3,4) by (rule accept) (simp add: c mode9_entries)
  show "2 \<le> len" using assms(4) by (simp add: c answers_def OBDIICommandGetMode_def mode9_entries)
qed

lemma accept_dtcs:
  assumes "len \<le> int (length p)" "answers OBDIIMode3Command p len"
  shows "OBDIIDecodeResponseForCommand (Some Mode3Command) (Some p) len h =
    OBDIIDecodeDTCs (decoded Mode3Command ZeroBytes) p len h"
  by (rule accept [OF _ assms]) (simp_all add: mode3_entry)

text \<open>Everything that can come out of decoding a response to a command that has a decoder.\<close>

lemma decode_outcome:
  assumes "deref ref = Inr c" "ref \<noteq> Mode9Command 1" "len \<le> int (length p)" "len < 2 ^ 31"
    and "ref = Mode3Command \<longrightarrow> grants h (next_addr h)"
  obtains (rejected) "\<not> answers c p len"
      "OBDIIDecodeResponseForCommand (Some ref) (Some p) len h = Inr (failed ref, h)"
  | (plain) m v where "answers c p len" "ref \<noteq> Mode3Command" "meets c m" "value_ok m p v"
      "OBDIIDecodeResponseForCommand (Some ref) (Some p) len h = Inr (decoded ref v, h)"
  | (malformed) "ref = Mode3Command" "answers c p len" "len < 2 \<or> len mod 2 \<noteq> 0"
      "OBDIIDecodeResponseForCommand (Some ref) (Some p) len h = Inr (failed ref, h)"
  | (codes) n where "ref = Mode3Command" "answers c p len" "2 \<le> len" "len mod 2 = 0" "n = nat (len div 2) - 1"
      "OBDIIDecodeResponseForCommand (Some ref) (Some p) len h =
        Inr (decoded ref (DTCsValue (Some (next_addr h)) (int n)), h\<lparr>blocks := (blocks h)(next_addr h :=
          Some (ByteBlock (map Some (dtc_array p 0 n)))), next_addr := Suc (next_addr h)\<rparr>)"
  | (vin) b where "ref = Mode9Command 2" "answers c p len" "2 \<le> len" "grants h (next_addr h)"
      "c_string b = Inr (no_nul (take (nat len - 2) (drop 2 p)))"
      "OBDIIDecodeResponseForCommand (Some ref) (Some p) len h =
        Inr (decoded ref (StringValue (Some (next_addr h))), h\<lparr>blocks := (blocks h)(next_addr h :=
          Some (ByteBlock b)), next_addr := Suc (next_addr h)\<rparr>)"
  | (no_vin) "ref = Mode9Command 2" "answers c p len" "\<not> grants h (next_addr h)"
      "OBDIIDecodeResponseForCommand (Some ref) (Some p) len h =
        Inr (decoded ref (StringValue None), h\<lparr>next_addr := Suc (next_addr h)\<rparr>)"
proof (cases "answers c p len")
  case False
  then show ?thesis using rejected reject [OF assms(1,3)] by blast
next
  case ans: True
  from assms(1) show ?thesis
  proof (cases rule: deref_cases)
    case (mode1 pid)
    then show ?thesis using plain [OF ans] accept_meets [OF assms(1) _ assms(3) ans] by blast
  next
    case pids9
    then show ?thesis using plain [OF ans] accept_meets [OF assms(1) _ assms(3) ans] by blast
  next
    case vin_count
    then show ?thesis using assms(2) by simp
  next
    case dtcs
    note run = accept_dtcs [OF assms(3) ans [unfolded dtcs(2)]]
    show ?thesis
    proof (cases "len < 2 \<or> len mod 2 \<noteq> 0")
      case True
      then show ?thesis using malformed [OF dtcs(1) ans True] decode_dtcs_malformed [OF True]
        by (simp add: run dtcs(1))
    next
      case False
      then have len: "2 \<le> len" "len mod 2 = 0" by auto
      show ?thesis
        using assms(5) dtcs(1) decode_dtcs_granted [OF len assms(3)]
        by (intro codes [OF dtcs(1) ans len refl]) (simp add: run)
    qed
  next
    case vin: vin
    note run = accept_vin [OF assms(1) vin(1) assms(3) ans]
    show ?thesis
    proof (cases "grants h (next_addr h)")
      case True
      from decode_vin_granted [OF run(2) assms(3,4) True, of "decoded ref ZeroBytes"] obtain bs where bs:
        "OBDIIDecodeVIN (decoded ref ZeroBytes) p len h =
          Inr ((decoded ref ZeroBytes)\<lparr>r_value := StringValue (Some (next_addr h))\<rparr>,
            h\<lparr>blocks := (blocks h)(next_addr h := Some (ByteBlock (map Some bs @ [Some 0]))),
              next_addr := Suc (next_addr h)\<rparr>)"
        "c_string (map Some bs @ [Some 0]) = Inr (no_nul (take (nat len - 2) (drop 2 p)))" by blast
      show ?thesis by (rule that(5) [OF vin(1) ans run(2) True bs(2)]) (simp only: run(1) bs(1) OBDIIResponse.update_convs)
    next
      case False
      show ?thesis by (rule no_vin [OF vin(1) ans False]) (simp add: run(1) decode_vin_no_memory [OF False])
    qed
  qed
qed

section \<open>Values\<close>

text \<open>C1. A positive response to any mode 1 command decodes to success, and its value is the flags or
  the physical quantity the specification gives that PID: flags bit for bit, a quantity exactly or
  within one part in \<open>2 ^ 23\<close>, and the number stored is a \<open>float\<close>. Nothing else changes. (The code
  does not decode PID 2, whose meaning here is that the value stays zero.)\<close>

theorem decode_mode1_value:
  assumes "pid < 79" "len \<le> int (length p)" "answers (OBDIIMode1Commands ! pid) p len"
  shows "\<exists>v. OBDIIDecodeResponseForCommand (Some (Mode1Command pid)) (Some p) len h =
      Inr (\<lparr>r_success = 1, r_command = Some (Mode1Command pid), r_value = v\<rparr>, h)
    \<and> value_ok (mode1_meanings ! pid) p v"
  using assms by (intro accept_meets [OF mode1_deref]) (simp_all add: mode1_entry)

lemma mode1_entry_12:
  "OBDIIMode1Commands ! 12 = \<lparr>c_name = ''Engine RPM'', c_payload = [0x01, 0x0C],
     c_responseType = OBDIIResponseTypeNumeric, c_expectedResponseLength = 4,
     c_responseDecoder = Some OBDIIDecodeEngineRPMs\<rparr>"
  by (simp add: OBDIIMode1Commands_def)

lemma rpm_answer: "answers (OBDIIMode1Commands ! 12) [0x41, 0x0C, 0x1A, 0xF8] 4"
  by (simp add: answers_def mode1_entry_12 OBDIICommandGetMode_def OBDIICommandGetPID_def)

lemma rpm_meaning: "mode1_meanings ! 12 = word_quantity (1 / 4) 0 True"
  by (simp add: mode1_meanings_def)

theorem decode_mode1_value_witness:
  "OBDIIDecodeResponseForCommand (Some (Mode1Command 12)) (Some [0x41, 0x0C, 0x1A, 0xF8]) 4 empty_heap =
      Inr (\<lparr>r_success = 1, r_command = Some (Mode1Command 12), r_value = NumericValue 1726\<rparr>, empty_heap)"
  using decode_mode1_value [of 12 4 "[0x41, 0x0C, 0x1A, 0xF8]" empty_heap] rpm_answer
  by (auto simp: rpm_meaning word_quantity_def accurate_def quantity_def fits_def)

section \<open>Safety and success\<close>

lemma value_ok_member:
  "value_ok m p v \<Longrightarrow> member_matches (meaning_type m) v"
  by (cases m) auto

lemma meets_type: "meets c m \<Longrightarrow> c_responseType c = meaning_type m"
  by (simp add: meets_def)

lemma decode_total:
  assumes "deref ref = Inr c" "ref \<noteq> Mode9Command 1" "len \<le> int (length p)" "len < 2 ^ 31"
    and "ref = Mode3Command \<longrightarrow> grants h (next_addr h)"
  shows "\<exists>r h'. OBDIIDecodeResponseForCommand (Some ref) (Some p) len h = Inr (r, h') \<and>
    r_command r = Some ref \<and> member_matches (c_responseType c) (r_value r) \<and>
    r_success r = (if answers c p len \<and> (ref = Mode3Command \<longrightarrow> 2 \<le> len \<and> even len) then 1 else 0)"
  using assms
proof (cases rule: decode_outcome)
  case (plain m v)
  then show ?thesis using value_ok_member [OF plain(4)] meets_type [OF plain(3)] by simp
next
  case (codes n)
  then show ?thesis using assms(1) by (auto simp: mode3_entry even_iff_mod_2_eq_zero)
next
  case (vin b)
  then show ?thesis using assms(1) by (auto simp: mode9_entries)
next
  case no_vin
  then show ?thesis using assms(1) by (auto simp: mode9_entries)
qed (auto simp: even_iff_mod_2_eq_zero)

text \<open>C7. For every command with a decoder, decoding any received payload stays inside its buffers,
  dereferences no null pointer, records the command, reports success exactly for a positive response
  (for trouble codes, one that also holds a whole number of codes), and leaves the union holding the
  member the command's response type promises. Trouble codes need the allocation to succeed.\<close>

theorem decode_safe_and_typed:
  assumes "deref ref = Inr c" "ref \<noteq> Mode9Command 1" "len \<le> int (length p)" "len < 2 ^ 31"
    and "ref = Mode3Command \<longrightarrow> grants h (next_addr h)"
  shows "\<exists>r h'. OBDIIDecodeResponseForCommand (Some ref) (Some p) len h = Inr (r, h') \<and>
    r_command r = Some ref \<and> member_matches (c_responseType c) (r_value r) \<and>
    r_success r = (if answers c p len \<and> (ref = Mode3Command \<longrightarrow> 2 \<le> len \<and> even len) then 1 else 0)"
  using assms by (rule decode_total)

theorem decode_safe_and_typed_witness:
  "\<exists>r h'. OBDIIDecodeResponseForCommand (Some Mode3Command) (Some [0x43, 0x00, 0x38]) 3 empty_heap = Inr (r, h')
    \<and> r_success r = 0"
  using decode_safe_and_typed [of Mode3Command OBDIIMode3Command 3 "[0x43, 0x00, 0x38]" empty_heap] by auto

text \<open>C40. The decoder pointer of the VIN message count command is \<open>NULL\<close>: any positive response to
  it makes the library call through a null pointer.\<close>

theorem decode_vin_count_crashes:
  "OBDIIDecodeResponseForCommand (Some (Mode9Command 1)) (Some [0x49, 0x01, n]) 3 h = Inl NullCall"
  by (simp add: OBDIIDecodeResponseForCommand_def OBDIIResponseSuccessful_def OBDIIMode9Commands_def
      OBDIICommandGetMode_def VARIABLE_RESPONSE_LENGTH_def Let_def)

section \<open>Freeing\<close>

lemma free_failed: "deref ref = Inr c \<Longrightarrow> OBDIIResponseFree (Some (failed ref)) h = Inr h"
  by (auto simp: OBDIIResponseFree_def OBDIICommands_def free_member_def)

lemma free_plain:
  "deref ref = Inr c \<Longrightarrow> ref \<noteq> Mode3Command \<Longrightarrow> c_responseType c \<noteq> OBDIIResponseTypeString \<Longrightarrow>
     OBDIIResponseFree (Some (decoded ref v)) h = Inr h"
  by (auto simp: OBDIIResponseFree_def OBDIICommands_def)

lemma free_codes:
  "OBDIIResponseFree (Some (decoded Mode3Command (DTCsValue (Some a) n))) h = mfree a h"
  by (cases "mfree a h") (simp_all add: OBDIIResponseFree_def OBDIICommands_def free_member_def mode3_entry)

lemma free_vin:
  "OBDIIResponseFree (Some (decoded (Mode9Command 2) (StringValue None))) h = Inr h"
  "OBDIIResponseFree (Some (decoded (Mode9Command 2) (StringValue (Some a)))) h = mfree a h"
  by (simp_all add: OBDIIResponseFree_def OBDIICommands_def free_member_def mode9_entries)

lemma free_fresh:
  assumes "heap_ok h" "grants h (next_addr h)" "blocks h' = (blocks h)(next_addr h := Some b)"
  shows "\<exists>h''. mfree (next_addr h) h' = Inr h'' \<and> blocks h'' = blocks h"
proof -
  have m: "malloc b h = (Some (next_addr h),
      h\<lparr>blocks := (blocks h)(next_addr h := Some b), next_addr := Suc (next_addr h)\<rparr>)"
    using assms(2) by (simp add: malloc_def Let_def)
  from heap.release_allocated [OF m assms(1)] show ?thesis using assms(3) by simp
qed

lemma meaning_not_string [simp]: "meaning_type m \<noteq> OBDIIResponseTypeString"
  by (cases m) simp_all

text \<open>C18. For every command with a decoder, and with memory for trouble codes, decoding a response and
  freeing it leaks nothing and frees nothing else: whatever was decoded, \<open>OBDIIResponseFree\<close> succeeds and the heap holds the same blocks as before.\<close>

theorem decode_then_free:
  assumes "deref ref = Inr c" "ref \<noteq> Mode9Command 1" "len \<le> int (length p)" "len < 2 ^ 31"
    and "ref = Mode3Command \<longrightarrow> grants h (next_addr h)" "heap_ok h"
  shows "\<exists>r h1 h2. OBDIIDecodeResponseForCommand (Some ref) (Some p) len h = Inr (r, h1) \<and>
    OBDIIResponseFree (Some r) h1 = Inr h2 \<and> blocks h2 = blocks h"
  using assms(1-5)
proof (cases rule: decode_outcome)
  case rejected
  then show ?thesis using free_failed [OF assms(1)] by simp
next
  case (plain m v)
  then show ?thesis using free_plain [OF assms(1)] by (simp add: meets_type)
next
  case malformed
  then show ?thesis using free_failed [OF assms(1)] by simp
next
  case (codes n)
  then show ?thesis using free_fresh [OF assms(6)] assms(5) by (simp add: free_codes)
next
  case (vin b)
  then show ?thesis using free_fresh [OF assms(6) vin(4)] by (simp add: free_vin)
next
  case no_vin
  then show ?thesis by (simp add: free_vin)
qed

theorem decode_then_free_witness:
  "\<exists>r h1 h2. OBDIIDecodeResponseForCommand (Some (Mode9Command 2)) (Some [0x49, 0x02, 0x57, 0x56]) 4 empty_heap
      = Inr (r, h1) \<and> OBDIIResponseFree (Some r) h1 = Inr h2 \<and> blocks h2 = (\<lambda>_. None)"
  using decode_then_free [of "Mode9Command 2" "OBDIIMode9Commands ! 2" 4 "[0x49, 0x02, 0x57, 0x56]" empty_heap]
  by auto

section \<open>Trouble codes\<close>

lemma c_string_no_nul: "0 \<notin> set s \<Longrightarrow> c_string (map Some s @ Some 0 # rest) = Inr s"
  by (induction s) auto

lemma hex_digit_no_nul: "n < 16 \<Longrightarrow> (of_char (hex_digit n) :: byte) \<noteq> 0"
  using nth_mem [of n "''0123456789ABCDEF''"] unfolding hex_digit_def by auto

lemma letter_no_nul: "n < 4 \<Longrightarrow> (of_char (''PCBU'' ! n) :: byte) \<noteq> 0"
  using nth_mem [of n "''PCBU''"] by auto

lemma dtc_name_no_nul: "0 \<notin> set (map of_char (dtc_name a b) :: byte list)"
proof -
  have "unat a div 64 < 4" "unat b div 16 < 16" using unat_byte [of a] unat_byte [of b] by auto
  moreover have "unat a div 16 mod 4 < 16" by (rule less_le_trans [OF mod_less_divisor]) simp_all
  ultimately show ?thesis
    using letter_no_nul [of "unat a div 64"] hex_digit_no_nul [of "unat a div 16 mod 4"]
      hex_digit_no_nul [of "unat a mod 16"] hex_digit_no_nul [of "unat b div 16"]
      hex_digit_no_nul [of "unat b mod 16"]
    by (auto simp: dtc_name_def Let_def)
qed

lemma drop_concat_blocks:
  assumes "\<And>j. length (f j) = k" "i < n"
  shows "drop (k * i) (concat (map f [0..<n])) = f i @ concat (map f [Suc i..<n])"
proof -
  have "length (concat (map f [0..<i])) = k * i" by (induction i) (simp_all add: assms(1))
  moreover have "[0..<n] = [0..<i] @ i # [Suc i..<n]"
    using assms(2) upt_add_eq_append [of 0 i "n - i"] upt_conv_Cons [of i n] by simp
  ultimately show ?thesis by simp
qed

lemma length_dtc_array [simp]: "length (dtc_array p i n) = 6 * n"
  unfolding dtc_array_def by (induction n arbitrary: i) simp_all

lemma c_string_c_bytes:
  assumes "0 \<notin> set (map of_char s :: byte list)"
  shows "c_string (map Some (c_bytes s) @ rest) = Inr (map of_char s)"
  using c_string_no_nul [OF assms, of rest] by (simp add: c_bytes_def)

lemma dtc_array_string:
  "i < n \<Longrightarrow> c_string (drop (6 * i) (map Some (dtc_array p 0 n))) =
     Inr (map of_char (dtc_name (p ! (2 + 2 * i)) (p ! (3 + 2 * i))))"
  unfolding dtc_array_def drop_map add_0
  by (subst drop_concat_blocks) (simp_all only: length_c_bytes_dtc map_append c_string_c_bytes [OF dtc_name_no_nul])

text \<open>C9. With memory for it, a well-formed response to the trouble code command decodes to its codes: an array of one
  six-byte string per pair of data bytes, each the standard text of that pair (letter of the system,
  a decimal digit, three hexadecimal digits), in the order of the payload.\<close>

theorem decode_trouble_codes:
  assumes "2 \<le> len" "even len" "len \<le> int (length p)" "p ! 0 = 0x43" "grants h (next_addr h)"
  shows "\<exists>r h' a bs. OBDIIDecodeResponseForCommand (Some Mode3Command) (Some p) len h = Inr (r, h') \<and>
    r_success r = 1 \<and> troubleCodes (r_value r) = Some (Some a) \<and>
    numTroubleCodes (r_value r) = Some (len div 2 - 1) \<and>
    blocks h' a = Some (ByteBlock bs) \<and> length bs = 6 * nat (len div 2 - 1) \<and>
    (\<forall>i < nat (len div 2 - 1). c_string (drop (6 * i) bs) =
       Inr (map of_char (dtc_name (p ! (2 + 2 * i)) (p ! (3 + 2 * i)))))"
proof -
  let ?n = "nat (len div 2) - 1"
  have ans: "answers OBDIIMode3Command p len"
    using assms(1,4) by (simp add: answers_def OBDIICommandGetMode_def mode3_entry)
  have n: "nat (len div 2 - 1) = ?n" "int ?n = len div 2 - 1" using assms(1) by linarith+
  have e: "len mod 2 = 0" using assms(2) by presburger
  show ?thesis
    using decode_dtcs_granted [OF assms(1) e assms(3,5)] dtc_array_string [of _ ?n p]
    by (simp add: accept_dtcs [OF assms(3) ans] n del: One_nat_def)
qed

lemma codes_of_example:
  "dtc_name 0x38 0xAB = ''P38AB''" "dtc_name 0xE0 0xFC = ''U20FC''" "dtc_name 0x57 0xDE = ''C17DE''"
  by (simp_all add: dtc_name_def hex_digit_def)

lemma all_less_3: "(\<forall>i < (3::nat). P i) \<longleftrightarrow> P 0 \<and> P 1 \<and> P 2"
  by (auto simp: less_Suc_eq numeral_3_eq_3 numeral_2_eq_2)

theorem decode_trouble_codes_witness:
  "\<exists>r h' a bs. OBDIIDecodeResponseForCommand (Some Mode3Command)
      (Some [0x43, 0x00, 0x38, 0xAB, 0xE0, 0xFC, 0x57, 0xDE]) 8 empty_heap = Inr (r, h') \<and>
    r_success r = 1 \<and> troubleCodes (r_value r) = Some (Some a) \<and> numTroubleCodes (r_value r) = Some 3 \<and>
    blocks h' a = Some (ByteBlock bs) \<and> length bs = 18 \<and>
    c_string bs = Inr (map of_char ''P38AB'') \<and> c_string (drop 6 bs) = Inr (map of_char ''U20FC'') \<and>
    c_string (drop 12 bs) = Inr (map of_char ''C17DE'')"
proof -
  let ?p = "[0x43, 0x00, 0x38, 0xAB, 0xE0, 0xFC, 0x57, 0xDE] :: byte list"
  have "2 \<le> (8::int)" "even (8::int)" "8 \<le> int (length ?p)" "?p ! 0 = 0x43"
      "grants empty_heap (next_addr empty_heap)" by simp_all
  note it = decode_trouble_codes [OF this]
  have n: "(8::int) div 2 - 1 = 3" "nat 3 = 3" "6 * (3::nat) = 18" by simp_all
  have i: "6 * (0::nat) = 0" "6 * (1::nat) = 6" "6 * (2::nat) = 12" by simp_all
  have b: "?p ! (2 + 2 * 0) = 0x38" "?p ! (3 + 2 * 0) = 0xAB" "?p ! (2 + 2 * 1) = 0xE0"
    "?p ! (3 + 2 * 1) = 0xFC" "?p ! (2 + 2 * 2) = 0x57" "?p ! (3 + 2 * 2) = 0xDE" by simp_all
  show ?thesis using it unfolding n all_less_3 b codes_of_example i drop_0 .
qed

text \<open>Without memory for the codes the library stores through the null pointer \<open>malloc\<close> gave it:
  a response that holds at least one code then ends in undefined behaviour.\<close>

theorem decode_codes_no_memory:
  assumes "4 \<le> len" "even len" "len \<le> int (length p)" "p ! 0 = 0x43" "\<not> grants h (next_addr h)"
  shows "OBDIIDecodeResponseForCommand (Some Mode3Command) (Some p) len h = Inl NullDeref"
proof -
  have "answers OBDIIMode3Command p len"
    using assms(1,4) by (simp add: answers_def OBDIICommandGetMode_def mode3_entry)
  moreover have "len mod 2 = 0" using assms(2) by presburger
  ultimately show ?thesis
    using accept_dtcs [OF assms(3)] decode_dtcs_no_memory [OF assms(1) _ assms(3,5)] by simp
qed

theorem decode_codes_no_memory_witness:
  "OBDIIDecodeResponseForCommand (Some Mode3Command) (Some [0x43, 0x00, 0x38, 0xAB]) 4
     (empty_heap\<lparr>grants := (\<lambda>_. False)\<rparr>) = Inl NullDeref"
  by (rule decode_codes_no_memory) simp_all

text \<open>The text of a trouble code determines its two bytes.\<close>

lemma hex_digit_eq: "m < 16 \<Longrightarrow> n < 16 \<Longrightarrow> hex_digit m = hex_digit n \<longleftrightarrow> m = n"
  unfolding hex_digit_def by (subst nth_eq_iff_index_eq) simp_all

lemma letter_eq: "m < 4 \<Longrightarrow> n < 4 \<Longrightarrow> ''PCBU'' ! m = ''PCBU'' ! n \<longleftrightarrow> m = n"
  by (subst nth_eq_iff_index_eq) simp_all

lemma byte_parts:
  fixes a :: byte
  shows "unat a div 16 < 16" "unat a div 64 < 4" "unat a div 16 mod 4 < 16" "unat a mod 16 < 16"
proof -
  show "unat a div 16 < 16" "unat a div 64 < 4" using unat_byte [of a] by auto
  show "unat a div 16 mod 4 < 16" by (rule less_le_trans [OF mod_less_divisor]) simp_all
  show "unat a mod 16 < 16" by simp
qed

lemma dtc_name_inj: "dtc_name a b = dtc_name a' b' \<longleftrightarrow> a = a' \<and> b = b'"
proof
  assume eq: "dtc_name a b = dtc_name a' b'"
  have nat_parts: "n = n div 64 * 64 + n div 16 mod 4 * 16 + n mod 16" for n :: nat
  proof -
    have "n div 64 = n div 16 div 4" using div_mult2_eq [of n 16 4] by simp
    then show ?thesis using div_mult_mod_eq [of n 16] div_mult_mod_eq [of "n div 16" 4] by linarith
  qed
  have "unat a div 64 = unat a' div 64" "unat a div 16 mod 4 = unat a' div 16 mod 4"
    "unat a mod 16 = unat a' mod 16" "unat b div 16 = unat b' div 16" "unat b mod 16 = unat b' mod 16"
    using eq byte_parts [of a] byte_parts [of a'] byte_parts [of b] byte_parts [of b']
    by (simp_all add: dtc_name_def Let_def hex_digit_eq letter_eq)
  then have "unat a = unat a'" "unat b = unat b'"
    using nat_parts [of "unat a"] nat_parts [of "unat a'"] by (metis, metis div_mult_mod_eq)
  then show "a = a' \<and> b = b'" by (simp add: word_unat_eq_iff)
qed simp

lemma of_char_byte_inj: "(of_char c :: byte) = of_char d \<longleftrightarrow> c = d"
proof
  assume "(of_char c :: byte) = of_char d"
  then have "unat (of_char c :: byte) = unat (of_char d :: byte)" by simp
  then show "c = d" unfolding unat_of_char by simp
qed simp

lemma dtc_array_bytes:
  assumes "dtc_array p 0 n = dtc_array q 0 n" "i < n"
  shows "p ! (2 + 2 * i) = q ! (2 + 2 * i) \<and> p ! (3 + 2 * i) = q ! (3 + 2 * i)"
proof -
  have "map of_char (dtc_name (p ! (2 + 2 * i)) (p ! (3 + 2 * i))) =
      (map of_char (dtc_name (q ! (2 + 2 * i)) (q ! (3 + 2 * i))) :: byte list)"
    using dtc_array_string [OF assms(2), of p] dtc_array_string [OF assms(2), of q] assms(1) by simp
  then have "dtc_name (p ! (2 + 2 * i)) (p ! (3 + 2 * i)) = dtc_name (q ! (2 + 2 * i)) (q ! (3 + 2 * i))"
    by (rule map_injective) (simp add: inj_def of_char_byte_inj)
  then show ?thesis unfolding dtc_name_inj .
qed

text \<open>C36. Decoding trouble codes loses nothing: two well-formed responses of the same length that
  leave the heap the same carry the same data bytes.\<close>

theorem decode_codes_lossless:
  assumes "2 \<le> len" "even len" "len \<le> int (length p)" "len \<le> int (length q)"
    and "p ! 0 = 0x43" "q ! 0 = 0x43" "grants h (next_addr h)"
    and "OBDIIDecodeResponseForCommand (Some Mode3Command) (Some p) len h = Inr (r, h')"
    and "OBDIIDecodeResponseForCommand (Some Mode3Command) (Some q) len h = Inr (r', h')"
  shows "take (nat len - 2) (drop 2 p) = take (nat len - 2) (drop 2 q)"
proof (rule nth_equalityI)
  show "length (take (nat len - 2) (drop 2 p)) = length (take (nat len - 2) (drop 2 q))"
    using assms(3,4) by simp
  let ?n = "nat (len div 2) - 1"
  have e: "len mod 2 = 0" using assms(2) by presburger
  have ans: "answers OBDIIMode3Command p len" "answers OBDIIMode3Command q len"
    using assms(1,5,6) by (simp_all add: answers_def OBDIICommandGetMode_def mode3_entry)
  let ?h = "\<lambda>p. h\<lparr>blocks := (blocks h)(next_addr h := Some (ByteBlock (map Some (dtc_array p 0 ?n)))),
      next_addr := Suc (next_addr h)\<rparr>"
  have "?h p = h'" "?h q = h'"
    using assms(8,9) unfolding accept_dtcs [OF assms(3) ans(1)] accept_dtcs [OF assms(4) ans(2)]
      decode_dtcs_granted [OF assms(1) e assms(3,7)] decode_dtcs_granted [OF assms(1) e assms(4,7)]
    by (simp_all only: sum.inject prod.inject)
  then have "blocks (?h p) (next_addr h) = blocks (?h q) (next_addr h)" by (simp only:)
  then have same: "dtc_array p 0 ?n = dtc_array q 0 ?n" by (simp add: inj_map_eq_map)
  fix j assume "j < length (take (nat len - 2) (drop 2 p))"
  then have j: "j < nat len - 2" by simp
  then have i: "j div 2 < ?n" and r: "j = 2 * (j div 2) \<or> j = Suc (2 * (j div 2))" using e by auto
  show "take (nat len - 2) (drop 2 p) ! j = take (nat len - 2) (drop 2 q) ! j"
    using r dtc_array_bytes [OF same i] j assms(3,4) by (auto simp: numeral_3_eq_3)
qed

theorem decode_codes_lossless_witness:
  "take (nat 4 - 2) (drop 2 [0x43, 0x00, 0x38, 0xAB :: byte]) = take (nat 4 - 2) (drop 2 [0x43, 0x05, 0x38, 0xAB])"
proof -
  obtain r where "OBDIIDecodeResponseForCommand (Some Mode3Command) (Some [0x43, 0x00, 0x38, 0xAB]) 4 empty_heap = Inr r"
    "OBDIIDecodeResponseForCommand (Some Mode3Command) (Some [0x43, 0x05, 0x38, 0xAB]) 4 empty_heap = Inr r"
    using accept_dtcs [of 4 "[0x43, 0x00, 0x38, 0xAB]" empty_heap] accept_dtcs [of 4 "[0x43, 0x05, 0x38, 0xAB]" empty_heap]
      decode_dtcs_granted [of 4 "[0x43, 0x00, 0x38, 0xAB]" empty_heap "decoded Mode3Command ZeroBytes"]
      decode_dtcs_granted [of 4 "[0x43, 0x05, 0x38, 0xAB]" empty_heap "decoded Mode3Command ZeroBytes"]
    by (simp add: answers_def OBDIICommandGetMode_def mode3_entry dtc_array_def)
  then show ?thesis
    using decode_codes_lossless [of 4 "[0x43, 0x00, 0x38, 0xAB]" "[0x43, 0x05, 0x38, 0xAB]" empty_heap "fst r" "snd r" "fst r"] by simp
qed

text \<open>C37. With memory for it, a VIN response decodes to a C string in a block of its own: the payload after the mode and
  PID bytes, up to the first NUL byte if it holds one, always terminated inside the block.\<close>

theorem decode_vin:
  assumes "2 \<le> len" "len \<le> int (length p)" "len < 2 ^ 31" "p ! 0 = 0x49" "p ! 1 = 0x02"
    and "grants h (next_addr h)"
  shows "\<exists>r h' a b. OBDIIDecodeResponseForCommand (Some (Mode9Command 2)) (Some p) len h = Inr (r, h') \<and>
    r_success r = 1 \<and> stringValue (r_value r) = Some (Some a) \<and> blocks h' a = Some (ByteBlock b) \<and>
    c_string b = Inr (takeWhile (\<lambda>c. c \<noteq> 0) (take (nat len - 2) (drop 2 p)))"
proof -
  have ans: "answers (OBDIIMode9Commands ! 2) p len"
    using assms by (simp add: answers_def OBDIICommandGetMode_def OBDIICommandGetPID_def mode9_entries)
  show ?thesis
    using decode_vin_granted [OF assms(1-3,6), of "decoded (Mode9Command 2) ZeroBytes"]
      accept_vin(1) [OF _ refl assms(2) ans] by fastforce
qed

theorem decode_vin_witness:
  "\<exists>r h' a b. OBDIIDecodeResponseForCommand (Some (Mode9Command 2)) (Some [0x49, 0x02, 0x57, 0x56, 0x00]) 5 empty_heap
      = Inr (r, h') \<and>
    r_success r = 1 \<and> stringValue (r_value r) = Some (Some a) \<and> blocks h' a = Some (ByteBlock b) \<and>
    c_string b = Inr [0x57, 0x56]"
proof -
  let ?p = "[0x49, 0x02, 0x57, 0x56, 0x00] :: byte list"
  have vin: "takeWhile (\<lambda>c. c \<noteq> 0) (take (nat 5 - 2) (drop 2 ?p)) = [0x57, 0x56]" by simp
  show ?thesis by (rule decode_vin [of 5 ?p empty_heap, unfolded vin]) simp_all
qed

section \<open>Responses and commands\<close>

lemma mode9_index: "i < 3 \<Longrightarrow> c_payload (OBDIIMode9Commands ! i) = [9, of_nat i]"
  by (auto simp: less_Suc_eq numeral_3_eq_3 OBDIIMode9Commands_def)

lemma answers_header:
  assumes "deref ref = Inr c" "answers c p len"
  shows "(case ref of Mode1Command pid \<Rightarrow> p ! 0 = 0x41 \<and> pid < 79 \<and> p ! 1 = of_nat pid
    | Mode3Command \<Rightarrow> p ! 0 = 0x43 | Mode9Command pid \<Rightarrow> p ! 0 = 0x49 \<and> pid < 3 \<and> p ! 1 = of_nat pid)"
proof (cases ref)
  case (Mode1Command pid)
  with assms have "pid < 79" and c: "c = OBDIIMode1Commands ! pid" by (auto split: if_splits)
  with assms(2) have "uint (p ! 0) = 0x41 \<and> p ! 1 = of_nat pid"
    by (simp add: answers_def OBDIICommandGetMode_def OBDIICommandGetPID_def mode1_payload)
  then show ?thesis using \<open>pid < 79\<close> Mode1Command by (simp add: word_uint_eq_iff)
next
  case Mode3Command
  with assms show ?thesis
    by (auto simp: answers_def OBDIICommandGetMode_def mode3_entry word_uint_eq_iff)
next
  case (Mode9Command pid)
  with assms have "pid < 3" and c: "c = OBDIIMode9Commands ! pid" by (auto split: if_splits)
  with assms(2) have "uint (p ! 0) = 0x49 \<and> p ! 1 = of_nat pid"
    by (simp add: answers_def OBDIICommandGetMode_def OBDIICommandGetPID_def mode9_index)
  then show ?thesis using \<open>pid < 3\<close> Mode9Command by (simp add: word_uint_eq_iff)
qed

lemma of_nat_byte_inj: "i < 256 \<Longrightarrow> j < 256 \<Longrightarrow> (of_nat i :: byte) = of_nat j \<Longrightarrow> i = j"
  by (drule arg_cong [where f = unat]) (simp add: unsigned_of_nat take_bit_nat_eq_self)

text \<open>C32. No response is taken for the answer to the wrong command: a payload that
  \<open>OBDIIResponseSuccessful\<close> accepts for two commands of the library answers one and the same.\<close>

theorem response_identifies_command:
  assumes "deref ref = Inr c" "deref ref' = Inr c'" "len \<le> int (length p)" "len' \<le> int (length p)"
    and "OBDIIResponseSuccessful (Some c) (Some p) len = Inr 1"
    and "OBDIIResponseSuccessful (Some c') (Some p) len' = Inr 1"
  shows "ref = ref'"
proof -
  have ans: "answers c p len" "answers c' p len'"
    using assms(5,6) by (simp_all add: successful_iff_answers [OF assms(3)] successful_iff_answers [OF assms(4)]
      split: if_splits)
  from answers_header [OF assms(1) ans(1)] answers_header [OF assms(2) ans(2)] show ?thesis
    by (auto split: command_ref.splits dest: of_nat_byte_inj [rotated 2])
qed

theorem response_identifies_command_witness:
  "Mode9Command 0 = Mode9Command 0 \<and> OBDIIResponseSuccessful (Some (OBDIIMode9Commands ! 0))
     (Some [0x49, 0x00, 0xE0, 0x00, 0x00, 0x00]) 6 = Inr 1"
proof -
  have s: "OBDIIResponseSuccessful (Some (OBDIIMode9Commands ! 0)) (Some [0x49, 0x00, 0xE0, 0x00, 0x00, 0x00]) 6 = Inr 1"
    by (simp add: OBDIIResponseSuccessful_def OBDIIMode9Commands_def OBDIICommandGetMode_def Let_def
        VARIABLE_RESPONSE_LENGTH_def)
  from response_identifies_command [of "Mode9Command 0" _ "Mode9Command 0", OF _ _ _ _ s s] s show ?thesis by simp
qed

end
