(* ===== verification/Unit_Tests.thy ===== *)
theory Unit_Tests
  imports Decoding
begin

text \<open>
  The unit tests of the repository, \<open>tests/TestOBDII.c\<close>, as programs over the model: each gives the results
  of its assertions, and all of them hold.
\<close>

section \<open>The tests\<close>

definition SUCCESSFUL_RESPONSE_PREFIX :: "OBDIICommand \<Rightarrow> byte list" where
  "SUCCESSFUL_RESPONSE_PREFIX command = [c_payload command ! 0 + 0x40, c_payload command ! 1]"

text \<open>Reading a member of the union. The assertions of the forms \<open>HEX8\<close> and \<open>HEX16\<close> compare the low bits.\<close>

definition member :: "'a option \<Rightarrow> 'a outcome" where
  "member m = (case m of None \<Rightarrow> Inl InactiveMember | Some v \<Rightarrow> Inr v)"

definition TestBitfield :: "command_ref option \<Rightarrow> heap \<Rightarrow> (bool list \<times> heap) outcome" where
  "TestBitfield command h = obind (case command of None \<Rightarrow> Inl NullDeref | Some ref \<Rightarrow> deref ref) (\<lambda>c.
     let bitfieldLength = c_expectedResponseLength c - 2;
         exampleResponsePayload = SUCCESSFUL_RESPONSE_PREFIX c @ [0xA, 0xB, 0xC, 0xD] in
     obind (OBDIIDecodeResponseForCommand command (Some exampleResponsePayload) (c_expectedResponseLength c) h) (\<lambda>(response, h).
     obind (member (bitfieldValue (r_value response))) (\<lambda>v.
     obind (OBDIIResponseFree (Some response) h) (\<lambda>h.
     Inr ((r_success response \<noteq> 0) #
       (if bitfieldLength = 1 then [ucast v = (0x0A :: 8 word)]
        else if bitfieldLength = 2 then [ucast v = (0x0A0B :: 16 word)]
        else if bitfieldLength = 4 then [v = 0x0A0B0C0D] else []), h)))))"

definition bitfield_tests :: "command_ref option list" where
  "bitfield_tests = [mode1SupportedPIDs_1_to_20 OBDIICommands, monitorStatus OBDIICommands, fuelSystemStatus OBDIICommands,
     commandedSecondaryAirStatus OBDIICommands, oxygenSensorsPresentIn2Banks OBDIICommands, conformingStandards OBDIICommands,
     oxygenSensorsPresentIn4Banks OBDIICommands, auxiliaryInputStatus OBDIICommands, mode1SupportedPIDs_21_to_40 OBDIICommands,
     mode1SupportedPIDs_41_to_60 OBDIICommands, currentDriveCycleMonitorStatus OBDIICommands, mode9SupportedPIDs OBDIICommands]"

text \<open>\<open>TEST_ASSERT_EQUAL_STRING\<close> on the row \<open>i\<close> of the trouble codes.\<close>

definition equal_string :: "string \<Rightarrow> addr option \<Rightarrow> nat \<Rightarrow> heap \<Rightarrow> bool outcome" where
  "equal_string expected p i h = (case p of None \<Rightarrow> Inl NullDeref | Some a \<Rightarrow> (case blocks h a of
     Some (ByteBlock bs) \<Rightarrow> obind (c_string (drop (6 * i) bs)) (\<lambda>s. Inr (s = map of_char expected)) | _ \<Rightarrow> Inl DanglingPointer))"

definition TestDTCs :: "heap \<Rightarrow> (bool list \<times> heap) outcome" where
  "TestDTCs h = obind (case DTCs OBDIICommands of None \<Rightarrow> Inl NullDeref | Some ref \<Rightarrow> deref ref) (\<lambda>c.
     obind (OBDIIDecodeResponseForCommand (DTCs OBDIICommands)
       (Some (SUCCESSFUL_RESPONSE_PREFIX c @ [0x38, 0xAB, 0xE0, 0xFC, 0x57, 0xDE])) 8 h) (\<lambda>(response, h).
     obind (member (numTroubleCodes (r_value response))) (\<lambda>n.
     obind (member (troubleCodes (r_value response))) (\<lambda>p.
     obind (equal_string ''P38AB'' p 0 h) (\<lambda>first.
     obind (equal_string ''U20FC'' p 1 h) (\<lambda>second.
     obind (equal_string ''C17DE'' p 2 h) (\<lambda>third.
     obind (OBDIIResponseFree (Some response) h) (\<lambda>h.
     Inr ([r_success response \<noteq> 0, n = 3, first, second, third], h)))))))))"

section \<open>They pass\<close>

lemma bitfield_commands: "bitfield_tests =
    map (\<lambda>i. Some (Mode1Command i)) [0, 1, 3, 0x12, 0x13, 0x1C, 0x1D, 0x1E, 0x20, 0x40, 0x41] @ [Some (Mode9Command 0)]"
  by (simp add: bitfield_tests_def OBDIICommands_def)

lemma bitfield_tests_pass:
  "command \<in> set bitfield_tests \<Longrightarrow> \<exists>checks. TestBitfield command h = Inr (checks, h) \<and> (\<forall>ok \<in> set checks. ok)"
  unfolding bitfield_commands
  by (auto simp: TestBitfield_def member_def OBDIIMode1Commands_def OBDIIMode9Commands_def SUCCESSFUL_RESPONSE_PREFIX_def
    OBDIIResponseFree_def OBDIIDecodeResponseForCommand_def OBDIIResponseSuccessful_def OBDIICommandGetMode_def
    OBDIIDecodeBitfield_def OBDIIDecodeSingleByteBitfield_def OBDIIDecodeTwoByteBitfield_def with_byte_def with_bytes_def
    put_bitfield_def zero_response_def OBDIICommands_def)

lemma dtc_test_passes:
  assumes "heap_ok h" "grants h (next_addr h)"
  shows "\<exists>h'. TestDTCs h = Inr ([True, True, True, True, True], h') \<and> blocks h' = blocks h"
proof -
  let ?p = "[0x43, 0, 0x38, 0xAB, 0xE0, 0xFC, 0x57, 0xDE] :: byte list" and ?a = "next_addr h"
  let ?bs = "map Some (dtc_array ?p 0 3)"
  let ?h = "h\<lparr>blocks := (blocks h)(?a := Some (ByteBlock ?bs)), next_addr := Suc ?a\<rparr>"
  have "answers OBDIIMode3Command ?p 8" by (simp add: answers_def OBDIICommandGetMode_def mode3_entry)
  then have run: "OBDIIDecodeResponseForCommand (Some Mode3Command) (Some ?p) 8 h = Inr (decoded Mode3Command (DTCsValue (Some ?a) 3), ?h)"
    using decode_dtcs_granted [of 8 ?p h] assms(2) by (subst accept_dtcs) simp_all
  have string: "equal_string s (Some ?a) i ?h = Inr True" if "i < 3" "dtc_name (?p ! (2 + 2 * i)) (?p ! (3 + 2 * i)) = s" for s i
    using that dtc_array_string [of i 3 ?p] by (simp add: equal_string_def)
  from free_fresh [OF assms, of ?h] obtain h' where "mfree ?a ?h = Inr h'" "blocks h' = blocks h" by auto
  moreover have "SUCCESSFUL_RESPONSE_PREFIX OBDIIMode3Command = [0x43, 0]" by (simp add: SUCCESSFUL_RESPONSE_PREFIX_def mode3_entry)
  ultimately show ?thesis
    using string [of 0] string [of 1] string [of 2]
    by (simp add: TestDTCs_def OBDIICommands_def run member_def free_codes codes_of_example)
qed

end
