(* ===== verification/Command_Set.thy ===== *)
theory Command_Set
  imports Decoding
begin

text \<open>
  Command sets: the bitmaps of supported PIDs, \<open>OBDIICommandSetContainsCommand\<close> of \<open>src/OBDII.c\<close>,
  and \<open>_BitsSet\<close> and \<open>OBDIICommandSetFree\<close> of \<open>src/OBDIICommunication.c\<close>.
\<close>

section \<open>The functions\<close>

record OBDIICommandSet =
  pids_1_to_20 :: u32
  pids_21_to_40 :: u32
  pids_41_to_60 :: u32
  pids_61_to_80 :: u32
  mode9_pids :: u32
  numCommands :: int
  commands :: "addr option"

text \<open>\<open>!!(word & (1 << n))\<close>: the shift is undefined for an amount outside the type. For \<open>n = 31\<close> the
  literal \<open>1\<close> of type \<open>int\<close> is shifted into its sign bit, which ISO C leaves undefined as well; GCC and
  Clang document that such a shift gives the bit pattern, and that is what the definition has. PIDs 1,
  0x21 and 0x41 of mode 1 and PID 1 of mode 9 need it.\<close>

definition bit_test :: "u32 \<Rightarrow> int \<Rightarrow> int outcome" where
  "bit_test w n = (if 0 \<le> n \<and> n < 32 then Inr (if w AND push_bit (nat n) 1 \<noteq> 0 then 1 else 0)
     else Inl BadShift)"

definition OBDIICommandSetContainsCommand :: "OBDIICommandSet option \<Rightarrow> OBDIICommand option \<Rightarrow> int outcome" where
  "OBDIICommandSetContainsCommand commandSet command = (case (commandSet, command) of
     (Some cs, Some c) \<Rightarrow>
       let mode = OBDIICommandGetMode c in
       if mode = 0x01 then
         (let pid = uint (OBDIICommandGetPID c) in
          if pid = 0x00 then Inr 1
          else if pid \<le> 0x20 then bit_test (pids_1_to_20 cs) (0x20 - pid)
          else if pid \<le> 0x40 then bit_test (pids_21_to_40 cs) (0x40 - pid)
          else if pid \<le> 0x60 then bit_test (pids_41_to_60 cs) (0x60 - pid)
          else bit_test (pids_61_to_80 cs) (0x80 - pid))
       else if mode = 0x09 then
         (let pid = uint (OBDIICommandGetPID c) in
          if pid = 0x00 then Inr 1
          else bit_test (mode9_pids cs) (0x20 - pid))
       else Inr 0
   | _ \<Rightarrow> Inr 0)"

text \<open>Kernighan's loop; it ends because clearing a bit makes the word smaller.\<close>

lemma clear_lowest_less: "w \<noteq> 0 \<Longrightarrow> unat (w AND (w - 1)) < unat (w :: u32)"
proof -
  assume "w \<noteq> 0"
  have "unat (w AND (w - 1)) \<le> unat (w - 1)" using word_and_le1 [of w "w - 1"] by (simp add: word_le_nat_alt)
  also have "\<dots> < unat w" using \<open>w \<noteq> 0\<close> by (simp add: unat_minus_one unat_gt_0)
  finally show ?thesis .
qed

function BitsSet_from :: "u32 \<Rightarrow> u32 \<Rightarrow> u32" where
  "BitsSet_from word c = (if word \<noteq> 0 then BitsSet_from (word AND (word - 1)) (c + 1) else c)"
  by auto
termination
  by (relation "measure (\<lambda>(word, c). unat word)") (auto simp: clear_lowest_less)

declare BitsSet_from.simps [simp del]

definition BitsSet :: "u32 \<Rightarrow> u32" where
  "BitsSet word = BitsSet_from word 0"

definition OBDIICommandSetFree :: "OBDIICommandSet option \<Rightarrow> heap \<Rightarrow> heap outcome" where
  "OBDIICommandSetFree commandSet h = (case commandSet of None \<Rightarrow> Inr h
     | Some cs \<Rightarrow> (case commands cs of None \<Rightarrow> Inr h | Some a \<Rightarrow> mfree a h))"

section \<open>Counting bits\<close>

text \<open>The number of ones of a word.\<close>

definition ones :: "u32 \<Rightarrow> nat" where
  "ones w = length (filter (bit w) [0..<32])"

fun pop :: "nat \<Rightarrow> nat" where
  "pop n = (if n = 0 then 0 else n mod 2 + pop (n div 2))"

declare pop.simps [simp del]

lemma pop_0 [simp]: "pop 0 = 0"
  by (simp add: pop.simps)

lemma pop_double: "pop (2 * n) = pop n" "pop (Suc (2 * n)) = Suc (pop n)"
  by (cases "n = 0", simp_all add: pop.simps [of "2 * n"] pop.simps [of "Suc (2 * n)"])

lemma and_double:
  "(2 * a) AND Suc (2 * b) = 2 * (a AND b)" "Suc (2 * a) AND (2 * b) = 2 * (a AND b)" for a b :: nat
  by (subst and_rec, simp)+

lemma pop_clear_lowest: "n \<noteq> 0 \<Longrightarrow> Suc (pop (n AND (n - 1))) = pop n"
proof (induction n rule: less_induct)
  case (less n)
  show ?case
  proof (cases "even n")
    case True
    then obtain m where m: "n = 2 * m" by blast
    then have "m \<noteq> 0" "m < n" using less.prems by auto
    then have "n - 1 = Suc (2 * (m - 1))" unfolding m by arith
    then have "n AND (n - 1) = 2 * (m AND (m - 1))" unfolding m by (simp only: and_double)
    then show ?thesis using less.IH [OF \<open>m < n\<close> \<open>m \<noteq> 0\<close>] by (simp add: m pop_double)
  next
    case False
    then obtain m where m: "n = Suc (2 * m)" by (metis oddE Suc_eq_plus1)
    have "n AND (n - 1) = 2 * m" unfolding m diff_Suc_1 and_double by simp
    then show ?thesis by (simp add: m pop_double)
  qed
qed

lemma pop_bits: "n < 2 ^ k \<Longrightarrow> pop n = length (filter (bit n) [0..<k])"
proof (induction k arbitrary: n)
  case (Suc k)
  have "pop n = n mod 2 + pop (n div 2)" by (cases "n = 0") (simp_all add: pop.simps [of n])
  also have "pop (n div 2) = length (filter (bit (n div 2)) [0..<k])" using Suc by simp
  also have "\<dots> = length (filter (bit n) (map Suc [0..<k]))"
    by (simp add: filter_map o_def bit_Suc)
  also have "n mod 2 + \<dots> = length (filter (bit n) (0 # map Suc [0..<k]))"
    by (simp add: bit_0 odd_iff_mod_2_eq_one)
  also have "0 # map Suc [0..<k] = [0..<Suc k]" using upt_conv_Cons [of 0 "Suc k"] by (simp add: map_Suc_upt)
  finally show ?case .
qed simp

lemma BitsSet_from_pop: "BitsSet_from w c = c + of_nat (pop (unat w))"
proof (induction w c rule: BitsSet_from.induct)
  case (1 w c)
  show ?case
  proof (cases "w = 0")
    case False
    have "unat (w AND (w - 1)) = unat w AND (unat w - 1)"
      using False by (simp add: unsigned_and_eq unat_minus_one)
    moreover have "unat w \<noteq> 0" using False by (simp add: unat_eq_zero)
    ultimately have "Suc (pop (unat (w AND (w - 1)))) = pop (unat w)" using pop_clear_lowest by simp
    then show ?thesis using 1 [OF False] False
      by (simp add: BitsSet_from.simps [of w] flip: \<open>Suc _ = _\<close>)
  qed (simp add: BitsSet_from.simps [of 0])
qed

lemma pop_ones: "pop (unat w) = ones w"
  using pop_bits [of "unat w" 32] unsigned_less [of w] by (simp add: ones_def bit_unsigned_iff cong: filter_cong)

lemma ones_le: "ones w \<le> 32"
  unfolding ones_def using length_filter_le [of "bit w" "[0..<32]"] by simp

lemma BitsSet_ones: "BitsSet w = of_nat (ones w)"
  by (simp add: BitsSet_def BitsSet_from_pop pop_ones)

text \<open>C35. Kernighan's loop ends and counts the ones of its argument.\<close>

theorem BitsSet_counts: "unat (BitsSet w) = length (filter (bit w) [0..<32])"
  using ones_le [of w] by (simp add: BitsSet_ones unsigned_of_nat take_bit_nat_eq_self flip: ones_def)

section \<open>Membership\<close>

lemma bit_test_bit: "0 \<le> n \<Longrightarrow> n < 32 \<Longrightarrow> bit_test w n = Inr (if bit w (nat n) then 1 else 0)"
  by (simp add: bit_test_def bit_iff_and_push_bit_not_eq_0)

text \<open>
  The PID bitmaps as the standard defines them: the most significant bit of the first word is PID 1,
  32 PIDs to a word; PID 0 is always there.
\<close>

definition mode1_words :: "OBDIICommandSet \<Rightarrow> u32 list" where
  "mode1_words cs = [pids_1_to_20 cs, pids_21_to_40 cs, pids_41_to_60 cs, pids_61_to_80 cs]"

fun supports :: "OBDIICommandSet \<Rightarrow> command_ref \<Rightarrow> bool" where
  "supports cs (Mode1Command pid) \<longleftrightarrow>
     pid = 0 \<or> bit (mode1_words cs ! ((pid - 1) div 32)) (31 - (pid - 1) mod 32)"
| "supports cs (Mode9Command pid) \<longleftrightarrow> pid = 0 \<or> bit (mode9_pids cs) (32 - pid)"
| "supports cs Mode3Command \<longleftrightarrow> False"

lemma pid_position:
  "0 < pid \<Longrightarrow> pid \<le> 32 \<Longrightarrow> (pid - 1) div 32 = 0 \<and> 31 - (pid - 1) mod 32 = 32 - pid"
  "32 < pid \<Longrightarrow> pid \<le> 64 \<Longrightarrow> (pid - 1) div 32 = 1 \<and> 31 - (pid - 1) mod 32 = 64 - pid"
  "64 < pid \<Longrightarrow> pid \<le> 96 \<Longrightarrow> (pid - 1) div 32 = 2 \<and> 31 - (pid - 1) mod 32 = 96 - pid"
  for pid :: nat
proof -
  have d: "(pid - 1) mod 32 = pid - 1 - k * 32 \<and> (pid - 1) div 32 = k" if "k * 32 < pid" "pid \<le> k * 32 + 32" for k
  proof -
    have "pid - 1 = (pid - 1 - k * 32) + k * 32" "pid - 1 - k * 32 < 32" using that by auto
    then show ?thesis by (metis add.commute div_less div_mult_self1 mod_less mod_mult_self1
        Nat.add_0_right zero_neq_numeral)
  qed
  show "0 < pid \<Longrightarrow> pid \<le> 32 \<Longrightarrow> (pid - 1) div 32 = 0 \<and> 31 - (pid - 1) mod 32 = 32 - pid"
    "32 < pid \<Longrightarrow> pid \<le> 64 \<Longrightarrow> (pid - 1) div 32 = 1 \<and> 31 - (pid - 1) mod 32 = 64 - pid"
    "64 < pid \<Longrightarrow> pid \<le> 96 \<Longrightarrow> (pid - 1) div 32 = 2 \<and> 31 - (pid - 1) mod 32 = 96 - pid"
    using d [of 0] d [of 1] d [of 2] by auto
qed

lemma contains_mode1:
  assumes "pid < 79"
  shows "OBDIICommandSetContainsCommand (Some cs) (Some (OBDIIMode1Commands ! pid)) =
    Inr (if supports cs (Mode1Command pid) then 1 else 0)"
proof -
  have p: "uint (of_nat pid :: byte) = int pid"
    using assms by (simp add: uint_nat unsigned_of_nat take_bit_nat_eq_self)
  have b: "bit_test w (k - int pid) = Inr (if bit w (nat k - pid) then 1 else 0)"
    if "int pid \<le> k" "k < int pid + 32" for w k
    using that by (subst bit_test_bit) (simp_all add: nat_diff_distrib)
  consider "pid = 0" | "0 < pid" "pid \<le> 32" | "32 < pid" "pid \<le> 64" | "64 < pid" using assms by linarith
  then show ?thesis
  proof cases
    case 2
    then show ?thesis using pid_position(1) [OF 2] b [of 32]
      by (simp add: OBDIICommandSetContainsCommand_def mode1_payload assms OBDIICommandGetMode_def
          OBDIICommandGetPID_def p mode1_words_def Let_def)
  next
    case 3
    then show ?thesis using pid_position(2) [OF 3] b [of 64]
      by (simp add: OBDIICommandSetContainsCommand_def mode1_payload assms OBDIICommandGetMode_def
          OBDIICommandGetPID_def p mode1_words_def Let_def)
  next
    case 4
    then show ?thesis using pid_position(3) [OF 4] b [of 96] assms
      by (simp add: OBDIICommandSetContainsCommand_def mode1_payload OBDIICommandGetMode_def
          OBDIICommandGetPID_def p mode1_words_def Let_def)
  qed (simp add: OBDIICommandSetContainsCommand_def mode1_payload OBDIICommandGetMode_def
      OBDIICommandGetPID_def Let_def)
qed

lemma contains_mode9:
  "i < 3 \<Longrightarrow> OBDIICommandSetContainsCommand (Some cs) (Some (OBDIIMode9Commands ! i)) =
    Inr (if supports cs (Mode9Command i) then 1 else 0)"
proof -
  assume "i < 3"
  then consider "i = 0" | "i = 1" | "i = 2" by linarith
  then show ?thesis
    by cases (simp_all add: OBDIICommandSetContainsCommand_def OBDIICommandGetMode_def mode9_entries
        OBDIICommandGetPID_def Let_def bit_test_bit del: One_nat_def)
qed

lemma contains_member:
  assumes "deref ref = Inr c"
  shows "OBDIICommandSetContainsCommand (Some cs) (Some c) = Inr (if supports cs ref then 1 else 0)"
proof (cases ref)
  case (Mode1Command pid)
  then show ?thesis using assms contains_mode1 by (auto split: if_splits)
next
  case Mode3Command
  then show ?thesis using assms
    by (auto simp: OBDIICommandSetContainsCommand_def OBDIICommandGetMode_def OBDIIMode3Command_def Let_def)
next
  case (Mode9Command i)
  then show ?thesis using assms contains_mode9 by (auto split: if_splits)
qed

text \<open>C33. For the commands of mode 1 and mode 9, membership in a command set is decided by the bit the
  standard assigns to the command's PID, in the right word and counted from the most significant bit;
  PID 0 is always a member. (The compiler is assumed to give \<open>1 << 31\<close> its bit pattern; the trouble code
  command, which has no bit, is treated in the theory \<open>Supported\<close>.)\<close>

theorem contains_iff_supported:
  assumes "deref ref = Inr c" "ref \<noteq> Mode3Command"
  shows "OBDIICommandSetContainsCommand (Some cs) (Some c) = Inr (if supports cs ref then 1 else 0)"
  using assms(1) by (rule contains_member)

theorem contains_iff_supported_witness:
  "OBDIICommandSetContainsCommand (Some \<lparr>pids_1_to_20 = 0x00100000, pids_21_to_40 = 0, pids_41_to_60 = 0,
     pids_61_to_80 = 0, mode9_pids = 0, numCommands = 0, commands = None\<rparr>) (Some (OBDIIMode1Commands ! 12)) = Inr 1"
proof -
  have m: "deref (Mode1Command 12) = Inr (OBDIIMode1Commands ! 12)" by (rule mode1_deref) simp
  have "Mode1Command 12 \<noteq> Mode3Command" by simp
  from contains_iff_supported [OF m this] show ?thesis by (simp add: mode1_words_def)
qed

end
