(* ===== verification/World.thy ===== *)
theory World
  imports Memory
begin

text \<open>
  System calls. The code under verification reaches the kernel, the CAN bus and the other process
  through system calls, which are not part of the repository: a world holds a function \<open>respond\<close> that
  answers a call given all earlier calls and answers, and the theorems hold for every such function.
  A call and its answer are appended to \<open>history\<close>, so that the order of effects can be stated. The
  arguments of \<open>Select\<close> are the number of descriptors, the one descriptor of the read set, and the
  seconds and microseconds of the timeout.
\<close>

datatype lock_op = LOCK_EX | LOCK_UN

datatype call =
    Flock int lock_op
  | Write int "byte list"
  | Select int int int int
  | Read int nat
  | Close int
  | SocketUnix
  | SocketIsotp
  | BindUnix int string
  | BindCan int u32 u32 u32
  | Connect int string
  | Unlink string
  | Getpid
  | IfNameToIndex string
  | Send int "byte list"
  | Recv int nat
  | RecvMsg int
  | RecvFrom int nat
  | SendTo int string "byte list"
  | SendMsg int string int
  | Fgets nat
  | Print string
  | Nanosleep int int
  | Sigaction
  | Sigint
  | Fopen string

text \<open>
  What comes back: the return value, \<open>errno\<close>, the bytes stored in the caller's buffer, the
  descriptor in the ancillary data, and the address of the sender.
\<close>

record reply =
  ret :: int
  err :: int
  bytes :: "byte list"
  passed_fd :: "int option"
  peer :: string

type_synonym history = "(call \<times> reply) list"

text \<open>A reply that only has a return value.\<close>

definition returns :: "int \<Rightarrow> reply" where
  "returns n = \<lparr>ret = n, err = 0, bytes = [], passed_fd = None, peer = ''''\<rparr>"

text \<open>
  The documented behaviour of the calls that fill a buffer: the return value is \<open>-1\<close> or the number of
  bytes stored, at most the size of the buffer.
\<close>

definition kernel :: "(history \<Rightarrow> call \<Rightarrow> reply) \<Rightarrow> bool" where
  "kernel respond \<longleftrightarrow> (\<forall>hist fd n call. call \<in> {Read fd n, Recv fd n, RecvFrom fd n} \<longrightarrow>
     ret (respond hist call) \<le> int n \<and> length (bytes (respond hist call)) = nat (ret (respond hist call)))"

lemma kernel_read:
  "kernel respond \<Longrightarrow> ret (respond hist (Read fd n)) \<le> int n"
  "kernel respond \<Longrightarrow> length (bytes (respond hist (Read fd n))) = nat (ret (respond hist (Read fd n)))"
  unfolding kernel_def by blast+

section \<open>The world\<close>

text \<open>A process: its heap of objects of type \<open>'b\<close>, its global variables, and its calls.\<close>

record ('b, 'g) world_of =
  w_heap :: "'b heap_of"
  globals :: 'g
  history :: history
  respond :: "history \<Rightarrow> call \<Rightarrow> reply"

text \<open>The client library and the command line tool have byte blocks and pointer arrays on their heap, and
  two variables: the static \<open>daemonSocket\<close> of the library and the flag \<open>interrupted\<close> of the tool.\<close>

record client_globals =
  daemonSocket :: int
  interrupted :: int

text \<open>Before \<open>main\<close>: \<open>static int daemonSocket = -1\<close> and \<open>int interrupted = 0\<close>.\<close>

definition initial_globals :: client_globals where
  "initial_globals = \<lparr>daemonSocket = - 1, interrupted = 0\<rparr>"

lemma initial_globals_simps [simp]: "daemonSocket initial_globals = - 1" "interrupted initial_globals = 0"
  by (simp_all add: initial_globals_def)

type_synonym world = "(block, client_globals) world_of"

definition calls :: "('b, 'g) world_of \<Rightarrow> call list" where
  "calls w = map fst (history w)"

type_synonym ('b, 'g, 'a) io_of = "('b, 'g) world_of \<Rightarrow> ('a \<times> ('b, 'g) world_of) outcome"

type_synonym 'a io = "(block, client_globals, 'a) io_of"

definition io_return :: "'a \<Rightarrow> ('b, 'g, 'a) io_of" where
  "io_return a w = Inr (a, w)"

definition io_bind :: "('b, 'g, 'a) io_of \<Rightarrow> ('a \<Rightarrow> ('b, 'g, 'c) io_of) \<Rightarrow> ('b, 'g, 'c) io_of" where
  "io_bind m f w = obind (m w) (\<lambda>(a, w). f a w)"

definition io_lift :: "'a outcome \<Rightarrow> ('b, 'g, 'a) io_of" where
  "io_lift m w = obind m (\<lambda>a. Inr (a, w))"

definition syscall :: "call \<Rightarrow> ('b, 'g, reply) io_of" where
  "syscall c w = (let r = respond w (history w) c in Inr (r, w\<lparr>history := history w @ [(c, r)]\<rparr>))"

definition on_heap :: "('b heap_of \<Rightarrow> ('a \<times> 'b heap_of) outcome) \<Rightarrow> ('b, 'g, 'a) io_of" where
  "on_heap f w = obind (f (w_heap w)) (\<lambda>(a, h). Inr (a, w\<lparr>w_heap := h\<rparr>))"

definition get_globals :: "('b, 'g, 'g) io_of" where
  "get_globals w = Inr (globals w, w)"

definition set_globals :: "'g \<Rightarrow> ('b, 'g, unit) io_of" where
  "set_globals g w = Inr ((), w\<lparr>globals := g\<rparr>)"

text \<open>The variables of the client.\<close>

definition get_daemonSocket :: "int io" where
  "get_daemonSocket w = Inr (daemonSocket (globals w), w)"

definition set_daemonSocket :: "int \<Rightarrow> unit io" where
  "set_daemonSocket s w = Inr ((), w\<lparr>globals := (globals w)\<lparr>daemonSocket := s\<rparr>\<rparr>)"

definition get_interrupted :: "int io" where
  "get_interrupted w = Inr (interrupted (globals w), w)"

definition set_interrupted :: "int \<Rightarrow> unit io" where
  "set_interrupted i w = Inr ((), w\<lparr>globals := (globals w)\<lparr>interrupted := i\<rparr>\<rparr>)"

named_theorems io_simps "running a sequence of system calls"

section \<open>Running calls\<close>

text \<open>The world after a list of calls was made, whatever their answers.\<close>

fun run_calls :: "call list \<Rightarrow> ('b, 'g) world_of \<Rightarrow> ('b, 'g) world_of" where
  "run_calls [] w = w"
| "run_calls (c # cs) w = run_calls cs (w\<lparr>history := history w @ [(c, respond w (history w) c)]\<rparr>)"

lemma run_calls_append [simp]: "run_calls cs (run_calls bs w) = run_calls (bs @ cs) w"
  by (induction bs arbitrary: w) simp_all

lemma run_calls_frame [simp]: "w_heap (run_calls cs w) = w_heap w"
  "globals (run_calls cs w) = globals w" "respond (run_calls cs w) = respond w"
  by (induction cs arbitrary: w) simp_all

lemma calls_run_calls [simp]: "calls (run_calls cs w) = calls w @ cs"
  by (induction cs arbitrary: w) (simp_all add: calls_def)

declare run_calls.simps(2) [simp del]

lemma run_return [io_simps]: "io_return a w = Inr (a, w)"
  by (simp add: io_return_def)

lemma run_syscall [io_simps]: "syscall c w = Inr (respond w (history w) c, run_calls [c] w)"
  by (simp add: syscall_def Let_def run_calls.simps)

lemma run_bind_syscall [io_simps]: "io_bind (syscall c) f w = f (respond w (history w) c) (run_calls [c] w)"
  by (simp add: io_bind_def run_syscall)

lemma run_bind_return [io_simps]: "io_bind (io_return a) f w = f a w"
  by (simp add: io_bind_def io_return_def)

lemma run_bind_lift [io_simps]: "io_bind (io_lift m) f w = obind m (\<lambda>a. f a w)"
  by (cases m) (simp_all add: io_bind_def io_lift_def)

lemma run_bind_globals [io_simps]:
  "io_bind get_globals f w = f (globals w) w"
  "io_bind (set_globals g) f' w = f' () (w\<lparr>globals := g\<rparr>)"
  by (simp_all add: io_bind_def get_globals_def set_globals_def)

lemma run_bind_client [io_simps]:
  "io_bind get_daemonSocket f w = f (daemonSocket (globals w)) w"
  "io_bind (set_daemonSocket s) f' w = f' () (w\<lparr>globals := (globals w)\<lparr>daemonSocket := s\<rparr>\<rparr>)"
  "io_bind get_interrupted f w = f (interrupted (globals w)) w"
  "io_bind (set_interrupted i) f' w = f' () (w\<lparr>globals := (globals w)\<lparr>interrupted := i\<rparr>\<rparr>)"
  by (simp_all add: io_bind_def get_daemonSocket_def set_daemonSocket_def get_interrupted_def set_interrupted_def)

lemma run_bind_on_heap [io_simps]:
  "io_bind (on_heap f) g w = obind (f (w_heap w)) (\<lambda>(a, h). g a (w\<lparr>w_heap := h\<rparr>))"
  by (cases "f (w_heap w)") (auto simp: io_bind_def on_heap_def)

lemma run_bind_assoc [io_simps]: "io_bind (io_bind m f) g w = io_bind m (\<lambda>a. io_bind (f a) g) w"
  by (cases "m w") (auto simp: io_bind_def)

lemma bind_run: "m w = Inr (a, w') \<Longrightarrow> io_bind m f w = f a w'"
  by (simp add: io_bind_def)

section \<open>Which calls a program makes\<close>

text \<open>Whenever the program returns, it has added only calls of the given kind to the history, and the
  kernel is the same.\<close>

definition makes :: "(call \<Rightarrow> bool) \<Rightarrow> ('b, 'g, 'a) io_of \<Rightarrow> bool" where
  "makes P m \<longleftrightarrow> (\<forall>w a w'. m w = Inr (a, w') \<longrightarrow>
     (\<exists>hist. history w' = history w @ hist \<and> (\<forall>(c, r) \<in> set hist. P c) \<and> respond w' = respond w))"

named_theorems makes_intros "calls of composed programs"

lemma makes_bind [makes_intros]: "makes P m \<Longrightarrow> (\<And>a. makes P (f a)) \<Longrightarrow> makes P (io_bind m f)"
  unfolding makes_def io_bind_def by (fastforce simp: obind_eq_Inr)

lemma makes_basic [makes_intros]:
  "makes P (io_return a)" "makes P (io_lift r)" "makes P (on_heap g)" "makes P get_globals" "makes P (set_globals v)"
  "makes P get_daemonSocket" "makes P (set_daemonSocket s)" "makes P get_interrupted" "makes P (set_interrupted i)"
  by (auto simp: makes_def io_return_def io_lift_def on_heap_def get_globals_def set_globals_def obind_eq_Inr
      get_daemonSocket_def set_daemonSocket_def get_interrupted_def set_interrupted_def)

lemma makes_syscall [makes_intros]: "P c \<Longrightarrow> makes P (syscall c)"
  by (simp add: makes_def syscall_def Let_def)

lemma makes_cases [makes_intros]:
  "(b \<Longrightarrow> makes P m) \<Longrightarrow> (\<not> b \<Longrightarrow> makes P m') \<Longrightarrow> makes P (if b then m else m')"
  "makes P m \<Longrightarrow> (\<And>a. makes P (f a)) \<Longrightarrow> makes P (case found of None \<Rightarrow> m | Some a \<Rightarrow> f a)"
  "(\<And>a b. makes P (g a b)) \<Longrightarrow> makes P (case x of (a, b) \<Rightarrow> g a b)"
  by (auto split: option.split prod.split)

end
