(* ===== verification/Query.thy ===== *)
theory Query
  imports Command_Set World
begin

text \<open>
  \<open>OBDIIPerformQuery\<close> of \<open>src/OBDIICommunication.c\<close>: lock the socket if it is shared, write the request,
  wait at most one second, read the response, unlock, decode.
\<close>

section \<open>The functions\<close>

definition MAX_ISOTP_PAYLOAD :: int where "MAX_ISOTP_PAYLOAD = 4095"

record OBDIISocket =
  sock :: int
  shared :: u16
  ifindex :: u32
  tid :: u32
  rid :: u32

definition LockIfNecessary :: "OBDIISocket option \<Rightarrow> int io" where
  "LockIfNecessary socket = (case socket of None \<Rightarrow> io_return 0
     | Some so \<Rightarrow> if shared so \<noteq> 0 then io_bind (syscall (Flock (sock so) LOCK_EX)) (\<lambda>r. io_return (ret r))
         else io_return 0)"

definition UnlockIfNecessary :: "OBDIISocket option \<Rightarrow> int io" where
  "UnlockIfNecessary socket = (case socket of None \<Rightarrow> io_return 0
     | Some so \<Rightarrow> if shared so \<noteq> 0 then io_bind (syscall (Flock (sock so) LOCK_UN)) (\<lambda>r. io_return (ret r))
         else io_return 0)"

text \<open>\<open>FD_SET\<close> writes a bit of a 1024-bit array.\<close>

definition FD_SET :: "int \<Rightarrow> unit outcome" where
  "FD_SET fd = (if 0 \<le> fd \<and> fd < 1024 then Inr () else Inl OutOfBounds)"

definition OBDIIPerformQuery :: "OBDIISocket option \<Rightarrow> command_ref option \<Rightarrow> OBDIIResponse io" where
  "OBDIIPerformQuery socket command =
    (let response = zero_response\<lparr>r_command := command\<rparr>;
         give_up = io_bind (UnlockIfNecessary socket) (\<lambda>_. io_return response)
     in case socket of None \<Rightarrow> io_return response | Some so \<Rightarrow>
       io_bind (LockIfNecessary socket) (\<lambda>_.
       io_bind (io_lift (case command of None \<Rightarrow> Inl NullDeref | Some ref \<Rightarrow> deref ref)) (\<lambda>c.
       io_bind (syscall (Write (sock so) (c_payload c))) (\<lambda>retval.
       if ret retval < 0 \<or> ret retval \<noteq> int (length (c_payload c)) then give_up
       else io_bind (io_lift (FD_SET (sock so))) (\<lambda>_.
       io_bind (syscall (Select (sock so + 1) (sock so) 1 0)) (\<lambda>ready.
       if ret ready \<le> 0 then give_up
       else let responseLength = (if c_expectedResponseLength c = VARIABLE_RESPONSE_LENGTH
                  then MAX_ISOTP_PAYLOAD else c_expectedResponseLength c)
       in io_bind (syscall (Read (sock so) (nat responseLength))) (\<lambda>retval.
       if ret retval < 0 \<or> (c_expectedResponseLength c \<noteq> VARIABLE_RESPONSE_LENGTH
            \<and> ret retval \<noteq> c_expectedResponseLength c) then give_up
       else io_bind (UnlockIfNecessary socket) (\<lambda>_.
         on_heap (OBDIIDecodeResponseForCommand command (Some (bytes retval)) (ret retval))))))))))"

section \<open>The calls of a query\<close>

definition lock_calls :: "OBDIISocket \<Rightarrow> call list" where
  "lock_calls so = (if shared so \<noteq> 0 then [Flock (sock so) LOCK_EX] else [])"

definition unlock_calls :: "OBDIISocket \<Rightarrow> call list" where
  "unlock_calls so = (if shared so \<noteq> 0 then [Flock (sock so) LOCK_UN] else [])"

lemma run_lock [io_simps]:
  "io_bind (LockIfNecessary (Some so)) (\<lambda>_. m) w = m (run_calls (lock_calls so) w)"
  by (simp add: LockIfNecessary_def lock_calls_def io_simps)

lemma run_unlock [io_simps]:
  "io_bind (UnlockIfNecessary (Some so)) (\<lambda>_. m) w = m (run_calls (unlock_calls so) w)"
  by (simp add: UnlockIfNecessary_def unlock_calls_def io_simps)

text \<open>The calls up to and including the read of the response.\<close>

definition buffer_size :: "OBDIICommand \<Rightarrow> nat" where
  "buffer_size c = (if c_expectedResponseLength c = 0 then 4095 else nat (c_expectedResponseLength c))"

definition exchange :: "OBDIISocket \<Rightarrow> OBDIICommand \<Rightarrow> call list" where
  "exchange so c = [Write (sock so) (c_payload c), Select (sock so + 1) (sock so) 1 0, Read (sock so) (buffer_size c)]"

text \<open>The answer to the read at the end of an exchange that went well up to there.\<close>

definition received :: "OBDIISocket \<Rightarrow> OBDIICommand \<Rightarrow> world \<Rightarrow> reply" where
  "received so c w = respond w (history (run_calls (lock_calls so @ take 2 (exchange so c)) w))
     (Read (sock so) (buffer_size c))"

text \<open>The exchange went well: the request was written, the socket became readable, and the read
  returned as many bytes as the command expects.\<close>

definition exchanged :: "OBDIISocket \<Rightarrow> OBDIICommand \<Rightarrow> world \<Rightarrow> bool" where
  "exchanged so c w \<longleftrightarrow>
     ret (respond w (history (run_calls (lock_calls so) w)) (exchange so c ! 0)) = int (length (c_payload c)) \<and>
     0 < ret (respond w (history (run_calls (lock_calls so @ take 1 (exchange so c)) w)) (exchange so c ! 1)) \<and>
     0 \<le> ret (received so c w) \<and>
     (c_expectedResponseLength c \<noteq> 0 \<longrightarrow> ret (received so c w) = c_expectedResponseLength c)"

lemma query_exchanged:
  assumes "deref ref = Inr c" "0 \<le> sock so" "sock so < 1024" "exchanged so c w"
  shows "OBDIIPerformQuery (Some so) (Some ref) w =
    on_heap (OBDIIDecodeResponseForCommand (Some ref) (Some (bytes (received so c w))) (ret (received so c w)))
      (run_calls (lock_calls so @ exchange so c @ unlock_calls so) w)"
  using assms
  by (cases "c_expectedResponseLength c = 0") (simp_all add: OBDIIPerformQuery_def Let_def io_simps FD_SET_def buffer_size_def MAX_ISOTP_PAYLOAD_def exchanged_def exchange_def received_def
      VARIABLE_RESPONSE_LENGTH_def)

lemma query_gave_up:
  assumes "deref ref = Inr c" "0 \<le> sock so" "sock so < 1024" "\<not> exchanged so c w"
  shows "\<exists>k \<in> {1, 2, 3}. OBDIIPerformQuery (Some so) (Some ref) w =
    Inr (failed ref, run_calls (lock_calls so @ take k (exchange so c) @ unlock_calls so) w)"
  using assms
  by (auto simp add: OBDIIPerformQuery_def Let_def io_simps FD_SET_def buffer_size_def MAX_ISOTP_PAYLOAD_def exchanged_def exchange_def received_def
        VARIABLE_RESPONSE_LENGTH_def zero_response_def numeral_3_eq_3 numeral_2_eq_2)

lemma on_heap_Inr:
  "on_heap f w = Inr (a, w') \<Longrightarrow> calls w' = calls w \<and> respond w' = respond w \<and> history w' = history w"
  unfolding on_heap_def obind_eq_Inr by (auto simp: calls_def split: prod.splits)

lemma mode1_lengths: "list_all (\<lambda>c. 3 \<le> c_expectedResponseLength c \<and> c_expectedResponseLength c \<le> 6) OBDIIMode1Commands"
  by (simp add: OBDIIMode1Commands_def)

lemma buffer_size_bound: "deref ref = Inr c \<Longrightarrow> buffer_size c \<le> 4095"
proof (erule deref_cases)
  fix pid assume "pid < 79" and c: "c = OBDIIMode1Commands ! pid"
  then have "c_expectedResponseLength c \<le> 6" using mode1_lengths by (simp add: list_all_length)
  then show ?thesis by (simp add: buffer_size_def nat_le_iff)
qed (simp_all add: buffer_size_def mode3_entry OBDIIMode9Commands_def VARIABLE_RESPONSE_LENGTH_def numeral_2_eq_2)

lemma received_bounds:
  assumes "deref ref = Inr c" "kernel (respond w)" "exchanged so c w"
  shows "0 \<le> ret (received so c w)" "ret (received so c w) \<le> int (length (bytes (received so c w)))"
    "ret (received so c w) < 2 ^ 31"
proof -
  show pos: "0 \<le> ret (received so c w)" using assms(3) by (simp add: exchanged_def)
  show "ret (received so c w) \<le> int (length (bytes (received so c w)))"
    using kernel_read(2) [OF assms(2)] pos by (simp add: received_def)
  have "ret (received so c w) \<le> int (buffer_size c)"
    using kernel_read(1) [OF assms(2)] by (simp add: received_def)
  then show "ret (received so c w) < 2 ^ 31" using buffer_size_bound [OF assms(1)] by simp
qed

section \<open>A vehicle that answers\<close>

text \<open>The last message written to a descriptor.\<close>

fun last_request :: "int \<Rightarrow> history \<Rightarrow> byte list" where
  "last_request s [] = []"
| "last_request s ((c, r) # hist) = (case c of Write fd p \<Rightarrow>
     if fd = s \<and> last_request s hist = [] then p else last_request s hist | _ \<Rightarrow> last_request s hist)"

text \<open>An ECU behind a socket: requests are sent whole, and when the ECU has an answer to the last one,
  a function of its bytes, the socket becomes readable within the timeout and a read returns the
  answer, cut off at the size of the buffer. Nothing is said about any other call, the lock and the
  heap of the process included.\<close>

definition answering :: "(byte list \<Rightarrow> byte list) \<Rightarrow> int \<Rightarrow> (history \<Rightarrow> call \<Rightarrow> reply) \<Rightarrow> bool" where
  "answering ecu s kern \<longleftrightarrow> (\<forall>hist p n.
     ret (kern hist (Write s p)) = int (length p) \<and>
     (ecu (last_request s hist) \<noteq> [] \<longrightarrow>
        0 < ret (kern hist (Select (s + 1) s 1 0)) \<and>
        bytes (kern hist (Read s n)) = take n (ecu (last_request s hist)) \<and>
        ret (kern hist (Read s n)) = int (length (take n (ecu (last_request s hist))))))"

text \<open>
  A world for examples: an ECU that answers every request, on sockets on which nothing fails; \<open>flock\<close>
  returns what it is told to.
\<close>

definition vehicle :: "(byte list \<Rightarrow> byte list) \<Rightarrow> int \<Rightarrow> world" where
  "vehicle ecu lock = \<lparr>w_heap = empty_heap, globals = initial_globals, history = [], respond = (\<lambda>hist c. case c of
       Write fd p \<Rightarrow> returns (int (length p))
     | Select n fd sec usec \<Rightarrow> returns 1
     | Read fd n \<Rightarrow> (let p = take n (ecu (last_request fd hist)) in (returns (int (length p)))\<lparr>bytes := p\<rparr>)
     | Flock fd op \<Rightarrow> returns lock
     | _ \<Rightarrow> returns 0)\<rparr>"

lemma respond_vehicle:
  "respond (vehicle ecu lock) hist (Write fd p) = returns (int (length p))"
  "respond (vehicle ecu lock) hist (Select n fd sec usec) = returns 1"
  "respond (vehicle ecu lock) hist (Read fd k) =
     (returns (int (length (take k (ecu (last_request fd hist))))))\<lparr>bytes := take k (ecu (last_request fd hist))\<rparr>"
  by (simp_all add: vehicle_def Let_def)

lemma vehicle_answering: "answering ecu s (respond (vehicle ecu lock))"
  by (simp add: answering_def vehicle_def returns_def Let_def)

lemma vehicle_kernel: "kernel (respond (vehicle ecu lock))"
  by (auto simp: kernel_def vehicle_def returns_def Let_def)

lemma vehicle_simps [simp]: "w_heap (vehicle ecu lock) = empty_heap" "history (vehicle ecu lock) = []"
  "calls (vehicle ecu lock) = []"
  by (simp_all add: vehicle_def calls_def)

section \<open>What a query guarantees\<close>

lemma query_result:
  assumes "deref ref = Inr c" "ref \<noteq> Mode9Command 1" "0 \<le> sock so" "sock so < 1024" "kernel (respond w)"
    and "ref = Mode3Command \<longrightarrow> grants (w_heap w) (next_addr (w_heap w))"
  shows "\<exists>r w'. OBDIIPerformQuery (Some so) (Some ref) w = Inr (r, w') \<and>
    r_command r = Some ref \<and> member_matches (c_responseType c) (r_value r) \<and>
    r_success r = (if exchanged so c w \<and> answers c (bytes (received so c w)) (ret (received so c w)) \<and>
      (ref = Mode3Command \<longrightarrow> 2 \<le> ret (received so c w) \<and> even (ret (received so c w))) then 1 else 0)"
proof (cases "exchanged so c w")
  case True
  note b = received_bounds [OF assms(1,5) True]
  from decode_total [OF assms(1,2) b(2,3) assms(6)] obtain r h' where
    "OBDIIDecodeResponseForCommand (Some ref) (Some (bytes (received so c w))) (ret (received so c w)) (w_heap w)
        = Inr (r, h')"
    "r_command r = Some ref \<and> member_matches (c_responseType c) (r_value r) \<and>
     r_success r = (if answers c (bytes (received so c w)) (ret (received so c w)) \<and>
       (ref = Mode3Command \<longrightarrow> 2 \<le> ret (received so c w) \<and> even (ret (received so c w))) then 1 else 0)"
    by blast
  then show ?thesis using True
    by (simp add: query_exchanged [OF assms(1,3,4) True] on_heap_def)
next
  case False
  with query_gave_up [OF assms(1,3,4) False] show ?thesis by auto
qed

text \<open>C3. A query for any command but the VIN message count (which has no decoder), on an open socket whose
  descriptor fits an \<open>fd_set\<close>, returns a response whatever the kernel and the vehicle
  answer; for trouble codes this takes memory for them. The response names the command, its union
  holds the promised member, and it reports success exactly when the request was sent, \<open>select\<close> found
  the socket readable within its timeout of one second, the answer has the expected length, and it is
  the positive response to this command.\<close>

theorem query_succeeds_iff_answered:
  assumes "deref ref = Inr c" "ref \<noteq> Mode9Command 1" "0 \<le> sock so" "sock so < 1024" "kernel (respond w)"
    and "ref = Mode3Command \<longrightarrow> grants (w_heap w) (next_addr (w_heap w))"
  shows "\<exists>r w'. OBDIIPerformQuery (Some so) (Some ref) w = Inr (r, w') \<and>
    r_command r = Some ref \<and> member_matches (c_responseType c) (r_value r) \<and>
    r_success r = (if exchanged so c w \<and> answers c (bytes (received so c w)) (ret (received so c w)) \<and>
      (ref = Mode3Command \<longrightarrow> 2 \<le> ret (received so c w) \<and> even (ret (received so c w))) then 1 else 0)"
  using assms by (rule query_result)

text \<open>A shared and a private socket, and a vehicle whose engine turns at 1726 revolutions per minute.\<close>

definition shared_socket :: OBDIISocket where
  "shared_socket = \<lparr>sock = 5, shared = 1, ifindex = 3, tid = 0x7E0, rid = 0x7E8\<rparr>"

definition rpm_vehicle :: "int \<Rightarrow> world" where
  "rpm_vehicle = vehicle (\<lambda>p. if p = [0x01, 0x0C] then [0x41, 0x0C, 0x1A, 0xF8] else [0x7F])"

lemma shared_socket_simps [simp]: "sock shared_socket = 5" "shared shared_socket = 1"
  by (simp_all add: shared_socket_def)

lemma rpm_vehicle_exchange:
  "exchanged shared_socket (OBDIIMode1Commands ! 12) (rpm_vehicle l)"
  "bytes (received shared_socket (OBDIIMode1Commands ! 12) (rpm_vehicle l)) = [0x41, 0x0C, 0x1A, 0xF8]"
  "ret (received shared_socket (OBDIIMode1Commands ! 12) (rpm_vehicle l)) = 4"
  by (simp_all add: exchanged_def received_def exchange_def lock_calls_def shared_socket_def rpm_vehicle_def
      buffer_size_def mode1_entry_12 vehicle_def run_calls.simps returns_def Let_def numeral_2_eq_2)

theorem query_succeeds_iff_answered_witness:
  "\<exists>r w'. OBDIIPerformQuery (Some shared_socket) (Some (Mode1Command 12)) (rpm_vehicle 0) = Inr (r, w') \<and>
     r_success r = 1"
proof -
  have d: "deref (Mode1Command 12) = Inr (OBDIIMode1Commands ! 12)" by (rule mode1_deref) simp
  have k: "kernel (respond (rpm_vehicle 0))" unfolding rpm_vehicle_def by (rule vehicle_kernel)
  from query_succeeds_iff_answered [OF d _ _ _ k, of shared_socket] rpm_answer show ?thesis
    by (auto simp: rpm_vehicle_exchange)
qed

text \<open>C31. The value of a successful mode 1 query is the quantity or the flags that the bytes the vehicle
  sent stand for, from the socket to the result.\<close>

theorem query_mode1_value:
  assumes "pid < 79" "0 \<le> sock so" "sock so < 1024" "kernel (respond w)"
    and "OBDIIPerformQuery (Some so) (Some (Mode1Command pid)) w = Inr (r, w')" "r_success r = 1"
  shows "value_ok (mode1_meanings ! pid) (bytes (received so (OBDIIMode1Commands ! pid) w)) (r_value r)"
proof -
  let ?c = "OBDIIMode1Commands ! pid" and ?r = "received so (OBDIIMode1Commands ! pid) w"
  note d = mode1_deref [OF assms(1)]
  show ?thesis
  proof (cases "exchanged so ?c w")
    case True
    note b = received_bounds [OF d assms(4) True]
    have run: "OBDIIPerformQuery (Some so) (Some (Mode1Command pid)) w =
      on_heap (OBDIIDecodeResponseForCommand (Some (Mode1Command pid)) (Some (bytes ?r)) (ret ?r))
        (run_calls (lock_calls so @ exchange so ?c @ unlock_calls so) w)"
      by (rule query_exchanged [OF d assms(2,3) True])
    show ?thesis
    proof (cases "answers ?c (bytes ?r) (ret ?r)")
      case True
      from accept_meets [OF d mode1_entry [OF assms(1)] b(2) True] obtain v where
        "OBDIIDecodeResponseForCommand (Some (Mode1Command pid)) (Some (bytes ?r)) (ret ?r) (w_heap w) =
           Inr (decoded (Mode1Command pid) v, w_heap w)" "value_ok (mode1_meanings ! pid) (bytes ?r) v" by blast
      with run assms(5) show ?thesis by (auto simp: on_heap_def)
    next
      case False
      with reject [OF d b(2)] run assms(5,6) show ?thesis by (auto simp: on_heap_def)
    qed
  next
    case False
    with query_gave_up [OF d assms(2,3) False] assms(5,6) show ?thesis by auto
  qed
qed

theorem query_mode1_value_witness:
  "\<exists>w'. OBDIIPerformQuery (Some shared_socket) (Some (Mode1Command 12)) (rpm_vehicle 0) =
     Inr (decoded (Mode1Command 12) (NumericValue 1726), w')"
proof -
  have d: "deref (Mode1Command 12) = Inr (OBDIIMode1Commands ! 12)" by (rule mode1_deref) simp
  have k: "kernel (respond (rpm_vehicle 0))" unfolding rpm_vehicle_def by (rule vehicle_kernel)
  obtain r w' where q: "OBDIIPerformQuery (Some shared_socket) (Some (Mode1Command 12)) (rpm_vehicle 0) = Inr (r, w')"
    "r_command r = Some (Mode1Command 12)" "r_success r = 1"
    using query_result [OF d _ _ _ k, of shared_socket] rpm_answer by (auto simp: rpm_vehicle_exchange)
  have "value_ok (mode1_meanings ! 12) [0x41, 0x0C, 0x1A, 0xF8] (r_value r)"
    using query_mode1_value [OF _ _ _ k q(1,3)] by (simp add: rpm_vehicle_exchange)
  then have "r_value r = NumericValue 1726"
    by (auto simp: rpm_meaning word_quantity_def accurate_def quantity_def fits_def)
  then show ?thesis using q by (cases r) simp
qed

section \<open>Locking\<close>

lemma query_calls:
  assumes "deref ref = Inr c" "0 \<le> sock so" "sock so < 1024"
    and "OBDIIPerformQuery (Some so) (Some ref) w = Inr (r, w')"
  shows "\<exists>k \<in> {1, 2, 3}. calls w' = calls w @ lock_calls so @ take k (exchange so c) @ unlock_calls so"
proof (cases "exchanged so c w")
  case True
  then show ?thesis using query_exchanged [OF assms(1-3) True, symmetric] assms(4) on_heap_Inr
    by (fastforce simp: exchange_def)
next
  case False
  then show ?thesis using query_gave_up [OF assms(1-3) False] assms(4) by auto
qed

text \<open>C15. On every path through a query the calls are, in this order: take the lock exactly when the
  socket is shared, a prefix of write, select and read that is not empty, and release the lock
  exactly when it was taken. In particular no error path leaves the lock held, the lock is never
  released before the response was read, and a private socket is never locked.\<close>

theorem query_lock_discipline:
  assumes "deref ref = Inr c" "0 \<le> sock so" "sock so < 1024"
    and "OBDIIPerformQuery (Some so) (Some ref) w = Inr (r, w')"
  shows "\<exists>k \<in> {1, 2, 3}. calls w' = calls w
    @ (if shared so \<noteq> 0 then [Flock (sock so) LOCK_EX] else [])
    @ take k [Write (sock so) (c_payload c), Select (sock so + 1) (sock so) 1 0, Read (sock so) (buffer_size c)]
    @ (if shared so \<noteq> 0 then [Flock (sock so) LOCK_UN] else [])"
  using query_calls [OF assms] unfolding lock_calls_def unlock_calls_def exchange_def .

lemma world_heap_id: "w_heap w = h \<Longrightarrow> w\<lparr>w_heap := h\<rparr> = w"
  by (cases w) simp

lemma rpm_vehicle_heap [simp]: "w_heap (rpm_vehicle l) = empty_heap"
  by (simp add: rpm_vehicle_def)

lemma rpm_query:
  "OBDIIPerformQuery (Some shared_socket) (Some (Mode1Command 12)) (rpm_vehicle l) =
     Inr (decoded (Mode1Command 12) (NumericValue 1726),
       run_calls [Flock 5 LOCK_EX, Write 5 [0x01, 0x0C], Select 6 5 1 0, Read 5 4, Flock 5 LOCK_UN] (rpm_vehicle l))"
proof -
  have d: "deref (Mode1Command 12) = Inr (OBDIIMode1Commands ! 12)" by (rule mode1_deref) simp
  have m: "meets (OBDIIMode1Commands ! 12) (word_quantity (1 / 4) 0 True)"
    using mode1_entry [of 12] by (simp add: rpm_meaning)
  obtain v where v: "OBDIIDecodeResponseForCommand (Some (Mode1Command 12)) (Some [0x41, 0x0C, 0x1A, 0xF8]) 4 empty_heap
      = Inr (decoded (Mode1Command 12) v, empty_heap)"
    "value_ok (word_quantity (1 / 4) 0 True) [0x41, 0x0C, 0x1A, 0xF8] v"
    using accept_meets [OF d m _ rpm_answer] by auto
  have "v = NumericValue 1726"
    using v(2) by (auto simp: word_quantity_def accurate_def quantity_def fits_def)
  moreover have "(run_calls cs (rpm_vehicle l))\<lparr>w_heap := empty_heap\<rparr> = run_calls cs (rpm_vehicle l)" for cs
    by (rule world_heap_id) simp
  moreover have "lock_calls shared_socket @ exchange shared_socket (OBDIIMode1Commands ! 12) @ unlock_calls shared_socket
      = [Flock 5 LOCK_EX, Write 5 [0x01, 0x0C], Select 6 5 1 0, Read 5 4, Flock 5 LOCK_UN]"
    by (simp add: lock_calls_def exchange_def unlock_calls_def mode1_entry_12 buffer_size_def)
  ultimately show ?thesis using v(1)
    by (simp add: query_exchanged [OF d _ _ rpm_vehicle_exchange(1)] rpm_vehicle_exchange on_heap_def)
qed

theorem query_lock_discipline_witness:
  "\<exists>r w'. OBDIIPerformQuery (Some shared_socket) (Some (Mode1Command 12)) (rpm_vehicle 0) = Inr (r, w') \<and>
     last (calls w') = Flock 5 LOCK_UN"
proof -
  have d: "deref (Mode1Command 12) = Inr (OBDIIMode1Commands ! 12)" by (rule mode1_deref) simp
  from query_lock_discipline [OF d _ _ rpm_query] rpm_query show ?thesis by fastforce
qed

text \<open>The result of \<open>flock\<close> is not looked at: when the lock is refused the request is still
  written to the shared socket and the answer taken.\<close>

theorem query_ignores_refused_lock:
  "\<exists>w'. OBDIIPerformQuery (Some shared_socket) (Some (Mode1Command 12)) (rpm_vehicle (- 1)) =
      Inr (\<lparr>r_success = 1, r_command = Some (Mode1Command 12), r_value = NumericValue 1726\<rparr>, w')
    \<and> take 2 (history w') = [(Flock 5 LOCK_EX, returns (- 1)), (Write 5 [0x01, 0x0C], returns 2)]"
  by (rule exI, rule conjI, rule rpm_query) (simp add: run_calls.simps rpm_vehicle_def vehicle_def)

text \<open>A shared socket whose descriptor does not fit an \<open>fd_set\<close> makes a query write past it: nothing
  limits the descriptor to \<open>FD_SETSIZE\<close>.\<close>

theorem query_fd_set_overflow:
  assumes "deref ref = Inr c" "1024 \<le> sock so"
    and "ret (respond w (history (run_calls (lock_calls so) w)) (Write (sock so) (c_payload c))) = int (length (c_payload c))"
  shows "OBDIIPerformQuery (Some so) (Some ref) w = Inl OutOfBounds"
  using assms by (simp add: OBDIIPerformQuery_def Let_def io_simps FD_SET_def)

theorem query_fd_set_overflow_witness:
  "OBDIIPerformQuery (Some (shared_socket\<lparr>sock := 1024\<rparr>)) (Some Mode3Command) (rpm_vehicle 0) = Inl OutOfBounds"
  by (rule query_fd_set_overflow)
    (simp_all add: lock_calls_def rpm_vehicle_def vehicle_def run_calls.simps returns_def mode3_entry)

end
