(* ===== verification/Supported.thy ===== *)
theory Supported
  imports Query
begin

text \<open>
  \<open>OBDIIGetSupportedCommands\<close> of \<open>src/OBDIICommunication.c\<close>: ask the vehicle for its bitmaps of supported
  PIDs and build the array of pointers to the supported commands.
\<close>

section \<open>The function\<close>

text \<open>A query whose response is read through \<open>bitfieldValue\<close>.\<close>

definition query_bitfield :: "OBDIISocket option \<Rightarrow> command_ref option \<Rightarrow> u32 io" where
  "query_bitfield socket command =
     io_bind (OBDIIPerformQuery socket command) (\<lambda>response.
       io_lift (case bitfieldValue (r_value response) of None \<Rightarrow> Inl InactiveMember | Some w \<Rightarrow> Inr w))"

text \<open>The queries for mode 1, up to the label \<open>mode9\<close>: the next bitmap is asked for when the last PID of
  the one before is supported.\<close>

definition query_mode1_pids :: "OBDIISocket option \<Rightarrow> OBDIICommandSet \<Rightarrow> OBDIICommandSet io" where
  "query_mode1_pids socket cs =
     io_bind (query_bitfield socket (mode1SupportedPIDs_1_to_20 OBDIICommands)) (\<lambda>w.
       let cs = cs\<lparr>pids_1_to_20 := w\<rparr> in
       if w AND 0x01 = 0 then io_return cs
       else io_bind (query_bitfield socket (mode1SupportedPIDs_21_to_40 OBDIICommands)) (\<lambda>w.
         let cs = cs\<lparr>pids_21_to_40 := w\<rparr> in
         if w AND 0x01 = 0 then io_return cs
         else io_bind (query_bitfield socket (mode1SupportedPIDs_41_to_60 OBDIICommands)) (\<lambda>w.
           io_return (cs\<lparr>pids_41_to_60 := w AND 0xFFFC0000\<rparr>))))"

definition query_mode9_pids :: "OBDIISocket option \<Rightarrow> OBDIICommandSet \<Rightarrow> OBDIICommandSet io" where
  "query_mode9_pids socket cs =
     io_bind (query_bitfield socket (OBDIICommands_struct.mode9SupportedPIDs OBDIICommands)) (\<lambda>w.
       io_return (cs\<lparr>mode9_pids := w AND 0xE0000000\<rparr>))"

text \<open>\<open>commands[k] = command\<close> for an array of pointers on the heap.\<close>

definition write_pointer :: "addr \<Rightarrow> nat \<Rightarrow> command_ref option \<Rightarrow> heap \<Rightarrow> heap outcome" where
  "write_pointer a k p h = (case blocks h a of
       Some (PointerBlock ps) \<Rightarrow>
         if k < length ps then Inr (h\<lparr>blocks := (blocks h)(a := Some (PointerBlock (ps[k := p])))\<rparr>)
         else Inl OutOfBounds
     | _ \<Rightarrow> Inl DanglingPointer)"

text \<open>The loop over a table: \<open>k\<close> is the distance of the moving pointer \<open>commands\<close> from the array.\<close>

fun collect :: "OBDIICommandSet \<Rightarrow> command_ref list \<Rightarrow> addr \<Rightarrow> nat \<Rightarrow> heap \<Rightarrow> (nat \<times> heap) outcome" where
  "collect cs [] a k h = Inr (k, h)"
| "collect cs (ref # refs) a k h =
     obind (deref ref) (\<lambda>command.
     obind (OBDIICommandSetContainsCommand (Some cs) (Some command)) (\<lambda>found.
       if found \<noteq> 0 then obind (write_pointer a k (Some ref) h) (\<lambda>h. collect cs refs a (k + 1) h)
       else collect cs refs a k h))"

definition fill_commands :: "OBDIICommandSet \<Rightarrow> addr \<Rightarrow> heap \<Rightarrow> heap outcome" where
  "fill_commands cs a h =
     obind (collect cs (map Mode1Command [0..<length OBDIIMode1Commands]) a 0 h) (\<lambda>(k, h).
     obind (write_pointer a k (DTCs OBDIICommands) h) (\<lambda>h.
     obind (collect cs (map Mode9Command [0..<length OBDIIMode9Commands]) a (k + 1) h) (\<lambda>(k, h). Inr h)))"

definition count_commands :: "OBDIICommandSet \<Rightarrow> u32" where
  "count_commands cs = BitsSet (pids_1_to_20 cs) + BitsSet (pids_21_to_40 cs) + BitsSet (pids_41_to_60 cs)
     + BitsSet (pids_61_to_80 cs) + BitsSet (mode9_pids cs) + 2 + 1"

definition make_commands :: "OBDIICommandSet \<Rightarrow> heap \<Rightarrow> (OBDIICommandSet \<times> heap) outcome" where
  "make_commands cs h =
     (let n = count_commands cs; (p, h) = malloc (PointerBlock (replicate (unat n) None)) h in
      case p of None \<Rightarrow> Inr (cs, h)
      | Some a \<Rightarrow> (let cs = cs\<lparr>commands := p, numCommands := sint n\<rparr> in
          obind (fill_commands cs a h) (\<lambda>h. Inr (cs, h))))"

definition OBDIIGetSupportedCommands :: "OBDIISocket option \<Rightarrow> OBDIICommandSet io" where
  "OBDIIGetSupportedCommands socket =
     (let supportedCommands = \<lparr>pids_1_to_20 = 0, pids_21_to_40 = 0, pids_41_to_60 = 0, pids_61_to_80 = 0,
        mode9_pids = 0, numCommands = 0, commands = None\<rparr> in
      io_bind (query_mode1_pids socket supportedCommands) (\<lambda>supportedCommands.
      io_bind (query_mode9_pids socket supportedCommands) (\<lambda>supportedCommands.
      on_heap (make_commands supportedCommands))))"

section \<open>Filling the array\<close>

lemma collect_run:
  assumes "\<forall>r \<in> set refs. \<exists>c. deref r = Inr c" and "blocks h a = Some (PointerBlock (map Some done @ rest))"
    and "length (filter (supports cs) refs) \<le> length rest"
  shows "collect cs refs a (length done) h = Inr (length done + length (filter (supports cs) refs),
    h\<lparr>blocks := (blocks h)(a := Some (PointerBlock (map Some (done @ filter (supports cs) refs)
      @ drop (length (filter (supports cs) refs)) rest)))\<rparr>)"
  using assms
proof (induction refs arbitrary: "done" rest h)
  case Nil
  then show ?case by (simp add: fun_upd_idem)
next
  case (Cons r refs)
  obtain c where c: "deref r = Inr c" using Cons.prems(1) by auto
  note contains = contains_member [OF c, of cs]
  show ?case
  proof (cases "supports cs r")
    case True
    then obtain x rest' where rest: "rest = x # rest'" using Cons.prems(3) by (cases rest) auto
    let ?h = "h\<lparr>blocks := (blocks h)(a := Some (PointerBlock (map Some (done @ [r]) @ rest')))\<rparr>"
    have "write_pointer a (length done) (Some r) h = Inr ?h"
      using Cons.prems(2) by (simp add: write_pointer_def rest list_update_append)
    moreover have "collect cs refs a (length (done @ [r])) ?h = Inr (length (done @ [r]) + length (filter (supports cs) refs),
      ?h\<lparr>blocks := (blocks ?h)(a := Some (PointerBlock (map Some ((done @ [r]) @ filter (supports cs) refs)
      @ drop (length (filter (supports cs) refs)) rest')))\<rparr>)"
      using Cons.prems True rest by (intro Cons.IH) auto
    ultimately show ?thesis using True c contains rest by (simp add: fun_upd_def cong: if_cong)
  next
    case False
    then show ?thesis using Cons.IH [of h "done" rest] Cons.prems c contains by simp
  qed
qed

section \<open>Counting the supported commands\<close>

lemma ones_descending: "length (filter (\<lambda>pid. bit w (b + 32 - pid)) [b + 1..<b + 33]) = ones w"
proof -
  have "[b + 1..<b + 33] = map (\<lambda>i. b + 32 - i) (rev [0..<32])"
    by (rule nth_equalityI) (simp_all add: rev_nth)
  then have "length (filter (\<lambda>pid. bit w (b + 32 - pid)) [b + 1..<b + 33]) =
      length (filter (bit w) (map (\<lambda>i. b + 32 - (b + 32 - i)) (rev [0..<32])))"
    by (simp add: filter_map o_def)
  also have "map (\<lambda>i. b + 32 - (b + 32 - i)) (rev [0..<32]) = rev [0..<32]"
    by (rule map_idI) auto
  finally show ?thesis by (simp add: ones_def rev_filter [symmetric])
qed

lemma supports_mode1:
  "0 < pid \<Longrightarrow> pid \<le> 32 \<Longrightarrow> supports cs (Mode1Command pid) \<longleftrightarrow> bit (pids_1_to_20 cs) (32 - pid)"
  "32 < pid \<Longrightarrow> pid \<le> 64 \<Longrightarrow> supports cs (Mode1Command pid) \<longleftrightarrow> bit (pids_21_to_40 cs) (64 - pid)"
  "64 < pid \<Longrightarrow> pid \<le> 96 \<Longrightarrow> supports cs (Mode1Command pid) \<longleftrightarrow> bit (pids_41_to_60 cs) (96 - pid)"
  using pid_position [of pid] by (simp_all add: mode1_words_def)

lemma count_range:
  assumes "\<And>pid. b < pid \<Longrightarrow> pid \<le> b + 32 \<Longrightarrow> supports cs (Mode1Command pid) \<longleftrightarrow> bit w (b + 32 - pid)"
  shows "length (filter (\<lambda>pid. supports cs (Mode1Command pid)) [b + 1..<b + 33]) = ones w"
proof -
  have "filter (\<lambda>pid. supports cs (Mode1Command pid)) [b + 1..<b + 33] =
      filter (\<lambda>pid. bit w (b + 32 - pid)) [b + 1..<b + 33]"
    using assms by (intro filter_cong) auto
  then show ?thesis by (simp only: ones_descending)
qed

lemma mask_bits:
  "bit (w AND 0xFFFC0000 :: u32) i \<Longrightarrow> 18 \<le> i \<and> i < 32"
  "bit (w AND 0xE0000000 :: u32) i \<Longrightarrow> 29 \<le> i \<and> i < 32"
proof -
  have m: "(0xFFFC0000 :: u32) = push_bit 18 0x3FFF" "(0xE0000000 :: u32) = push_bit 29 7"
    by (simp_all add: push_bit_eq_mult)
  show "bit (w AND 0xFFFC0000 :: u32) i \<Longrightarrow> 18 \<le> i \<and> i < 32"
    "bit (w AND 0xE0000000 :: u32) i \<Longrightarrow> 29 \<le> i \<and> i < 32"
    unfolding m bit_and_iff bit_push_bit_iff by (auto dest: bit_imp_le_length)
qed

lemma count_mode1:
  assumes "\<And>i. bit (pids_41_to_60 cs) i \<Longrightarrow> 18 \<le> i"
  shows "length (filter (supports cs) (map Mode1Command [0..<79])) =
    1 + ones (pids_1_to_20 cs) + ones (pids_21_to_40 cs) + ones (pids_41_to_60 cs)"
proof -
  let ?n = "\<lambda>xs. length (filter (\<lambda>pid. supports cs (Mode1Command pid)) xs)"
  have none: "?n [79..<97] = 0"
  proof -
    have "\<not> supports cs (Mode1Command pid)" if "pid \<in> set [79..<97]" for pid
      using that assms [of "96 - pid"] by (auto simp: supports_mode1(3) simp del: supports.simps)
    then have "filter (\<lambda>pid. supports cs (Mode1Command pid)) [79..<97] = []" by (intro filter_False) blast
    then show ?thesis by (simp only: list.size)
  qed
  have "[0..<97] = 0 # [0 + 1..<0 + 33] @ [32 + 1..<32 + 33] @ [64 + 1..<64 + 33]"
    by (simp add: upt_rec)
  then have "?n [0..<97] = 1 + ones (pids_1_to_20 cs) + ones (pids_21_to_40 cs) + ones (pids_41_to_60 cs)"
    using count_range [of 0 cs "pids_1_to_20 cs"] count_range [of 32 cs "pids_21_to_40 cs"]
      count_range [of 64 cs "pids_41_to_60 cs"] supports_mode1 [of _ cs]
    by (simp only: filter_append length_append filter.simps supports.simps if_True simp_thms length_Cons) simp
  moreover have "[0..<97] = [0..<79] @ [79..<97]" using upt_add_eq_append [of 0 79 18]
    by (simp only: le0 simp_thms arith_simps add_0)
  then have "?n [0..<97] = ?n [0..<79] + ?n [79..<97]" by (simp only: filter_append length_append)
  ultimately show ?thesis using none by (simp add: filter_map o_def)
qed

lemma ones_top3:
  assumes "\<And>i. bit w i \<Longrightarrow> 29 \<le> i"
  shows "ones w = of_bool (bit w 31) + of_bool (bit w 30) + of_bool (bit w 29)"
proof -
  have "[0..<32] = [0..<29] @ [29, 30, 31]" by (simp add: upt_rec)
  moreover have "filter (bit w) [0..<29] = []" using assms by (force simp: filter_empty_conv)
  ultimately show ?thesis by (simp add: ones_def)
qed

lemma count_mode9:
  assumes "\<And>i. bit (mode9_pids cs) i \<Longrightarrow> 29 \<le> i"
  shows "length (filter (supports cs) (map Mode9Command [0..<3])) + of_bool (bit (mode9_pids cs) 29) =
    1 + ones (mode9_pids cs)"
  using ones_top3 [OF assms] by (simp add: upt_rec)

section \<open>What the vehicle reports\<close>

text \<open>The flags a query for a bitmap gives: the four data bytes of a positive response, and zero when
  there is none.\<close>

definition reported :: "OBDIISocket \<Rightarrow> OBDIICommand \<Rightarrow> world \<Rightarrow> u32" where
  "reported so c w = (let p = received so c w in
     if exchanged so c w \<and> answers c (bytes p) (ret p) then be_word (take 4 (drop 2 (bytes p))) else 0)"

lemma query_flags:
  assumes "deref ref = Inr c" "meets c (Flags 4)" "0 \<le> sock so" "sock so < 1024" "kernel (respond w)"
  shows "\<exists>cs. query_bitfield (Some so) (Some ref) w = Inr (reported so c w, run_calls cs w)"
proof -
  let ?p = "received so c w"
  have ans: "OBDIIPerformQuery (Some so) (Some ref) w = Inr (r, run_calls cs w) \<Longrightarrow>
      bitfieldValue (r_value r) = Some (reported so c w) \<Longrightarrow> ?thesis" for r cs
    by (auto simp: query_bitfield_def io_bind_def io_lift_def)
  show ?thesis
  proof (cases "exchanged so c w")
    case True
    note b = received_bounds [OF assms(1,5) True]
    let ?cs = "lock_calls so @ exchange so c @ unlock_calls so"
    have h: "(run_calls ?cs w)\<lparr>w_heap := w_heap w\<rparr> = run_calls ?cs w" by (rule world_heap_id) simp
    note run = query_exchanged [OF assms(1,3,4) True]
    show ?thesis
    proof (cases "answers c (bytes ?p) (ret ?p)")
      case ok: True
      from accept_meets [OF assms(1,2) b(2) ok, of "w_heap w"] run True ok h
      show ?thesis by (intro ans [where cs = ?cs]) (auto simp: on_heap_def reported_def Let_def)
    next
      case False
      from reject [OF assms(1) b(2) False, of "w_heap w"] run True False h
      show ?thesis by (intro ans [where cs = ?cs]) (auto simp: on_heap_def reported_def Let_def)
    qed
  next
    case False
    from query_gave_up [OF assms(1,3,4) False] obtain cs where
      "OBDIIPerformQuery (Some so) (Some ref) w = Inr (failed ref, run_calls cs w)" by blast
    then show ?thesis using False by (intro ans [of "failed ref" cs]) (auto simp: reported_def Let_def)
  qed
qed

lemma pid_queries:
  "deref (Mode1Command 0) = Inr (OBDIIMode1Commands ! 0)" "meets (OBDIIMode1Commands ! 0) (Flags 4)"
  "deref (Mode1Command 32) = Inr (OBDIIMode1Commands ! 32)" "meets (OBDIIMode1Commands ! 32) (Flags 4)"
  "deref (Mode1Command 64) = Inr (OBDIIMode1Commands ! 64)" "meets (OBDIIMode1Commands ! 64) (Flags 4)"
  "deref (Mode9Command 0) = Inr (OBDIIMode9Commands ! 0)" "meets (OBDIIMode9Commands ! 0) (Flags 4)"
  using mode1_deref [of 0] mode1_deref [of 32] mode1_deref [of 64] mode1_entry [of 0] mode1_entry [of 32]
    mode1_entry [of 64] mode9_0 mode9_entries(1)
  by (simp_all add: mode1_meanings_def replicate_4_8)

lemma pid_pointers:
  "mode1SupportedPIDs_1_to_20 OBDIICommands = Some (Mode1Command 0)"
  "mode1SupportedPIDs_21_to_40 OBDIICommands = Some (Mode1Command 32)"
  "mode1SupportedPIDs_41_to_60 OBDIICommands = Some (Mode1Command 64)"
  "OBDIICommands_struct.mode9SupportedPIDs OBDIICommands = Some (Mode9Command 0)"
  "DTCs OBDIICommands = Some Mode3Command"
  by (simp_all add: OBDIICommands_def)

text \<open>The bitmaps a run ends with, where \<open>v\<close>, \<open>v'\<close> and \<open>v''\<close> are the worlds in which the later
  bitmaps were asked for.\<close>

definition bitmaps :: "OBDIISocket \<Rightarrow> world \<Rightarrow> world \<Rightarrow> world \<Rightarrow> world \<Rightarrow> OBDIICommandSet \<Rightarrow> bool" where
  "bitmaps so w v v' v'' cs \<longleftrightarrow>
     pids_1_to_20 cs = reported so (OBDIIMode1Commands ! 0) w \<and>
     pids_21_to_40 cs = (if pids_1_to_20 cs AND 1 \<noteq> 0 then reported so (OBDIIMode1Commands ! 32) v else 0) \<and>
     pids_41_to_60 cs = (if pids_21_to_40 cs AND 1 \<noteq> 0
       then reported so (OBDIIMode1Commands ! 64) v' AND 0xFFFC0000 else 0) \<and>
     pids_61_to_80 cs = 0 \<and>
     mode9_pids cs = reported so (OBDIIMode9Commands ! 0) v'' AND 0xE0000000"

lemma query_pids:
  assumes "0 \<le> sock so" "sock so < 1024" "kernel (respond w)"
  shows "\<exists>vs vs' vs'' ws cs. OBDIIGetSupportedCommands (Some so) w = on_heap (make_commands cs) (run_calls ws w) \<and>
    bitmaps so w (run_calls vs w) (run_calls vs' w) (run_calls vs'' w) cs \<and> numCommands cs = 0 \<and> commands cs = None"
proof -
  let ?m0 = "reported so (OBDIIMode1Commands ! 0)" and ?m2 = "reported so (OBDIIMode1Commands ! 32)"
    and ?m4 = "reported so (OBDIIMode1Commands ! 64)" and ?m9 = "reported so (OBDIIMode9Commands ! 0)"
  let ?cs = "\<lambda>a b c d. \<lparr>pids_1_to_20 = a, pids_21_to_40 = b, pids_41_to_60 = c, pids_61_to_80 = 0,
        mode9_pids = d, numCommands = 0, commands = None\<rparr>"
  have q: "\<exists>cs. query_bitfield (Some so) (Some (Mode1Command 0)) (run_calls ws w) = Inr (?m0 (run_calls ws w), run_calls (ws @ cs) w)"
    "\<exists>cs. query_bitfield (Some so) (Some (Mode1Command 32)) (run_calls ws w) = Inr (?m2 (run_calls ws w), run_calls (ws @ cs) w)"
    "\<exists>cs. query_bitfield (Some so) (Some (Mode1Command 64)) (run_calls ws w) = Inr (?m4 (run_calls ws w), run_calls (ws @ cs) w)"
    "\<exists>cs. query_bitfield (Some so) (Some (Mode9Command 0)) (run_calls ws w) = Inr (?m9 (run_calls ws w), run_calls (ws @ cs) w)"
    for ws
    using query_flags [OF pid_queries(1,2) assms(1,2), of "run_calls ws w"]
      query_flags [OF pid_queries(3,4) assms(1,2), of "run_calls ws w"]
      query_flags [OF pid_queries(5,6) assms(1,2), of "run_calls ws w"]
      query_flags [OF pid_queries(7,8) assms(1,2), of "run_calls ws w"] assms(3)
    by simp_all
  obtain ws1 where ws1: "query_bitfield (Some so) (Some (Mode1Command 0)) w = Inr (?m0 w, run_calls ws1 w)"
    using q(1) [of "[]"] by auto
  obtain ws2 where ws2: "query_bitfield (Some so) (Some (Mode1Command 32)) (run_calls ws1 w)
      = Inr (?m2 (run_calls ws1 w), run_calls ws2 w)"
    using q(2) [of ws1] by blast
  obtain ws3 where ws3: "query_bitfield (Some so) (Some (Mode1Command 64)) (run_calls ws2 w)
      = Inr (?m4 (run_calls ws2 w), run_calls ws3 w)"
    using q(3) [of ws2] by blast
  have mode1: "\<exists>ws b c. query_mode1_pids (Some so) (?cs 0 0 0 0) w = Inr (?cs (?m0 w) b c 0, run_calls ws w) \<and>
      b = (if ?m0 w AND 1 \<noteq> 0 then ?m2 (run_calls ws1 w) else 0) \<and>
      c = (if b AND 1 \<noteq> 0 then ?m4 (run_calls ws2 w) AND 0xFFFC0000 else 0)"
    by (simp add: query_mode1_pids_def pid_pointers io_bind_def [of "query_bitfield _ _"] ws1 ws2 ws3 run_return Let_def) blast
  then obtain ws b c where m: "query_mode1_pids (Some so) (?cs 0 0 0 0) w = Inr (?cs (?m0 w) b c 0, run_calls ws w)"
    "b = (if ?m0 w AND 1 \<noteq> 0 then ?m2 (run_calls ws1 w) else 0)"
    "c = (if b AND 1 \<noteq> 0 then ?m4 (run_calls ws2 w) AND 0xFFFC0000 else 0)" by blast
  obtain ws4 where "query_bitfield (Some so) (Some (Mode9Command 0)) (run_calls ws w)
      = Inr (?m9 (run_calls ws w), run_calls ws4 w)"
    using q(4) [of ws] by blast
  then have "OBDIIGetSupportedCommands (Some so) w =
      on_heap (make_commands (?cs (?m0 w) b c (?m9 (run_calls ws w) AND 0xE0000000))) (run_calls ws4 w)"
    by (simp add: OBDIIGetSupportedCommands_def Let_def io_bind_def m(1) query_mode9_pids_def pid_pointers run_return)
  moreover have "bitmaps so w (run_calls ws1 w) (run_calls ws2 w) (run_calls ws w)
      (?cs (?m0 w) b c (?m9 (run_calls ws w) AND 0xE0000000))"
    using m(2,3) by (simp add: bitmaps_def)
  ultimately show ?thesis by fastforce
qed

section \<open>The array of supported commands\<close>

text \<open>The commands the library can offer, in the order of its tables, and those a command set lists:
  the ones whose bit is set, and always the trouble code command.\<close>

definition library :: "command_ref list" where
  "library = map Mode1Command [0..<79] @ Mode3Command # map Mode9Command [0..<3]"

definition listed :: "OBDIICommandSet \<Rightarrow> command_ref list" where
  "listed cs = filter (\<lambda>ref. ref = Mode3Command \<or> supports cs ref) library"

text \<open>The slots that no command fills: one when the vehicle reports PID 3 of mode 9, which the mask
  keeps but the table does not have.\<close>

definition unfilled :: "OBDIICommandSet \<Rightarrow> nat" where
  "unfilled cs = of_bool (bit (mode9_pids cs) 29)"

lemma listed_split:
  "listed cs = filter (supports cs) (map Mode1Command [0..<79]) @
     Mode3Command # filter (supports cs) (map Mode9Command [0..<3])"
  by (simp add: listed_def library_def filter_map o_def del: upt_rec_numeral upt_Suc supports.simps)

lemma supports_update [simp]:
  "supports (cs\<lparr>commands := p, numCommands := n\<rparr>) = supports cs"
proof
  show "supports (cs\<lparr>commands := p, numCommands := n\<rparr>) r = supports cs r" for r
    by (cases r) (simp_all add: mode1_words_def)
qed

definition masked :: "OBDIICommandSet \<Rightarrow> bool" where
  "masked cs \<longleftrightarrow> (\<forall>i. bit (pids_41_to_60 cs) i \<longrightarrow> 18 \<le> i) \<and> pids_61_to_80 cs = 0 \<and>
     (\<forall>i. bit (mode9_pids cs) i \<longrightarrow> 29 \<le> i)"

lemma count_listed:
  assumes "masked cs"
  shows "count_commands cs = of_nat (length (listed cs) + unfilled cs)"
    and "length (listed cs) + unfilled cs < 2 ^ 31"
proof -
  have z: "ones 0 = 0" by (simp add: ones_def)
  have n: "length (listed cs) + unfilled cs =
      ones (pids_1_to_20 cs) + ones (pids_21_to_40 cs) + ones (pids_41_to_60 cs) + ones (mode9_pids cs) + 3"
    using count_mode1 [of cs] count_mode9 [of cs] assms
    by (simp add: listed_split unfilled_def masked_def del: upt_rec_numeral upt_Suc)
  show "count_commands cs = of_nat (length (listed cs) + unfilled cs)"
    using assms unfolding n by (simp add: count_commands_def BitsSet_ones masked_def z)
  show "length (listed cs) + unfilled cs < 2 ^ 31"
    unfolding n using ones_le [of "pids_1_to_20 cs"] ones_le [of "pids_21_to_40 cs"]
      ones_le [of "pids_41_to_60 cs"] ones_le [of "mode9_pids cs"] by simp
qed

lemma fill_listed:
  assumes "blocks h a = Some (PointerBlock (replicate (length (listed cs) + k) None))"
  shows "fill_commands cs a h =
    Inr (h\<lparr>blocks := (blocks h)(a := Some (PointerBlock (map Some (listed cs) @ replicate k None)))\<rparr>)"
proof -
  let ?A = "filter (supports cs) (map Mode1Command [0..<79])"
    and ?B = "filter (supports cs) (map Mode9Command [0..<3])"
  let ?h = "\<lambda>xs n. h\<lparr>blocks := (blocks h)(a := Some (PointerBlock (map Some xs @ replicate n None)))\<rparr>"
  have L: "listed cs = ?A @ Mode3Command # ?B" by (rule listed_split)
  have e: "(?h X n)\<lparr>blocks := (blocks (?h X n))(a := v)\<rparr> = h\<lparr>blocks := (blocks h)(a := v)\<rparr>" for X n v by simp
  have c: "collect cs refs a (length X) (?h X (length (filter (supports cs) refs) + n)) =
      Inr (length X + length (filter (supports cs) refs), ?h (X @ filter (supports cs) refs) n)"
    if "\<forall>r \<in> set refs. \<exists>c. deref r = Inr c" for refs X n
    using collect_run [OF that, of "?h X (length (filter (supports cs) refs) + n)" a X
        "replicate (length (filter (supports cs) refs) + n) None" cs, unfolded e] by simp
  have w: "write_pointer a (length X) (Some r) (?h X (Suc n)) = Inr (?h (X @ [r]) n)" for X r n
    by (simp add: write_pointer_def list_update_append)
  have "h = ?h [] (length ?A + Suc (length ?B + k))"
    using assms L by (simp add: fun_upd_idem del: replicate_add)
  moreover have "collect cs (map Mode1Command [0..<79]) a 0 (?h [] (length ?A + Suc (length ?B + k))) =
      Inr (length ?A, ?h ?A (Suc (length ?B + k)))"
    using c [of "map Mode1Command [0..<79]" "[]" "Suc (length ?B + k)"] by simp
  moreover have "collect cs (map Mode9Command [0..<3]) a (length ?A + 1) (?h (?A @ [Mode3Command]) (length ?B + k)) =
      Inr (length ?A + 1 + length ?B, ?h (listed cs) k)"
    using c [of "map Mode9Command [0..<3]" "?A @ [Mode3Command]" k] by (simp add: L)
  ultimately show ?thesis
    unfolding fill_commands_def length_mode1 length_mode9 pid_pointers
    using w [of ?A Mode3Command "length ?B + k"] by (metis (no_types, lifting) obind_Inr split_conv)
qed

lemma bitmaps_masked: "bitmaps so w v v' v'' cs \<Longrightarrow> masked cs"
  using mask_bits by (auto simp: bitmaps_def masked_def)

lemma small_word:
  assumes "n < 2 ^ 31"
  shows "unat (of_nat n :: u32) = n" "sint (of_nat n :: u32) = int n"
proof -
  show "unat (of_nat n :: u32) = n" using assms by (simp add: unsigned_of_nat take_bit_nat_eq_self)
  show "sint (of_nat n :: u32) = int n"
    using assms by (simp add: signed_of_nat signed_take_bit_int_eq_self)
qed

lemma make_commands_run:
  assumes "masked cs"
  shows "grants h (next_addr h) \<Longrightarrow> make_commands cs h =
      Inr (cs\<lparr>commands := Some (next_addr h), numCommands := int (length (listed cs) + unfilled cs)\<rparr>,
        h\<lparr>blocks := (blocks h)(next_addr h := Some (PointerBlock (map Some (listed cs) @ replicate (unfilled cs) None))),
          next_addr := Suc (next_addr h)\<rparr>)"
    and "\<not> grants h (next_addr h) \<Longrightarrow> make_commands cs h = Inr (cs, h\<lparr>next_addr := Suc (next_addr h)\<rparr>)"
proof -
  note n = count_listed [OF assms]
  let ?n = "length (listed cs) + unfilled cs"
  note u = small_word [OF n(2)]
  let ?cs = "cs\<lparr>commands := Some (next_addr h), numCommands := int ?n\<rparr>"
  have L: "listed ?cs = listed cs" unfolding listed_def by simp
  let ?h = "h\<lparr>blocks := (blocks h)(next_addr h := Some (PointerBlock (replicate ?n None))), next_addr := Suc (next_addr h)\<rparr>"
  have "fill_commands ?cs (next_addr h) ?h = Inr (?h\<lparr>blocks := (blocks ?h)(next_addr h :=
      Some (PointerBlock (map Some (listed cs) @ replicate (unfilled cs) None)))\<rparr>)"
    using fill_listed [of ?h "next_addr h" ?cs "unfilled cs"] unfolding L by simp
  then show "grants h (next_addr h) \<Longrightarrow> make_commands cs h =
      Inr (?cs, h\<lparr>blocks := (blocks h)(next_addr h := Some (PointerBlock (map Some (listed cs) @ replicate (unfilled cs) None))),
          next_addr := Suc (next_addr h)\<rparr>)"
    unfolding make_commands_def n(1) u Let_def by (simp add: malloc_def Let_def del: replicate_add)
  show "\<not> grants h (next_addr h) \<Longrightarrow> make_commands cs h = Inr (cs, h\<lparr>next_addr := Suc (next_addr h)\<rparr>)"
    by (simp add: make_commands_def malloc_def Let_def)
qed

lemma supported_run:
  assumes "0 \<le> sock so" "sock so < 1024" "kernel (respond w)"
  shows "\<exists>vs vs' vs'' ws bm. bitmaps so w (run_calls vs w) (run_calls vs' w) (run_calls vs'' w) bm \<and>
      numCommands bm = 0 \<and> commands bm = None \<and>
      OBDIIGetSupportedCommands (Some so) w = on_heap (make_commands bm) (run_calls ws w)"
  using query_pids [OF assms] by blast

lemma bitmaps_update [simp]:
  "bitmaps so w v v' v'' (cs\<lparr>commands := p, numCommands := n\<rparr>) = bitmaps so w v v' v'' cs"
  by (simp add: bitmaps_def)

lemma supported_result:
  assumes "0 \<le> sock so" "sock so < 1024" "kernel (respond w)"
  shows "\<exists>cs w' vs vs' vs''. OBDIIGetSupportedCommands (Some so) w = Inr (cs, w') \<and>
    bitmaps so w (run_calls vs w) (run_calls vs' w) (run_calls vs'' w) cs \<and>
    (if grants (w_heap w) (next_addr (w_heap w))
     then commands cs = Some (next_addr (w_heap w)) \<and>
       blocks (w_heap w') = (blocks (w_heap w))(next_addr (w_heap w) :=
         Some (PointerBlock (map Some (listed cs) @ replicate (unfilled cs) None))) \<and>
       numCommands cs = int (length (listed cs) + unfilled cs)
     else commands cs = None \<and> numCommands cs = 0 \<and> blocks (w_heap w') = blocks (w_heap w))"
proof -
  let ?h = "w_heap w"
  from supported_run [OF assms] obtain vs vs' vs'' ws bm where
    bm: "bitmaps so w (run_calls vs w) (run_calls vs' w) (run_calls vs'' w) bm"
      "numCommands bm = 0" "commands bm = None"
    and run: "OBDIIGetSupportedCommands (Some so) w = on_heap (make_commands bm) (run_calls ws w)" by blast
  note mk = make_commands_run [OF bitmaps_masked [OF bm(1)], of ?h]
  have same: "listed (bm\<lparr>commands := p, numCommands := n\<rparr>) = listed bm"
    "unfilled (bm\<lparr>commands := p, numCommands := n\<rparr>) = unfilled bm" for p n
    by (simp_all add: listed_def unfilled_def)
  show ?thesis
  proof (cases "grants ?h (next_addr ?h)")
    case True
    let ?cs = "bm\<lparr>commands := Some (next_addr ?h), numCommands := int (length (listed bm) + unfilled bm)\<rparr>"
    have "bitmaps so w (run_calls vs w) (run_calls vs' w) (run_calls vs'' w) ?cs" using bm(1) by simp
    with True mk(1) [OF True] show ?thesis unfolding run on_heap_def
      by (intro exI [of _ ?cs]) (auto simp: same)
  next
    case False
    with mk(2) [OF False] bm show ?thesis unfolding run on_heap_def
      by (intro exI [of _ bm]) auto
  qed
qed

section \<open>Asking a vehicle\<close>

lemma last_request_exchange:
  "p \<noteq> [] \<Longrightarrow> last_request s (hist @ [(Write s p, r), (Select n fd sec usec, r')]) = p"
  by (induction hist) (auto split: call.splits)

lemma last_request_write: "p \<noteq> [] \<Longrightarrow> last_request s (hist @ [(Write s p, r)]) = p"
  by (induction hist) (auto split: call.splits)

lemma history_run_calls_2:
  "history (run_calls (cs @ [a, b]) w) = history (run_calls cs w) @
     [(a, respond w (history (run_calls cs w)) a),
      (b, respond w (history (run_calls cs w) @ [(a, respond w (history (run_calls cs w)) a)]) b)]"
  by (subst run_calls_append [symmetric]) (simp add: run_calls.simps del: run_calls_append)

text \<open>What a vehicle that answers reports depends on its answer to that request alone.\<close>

lemma reported_answer:
  assumes "answering ecu (sock so) (respond w)" "c_expectedResponseLength c = 6" "c_payload c = [m, pid]"
    and "ecu [m, pid] = [m + 0x40, pid, b0, b1, b2, b3]" "m = 1 \<or> m = 9"
  shows "reported so c (run_calls ws w) = be_word [b0, b1, b2, b3]"
proof -
  let ?w = "run_calls ws w" and ?c1 = "Write (sock so) [m, pid]" and ?c2 = "Select (sock so + 1) (sock so) 1 0"
  let ?h0 = "history (run_calls (lock_calls so) ?w)"
  let ?h1 = "?h0 @ [(?c1, respond w ?h0 ?c1)]"
  let ?h2 = "?h0 @ [(?c1, respond w ?h0 ?c1), (?c2, respond w ?h1 ?c2)]"
  note ans = assms(1) [unfolded answering_def, rule_format]
  have x: "exchange so c = [?c1, ?c2, Read (sock so) 6]"
    by (simp add: exchange_def assms(2,3) buffer_size_def)
  have h: "history (run_calls (lock_calls so @ [?c1, ?c2]) ?w) = ?h2" "history (run_calls (lock_calls so @ [?c1]) ?w) = ?h1"
    using history_run_calls_2 [of "lock_calls so" ?c1 ?c2 ?w]
    by (simp, subst run_calls_append [symmetric], simp add: run_calls.simps del: run_calls_append)
  have q: "last_request (sock so) ?h2 = [m, pid]" "last_request (sock so) ?h1 = [m, pid]"
    by (simp_all only: last_request_exchange last_request_write list.distinct simp_thms)
  have r: "ret (received so c ?w) = 6" "bytes (received so c ?w) = [m + 0x40, pid, b0, b1, b2, b3]"
    using ans [of ?h2] q(1) h(1) unfolding received_def x
    by (simp_all add: buffer_size_def assms(2,4) numeral_2_eq_2)
  have "exchanged so c ?w"
    unfolding exchanged_def x r using ans [of ?h0] ans [of ?h1] q(2) h(2) assms(4)
    by (simp add: assms(2,3) r)
  moreover have "answers c [m + 0x40, pid, b0, b1, b2, b3] 6"
    using assms(2,3,5) by (auto simp: answers_def OBDIICommandGetMode_def OBDIICommandGetPID_def)
  ultimately show ?thesis
    by (simp add: reported_def r Let_def del: be_word.simps)
qed

lemma answered_bitmaps:
  assumes "answering ecu (sock so) (respond w)"
    and "ecu [0x01, 0x00] = [0x41, 0x00, ka, kb, kc, kd]" "ecu [0x01, 0x20] = [0x41, 0x20, la, lb, lc, ld]"
    and "ecu [0x01, 0x40] = [0x41, 0x40, ma, mb, mc, md]" "ecu [0x09, 0x00] = [0x49, 0x00, na, nb, nc, nd]"
    and "bitmaps so w (run_calls vs w) (run_calls vs' w) (run_calls vs'' w) cs"
  shows "pids_1_to_20 cs = be_word [ka, kb, kc, kd] \<and>
    pids_21_to_40 cs = (if pids_1_to_20 cs AND 1 \<noteq> 0 then be_word [la, lb, lc, ld] else 0) \<and>
    pids_41_to_60 cs = (if pids_21_to_40 cs AND 1 \<noteq> 0 then be_word [ma, mb, mc, md] AND 0xFFFC0000 else 0) \<and>
    mode9_pids cs = be_word [na, nb, nc, nd] AND 0xE0000000"
proof -
  have len: "c_expectedResponseLength (OBDIIMode1Commands ! pid) = 6" if "pid \<in> {0, 32, 64}" for pid
    using that pid_queries(2,4,6) by (auto simp: meets_def)
  note answer = reported_answer [OF assms(1)]
  have "reported so (OBDIIMode1Commands ! 0) w = be_word [ka, kb, kc, kd]"
    using answer [of "OBDIIMode1Commands ! 0" 1 0 ka kb kc kd "[]"] assms(2) len
    by (simp add: mode1_payload)
  moreover have "reported so (OBDIIMode1Commands ! 32) (run_calls vs w) = be_word [la, lb, lc, ld]"
    using assms(3) len by (intro answer [where m = 1 and pid = "0x20"]) (simp_all add: mode1_payload)
  moreover have "reported so (OBDIIMode1Commands ! 64) (run_calls vs' w) = be_word [ma, mb, mc, md]"
    using assms(4) len by (intro answer [where m = 1 and pid = "0x40"]) (simp_all add: mode1_payload)
  moreover have "reported so (OBDIIMode9Commands ! 0) (run_calls vs'' w) = be_word [na, nb, nc, nd]"
    using assms(5) mode9_entries(1,7)
    by (intro answer [where m = 9 and pid = 0]) (simp_all add: meets_def)
  ultimately show ?thesis using assms(6) by (simp add: bitmaps_def del: be_word.simps)
qed

text \<open>C5. On a socket that fits an \<open>fd_set\<close>, asking for the supported commands always returns. Its bitmaps are the ones the vehicle
  reported, the next one asked for only where the last PID of the one before was set, without the
  PIDs the library does not implement. With memory for it, the array holds exactly the listed
  commands in table order, every store inside it, and \<open>numCommands\<close> is its size, which exceeds the
  number of commands by one when the vehicle supports PID 3 of mode 9. Without memory there is no
  array and the count is zero.\<close>

theorem supported_commands_listed:
  assumes "0 \<le> sock so" "sock so < 1024" "kernel (respond w)"
  shows "\<exists>cs w' vs vs' vs''. OBDIIGetSupportedCommands (Some so) w = Inr (cs, w') \<and>
    bitmaps so w (run_calls vs w) (run_calls vs' w) (run_calls vs'' w) cs \<and>
    (if grants (w_heap w) (next_addr (w_heap w))
     then commands cs = Some (next_addr (w_heap w)) \<and>
       blocks (w_heap w') = (blocks (w_heap w))(next_addr (w_heap w) :=
         Some (PointerBlock (map Some (listed cs) @ replicate (unfilled cs) None))) \<and>
       numCommands cs = int (length (listed cs) + unfilled cs)
     else commands cs = None \<and> numCommands cs = 0 \<and> blocks (w_heap w') = blocks (w_heap w))"
  using assms by (rule supported_result)

text \<open>A vehicle with engine speed, and with PID 3 of mode 9.\<close>

definition small_car :: "byte list \<Rightarrow> byte list" where
  "small_car p = (if p = [0x01, 0x00] then [0x41, 0x00, 0x00, 0x10, 0x00, 0x00]
     else if p = [0x01, 0x20] then [0x41, 0x20, 0, 0, 0, 0] else if p = [0x01, 0x40] then [0x41, 0x40, 0, 0, 0, 0]
     else if p = [0x09, 0x00] then [0x49, 0x00, 0x20, 0x00, 0x00, 0x00] else [])"

lemma small_car_bitmaps:
  assumes "bitmaps so (vehicle small_car l) (run_calls vs (vehicle small_car l)) (run_calls vs' (vehicle small_car l))
      (run_calls vs'' (vehicle small_car l)) cs"
  shows "listed cs = [Mode1Command 0, Mode1Command 12, Mode3Command, Mode9Command 0]" "unfilled cs = 1"
proof -
  have m: "pids_1_to_20 cs = 0x00100000" "pids_21_to_40 cs = 0" "pids_41_to_60 cs = 0" "mode9_pids cs = 0x20000000"
    using answered_bitmaps [where ecu = small_car and ka = "0" and kb = "0x10" and kc = "0" and kd = "0" and la = "0" and lb = "0" and lc = "0" and ld = "0"
        and ma = "0" and mb = "0" and mc = "0" and md = "0" and na = "0x20" and nb = "0" and nc = "0" and nd = "0", OF vehicle_answering _ _ _ _ assms]
    by (simp_all add: small_car_def)
  show "unfilled cs = 1" by (simp add: unfilled_def m)
  show "listed cs = [Mode1Command 0, Mode1Command 12, Mode3Command, Mode9Command 0]"
    by (simp add: listed_def library_def mode1_words_def m upt_rec)
qed

theorem supported_commands_listed_witness:
  "\<exists>cs w'. OBDIIGetSupportedCommands (Some shared_socket) (rpm_vehicle 0) = Inr (cs, w') \<and>
     numCommands cs = int (length (listed cs) + unfilled cs)"
proof -
  have k: "kernel (respond (rpm_vehicle 0))" unfolding rpm_vehicle_def by (rule vehicle_kernel)
  from supported_commands_listed [OF _ _ k, of shared_socket] show ?thesis by auto
qed

lemma small_car_run:
  "\<exists>cs w'. OBDIIGetSupportedCommands (Some shared_socket) (vehicle small_car 0) = Inr (cs, w') \<and>
     commands cs = Some 0 \<and> numCommands cs = 5 \<and> blocks (w_heap w') = [0 \<mapsto> PointerBlock
       [Some (Mode1Command 0), Some (Mode1Command 12), Some Mode3Command, Some (Mode9Command 0), None]]"
proof -
  have s: "0 \<le> sock shared_socket" "sock shared_socket < 1024" by simp_all
  from supported_result [OF s vehicle_kernel, of small_car 0] obtain cs w' vs vs' vs'' where
    run: "OBDIIGetSupportedCommands (Some shared_socket) (vehicle small_car 0) = Inr (cs, w')"
    and bm: "bitmaps shared_socket (vehicle small_car 0) (run_calls vs (vehicle small_car 0))
      (run_calls vs' (vehicle small_car 0)) (run_calls vs'' (vehicle small_car 0)) cs"
    and arr: "commands cs = Some 0" "numCommands cs = int (length (listed cs) + unfilled cs)"
      "blocks (w_heap w') = [0 \<mapsto> PointerBlock (map Some (listed cs) @ replicate (unfilled cs) None)]"
    by auto
  from arr show ?thesis using run by (simp add: small_car_bitmaps [OF bm])
qed

text \<open>A vehicle whose mode 9 bitmap has the bit of PID 3 gets an array with a hole: the count
  includes that PID, no command of the table is stored for it, and the last pointer of the array that
  \<open>numCommands\<close> tells the caller to read was never written.\<close>

theorem supported_commands_hole:
  "\<exists>cs w' ps. OBDIIGetSupportedCommands (Some shared_socket) (vehicle small_car 0) = Inr (cs, w') \<and>
     numCommands cs = 5 \<and> commands cs = Some 0 \<and> blocks (w_heap w') 0 = Some (PointerBlock ps) \<and>
     length ps = 5 \<and> ps ! 4 = None"
proof -
  obtain cs w' where "OBDIIGetSupportedCommands (Some shared_socket) (vehicle small_car 0) = Inr (cs, w')"
     "commands cs = Some 0" "numCommands cs = 5" "blocks (w_heap w') = [0 \<mapsto> PointerBlock
       [Some (Mode1Command 0), Some (Mode1Command 12), Some Mode3Command, Some (Mode9Command 0), None]]"
    using small_car_run by blast
  then show ?thesis by simp
qed

text \<open>C38. On any kernel and heap, a vehicle that answers the four bitmap requests over the socket is
  understood: bit by bit the bitmaps of the result are the data bytes of its answers, most significant
  byte first, where the chain of continuation bits reaches them, masked to the PIDs the library
  implements. The lock, the allocator and every other call may behave in any way.\<close>

theorem supported_pids_of_vehicle:
  assumes "0 \<le> sock so" "sock so < 1024" "kernel (respond w)" "answering ecu (sock so) (respond w)"
    and "ecu [0x01, 0x00] = [0x41, 0x00, ka, kb, kc, kd]" "ecu [0x01, 0x20] = [0x41, 0x20, la, lb, lc, ld]"
    and "ecu [0x01, 0x40] = [0x41, 0x40, ma, mb, mc, md]" "ecu [0x09, 0x00] = [0x49, 0x00, na, nb, nc, nd]"
  shows "\<exists>cs w'. OBDIIGetSupportedCommands (Some so) w = Inr (cs, w') \<and>
    pids_1_to_20 cs = be_word [ka, kb, kc, kd] \<and>
    pids_21_to_40 cs = (if pids_1_to_20 cs AND 1 \<noteq> 0 then be_word [la, lb, lc, ld] else 0) \<and>
    pids_41_to_60 cs = (if pids_21_to_40 cs AND 1 \<noteq> 0 then be_word [ma, mb, mc, md] AND 0xFFFC0000 else 0) \<and>
    mode9_pids cs = be_word [na, nb, nc, nd] AND 0xE0000000"
proof -
  from supported_result [OF assms(1-3)] obtain cs w' vs vs' vs'' where
    "OBDIIGetSupportedCommands (Some so) w = Inr (cs, w')"
    "bitmaps so w (run_calls vs w) (run_calls vs' w) (run_calls vs'' w) cs" by blast
  then show ?thesis using answered_bitmaps [OF assms(4-8)] by blast
qed

theorem supported_pids_of_vehicle_witness:
  "\<exists>cs w'. OBDIIGetSupportedCommands (Some shared_socket) (vehicle small_car 0) = Inr (cs, w') \<and>
     pids_1_to_20 cs = 0x00100000 \<and> mode9_pids cs = 0x20000000"
  using supported_pids_of_vehicle [where so = shared_socket and ecu = small_car and w = "vehicle small_car 0" and ka = "0"
      and kb = "0x10" and kc = "0" and kd = "0" and la = "0" and lb = "0" and lc = "0" and ld = "0" and ma = "0"
      and mb = "0" and mc = "0" and md = "0" and na = "0x20" and nb = "0" and nc = "0" and nd = "0",
      OF _ _ vehicle_kernel vehicle_answering]
  by (auto simp: small_car_def)

text \<open>C34. When there is memory for the array, the trouble code command is in the array of every command set the library builds, and yet the
  membership test denies it: \<open>OBDIICommandSetContainsCommand\<close>, documented to return 1 for a command that
  is present in the set, returns 0.\<close>

theorem contains_denies_trouble_codes:
  assumes "0 \<le> sock so" "sock so < 1024" "kernel (respond w)" "grants (w_heap w) (next_addr (w_heap w))"
  shows "\<exists>cs w' a ps. OBDIIGetSupportedCommands (Some so) w = Inr (cs, w') \<and> commands cs = Some a \<and>
    blocks (w_heap w') a = Some (PointerBlock ps) \<and> numCommands cs = int (length ps) \<and> Some Mode3Command \<in> set ps \<and>
    OBDIICommandSetContainsCommand (Some cs) (Some OBDIIMode3Command) = Inr 0"
proof -
  from supported_result [OF assms(1-3)] assms(4) obtain cs w' where
    run: "OBDIIGetSupportedCommands (Some so) w = Inr (cs, w')" "commands cs = Some (next_addr (w_heap w))"
      "blocks (w_heap w') (next_addr (w_heap w)) = Some (PointerBlock (map Some (listed cs) @ replicate (unfilled cs) None))"
      "numCommands cs = int (length (listed cs) + unfilled cs)" by auto
  have "Mode3Command \<in> set (listed cs)" by (simp add: listed_def library_def)
  with run contains_member [of Mode3Command OBDIIMode3Command cs] show ?thesis by fastforce
qed

theorem contains_denies_trouble_codes_witness:
  "\<exists>cs w'. OBDIIGetSupportedCommands (Some shared_socket) (rpm_vehicle 0) = Inr (cs, w') \<and>
     OBDIICommandSetContainsCommand (Some cs) (Some OBDIIMode3Command) = Inr 0"
proof -
  have k: "kernel (respond (rpm_vehicle 0))" unfolding rpm_vehicle_def by (rule vehicle_kernel)
  from contains_denies_trouble_codes [OF _ _ k, of shared_socket] show ?thesis by auto
qed

text \<open>C19. Building a command set and freeing it gives back what was allocated: whatever the vehicle
  answers, \<open>OBDIICommandSetFree\<close> succeeds and the blocks of the heap are those of before.\<close>

theorem supported_then_free:
  assumes "0 \<le> sock so" "sock so < 1024" "kernel (respond w)" "heap_ok (w_heap w)"
  shows "\<exists>cs w' h. OBDIIGetSupportedCommands (Some so) w = Inr (cs, w') \<and>
    OBDIICommandSetFree (Some cs) (w_heap w') = Inr h \<and> blocks h = blocks (w_heap w)"
proof -
  from supported_result [OF assms(1-3)] obtain cs w' where
    run: "OBDIIGetSupportedCommands (Some so) w = Inr (cs, w')" and
    arr: "if grants (w_heap w) (next_addr (w_heap w))
     then commands cs = Some (next_addr (w_heap w)) \<and>
       blocks (w_heap w') = (blocks (w_heap w))(next_addr (w_heap w) :=
         Some (PointerBlock (map Some (listed cs) @ replicate (unfilled cs) None)))
     else commands cs = None \<and> blocks (w_heap w') = blocks (w_heap w)"
    by (metis (full_types))
  show ?thesis
  proof (cases "grants (w_heap w) (next_addr (w_heap w))")
    case True
    with arr free_fresh [OF assms(4) True] run show ?thesis by (auto simp: OBDIICommandSetFree_def)
  next
    case False
    with arr run show ?thesis by (simp add: OBDIICommandSetFree_def)
  qed
qed

theorem supported_then_free_witness:
  "\<exists>cs w' h. OBDIIGetSupportedCommands (Some shared_socket) (rpm_vehicle 0) = Inr (cs, w') \<and>
    OBDIICommandSetFree (Some cs) (w_heap w') = Inr h \<and> blocks h = (\<lambda>_. None)"
proof -
  have k: "kernel (respond (rpm_vehicle 0))" unfolding rpm_vehicle_def by (rule vehicle_kernel)
  from supported_then_free [OF _ _ k, of shared_socket] show ?thesis by simp
qed

end
