(* ===== verification/Wire.thy ===== *)
theory Wire
  imports World
begin

text \<open>
  The messages between clients and the daemon: marshalling by \<open>pack\<close> in \<open>src/OBDIICommunication.c\<close> and
  unmarshalling by \<open>asuint32\<close> in \<open>src/OBDIIDaemon.c\<close>, the request and response codes of
  \<open>src/OBDIIDaemon.h\<close>, and the hexadecimal \<open>dump\<close> of a request.
\<close>

section \<open>Codes\<close>

definition OBDII_API_VERSION :: u16 where "OBDII_API_VERSION = 1"

datatype OBDIIDaemonRequestType = OBDIIDaemonRequestOpenSocket | OBDIIDaemonRequestCloseSocket

datatype OBDIIDaemonResponseCode = OBDIIDaemonResponseCodeSuccess | OBDIIDaemonResponseCodeNoSuchSocket
  | OBDIIDaemonResponseCodeOpenSocketError

fun request_code :: "OBDIIDaemonRequestType \<Rightarrow> u16" where
  "request_code OBDIIDaemonRequestOpenSocket = 0"
| "request_code OBDIIDaemonRequestCloseSocket = 1"

fun response_code :: "OBDIIDaemonResponseCode \<Rightarrow> u16" where
  "response_code OBDIIDaemonResponseCodeSuccess = 0"
| "response_code OBDIIDaemonResponseCodeNoSuchSocket = 1"
| "response_code OBDIIDaemonResponseCodeOpenSocketError = 2"

definition OBDII_DAEMON_REQUEST_MAX_SIZE :: nat where "OBDII_DAEMON_REQUEST_MAX_SIZE = 100"
definition OBDII_DAEMON_REQUEST_HEADER_SIZE :: int where "OBDII_DAEMON_REQUEST_HEADER_SIZE = 4"
definition OBDII_DAEMON_SOCKET_PATH :: string where "OBDII_DAEMON_SOCKET_PATH = ''/tmp/obdiid.sock''"

definition ENOENT :: int where "ENOENT = 2"

section \<open>Marshalling\<close>

text \<open>The bytes of an integer object in memory, least significant first.\<close>

definition bytes16 :: "u16 \<Rightarrow> byte list" where
  "bytes16 w = [ucast w, ucast (drop_bit 8 w)]"

definition bytes32 :: "u32 \<Rightarrow> byte list" where
  "bytes32 w = [ucast w, ucast (drop_bit 8 w), ucast (drop_bit 16 w), ucast (drop_bit 24 w)]"

text \<open>\<open>pack\<close> copies an object to the cursor and moves it; the cursor is an index into the buffer.\<close>

definition pack :: "byte list \<Rightarrow> byte list \<times> nat \<Rightarrow> (byte list \<times> nat) outcome" where
  "pack obj cur = (case cur of (buffer, p) \<Rightarrow>
     if p + length obj \<le> length buffer
     then Inr (take p buffer @ obj @ drop (p + length obj) buffer, p + length obj)
     else Inl OutOfBounds)"

text \<open>\<open>asuint32\<close>, converted to an unsigned integer, and the two-byte fields of the header.\<close>

definition asuint32 :: "byte list \<Rightarrow> nat \<Rightarrow> u32 outcome" where
  "asuint32 buf i = obind (rd buf i) (\<lambda>a. obind (rd buf (i + 1)) (\<lambda>b.
     obind (rd buf (i + 2)) (\<lambda>c. obind (rd buf (i + 3)) (\<lambda>d.
       Inr (ucast a OR push_bit 8 (ucast b) OR push_bit 16 (ucast c) OR push_bit 24 (ucast d))))))"

definition asuint16 :: "byte list \<Rightarrow> nat \<Rightarrow> u16 outcome" where
  "asuint16 buf i = obind (rd buf i) (\<lambda>a. obind (rd buf (i + 1)) (\<lambda>b.
     Inr (ucast a OR push_bit 8 (ucast b))))"

section \<open>Dumping a request\<close>

text \<open>The digits of \<open>%x\<close>, and the text \<open>%02x\<close> prints for an unsigned integer.\<close>

fun hex_digits :: "nat \<Rightarrow> string" where
  "hex_digits n = (if n < 16 then [''0123456789abcdef'' ! n]
     else hex_digits (n div 16) @ [''0123456789abcdef'' ! (n mod 16)])"

declare hex_digits.simps [simp del]

definition format_02x :: "u32 \<Rightarrow> string" where
  "format_02x v = (let s = hex_digits (unat v) in replicate (2 - length s) (CHR ''0'') @ s)"

text \<open>\<open>sprintf\<close> stores the text and a NUL byte.\<close>

definition store :: "nat \<Rightarrow> byte list \<Rightarrow> byte list \<Rightarrow> byte list outcome" where
  "store i bs dest = (if i + length bs \<le> length dest
     then Inr (take i dest @ bs @ drop (i + length bs) dest) else Inl OutOfBounds)"

text \<open>The source is a \<open>char *\<close>, so a byte from \<open>0x80\<close> up is passed to \<open>sprintf\<close> as a negative \<open>int\<close>.\<close>

fun dump :: "nat \<Rightarrow> byte list \<Rightarrow> byte list \<Rightarrow> byte list outcome" where
  "dump i [] dest = Inr dest"
| "dump i (c # src) dest =
     obind (store i (map of_char (format_02x (word_of_int (sint c))) @ [0]) dest) (dump (i + 2) src)"

section \<open>Round trips\<close>

lemma length_bytes [simp]: "length (bytes16 v) = 2" "length (bytes32 w) = 4"
  by (simp_all add: bytes16_def bytes32_def)

lemma bytes16_word: "(ucast (ucast w :: byte) OR push_bit 8 (ucast (ucast (drop_bit 8 w) :: byte)) :: u16) = w"
  by (rule bit_word_eqI) (auto simp: bit_simps)

lemma bytes32_word:
  "(ucast (ucast w :: byte) OR push_bit 8 (ucast (ucast (drop_bit 8 w) :: byte)) OR
    push_bit 16 (ucast (ucast (drop_bit 16 w) :: byte)) OR push_bit 24 (ucast (ucast (drop_bit 24 w) :: byte)) :: u32) = w"
proof (rule bit_word_eqI)
  fix n assume "n < LENGTH(32)"
  consider "n < 8" | "8 \<le> n" "n < 16" | "16 \<le> n" "n < 24" | "24 \<le> n" by linarith
  then show "bit (ucast (ucast w :: byte) OR push_bit 8 (ucast (ucast (drop_bit 8 w) :: byte)) OR
    push_bit 16 (ucast (ucast (drop_bit 16 w) :: byte)) OR push_bit 24 (ucast (ucast (drop_bit 24 w) :: byte)) :: u32) n
      = bit w n"
    using \<open>n < LENGTH(32)\<close> by cases (auto simp: bit_simps)
qed

lemma rd_append: "rd (xs @ ys) (length xs + i) = rd ys i"
  by (cases "i < length ys") simp_all

lemma asuint32_bytes: "asuint32 (xs @ bytes32 w @ ys) (length xs) = Inr w"
  using rd_append [of xs "bytes32 w @ ys" 0] rd_append [of xs "bytes32 w @ ys" 1]
    rd_append [of xs "bytes32 w @ ys" 2] rd_append [of xs "bytes32 w @ ys" 3]
  by (simp add: asuint32_def bytes32_def bytes32_word [of w] numeral_2_eq_2 numeral_3_eq_3)

lemma asuint16_bytes: "asuint16 (xs @ bytes16 w @ ys) (length xs) = Inr w"
  using rd_append [of xs "bytes16 w @ ys" 0] rd_append [of xs "bytes16 w @ ys" 1]
  by (simp add: asuint16_def bytes16_def bytes16_word [of w])

lemma asuint32_defined: "i + 4 \<le> length buf \<Longrightarrow> \<exists>w. asuint32 buf i = Inr w"
  by (simp add: asuint32_def)

lemma asuint16_defined: "i + 2 \<le> length buf \<Longrightarrow> \<exists>w. asuint16 buf i = Inr w"
  by (simp add: asuint16_def)

text \<open>The other way round: the fields of a message determine its bytes.\<close>

lemma bytes16_of: "bytes16 (ucast a OR push_bit 8 (ucast b)) = [a, b]" for a b :: byte
proof -
  have "ucast (ucast a OR push_bit 8 (ucast b) :: u16) = a"
    "ucast (drop_bit 8 (ucast a OR push_bit 8 (ucast b) :: u16)) = b"
    by (rule bit_word_eqI, auto simp: bit_simps dest: bit_imp_le_length)+
  then show ?thesis by (simp add: bytes16_def)
qed

lemma bytes32_of:
  "bytes32 (ucast a OR push_bit 8 (ucast b) OR push_bit 16 (ucast c) OR push_bit 24 (ucast d)) = [a, b, c, d]"
  for a b c d :: byte
proof -
  let ?w = "ucast a OR push_bit 8 (ucast b) OR push_bit 16 (ucast c) OR push_bit 24 (ucast d) :: u32"
  have "ucast ?w = a" "ucast (drop_bit 8 ?w) = b" "ucast (drop_bit 16 ?w) = c" "ucast (drop_bit 24 ?w) = d"
    by (rule bit_word_eqI, auto simp: bit_simps dest: bit_imp_le_length)+
  then show ?thesis by (simp add: bytes32_def)
qed

lemma take_drop_nth:
  "i + 2 \<le> length xs \<Longrightarrow> take 2 (drop i xs) = [xs ! i, xs ! (i + 1)]"
  "i + 4 \<le> length xs \<Longrightarrow> take 4 (drop i xs) = [xs ! i, xs ! (i + 1), xs ! (i + 2), xs ! (i + 3)]"
  by (rule nth_equalityI; auto simp: less_Suc_eq numeral_2_eq_2 numeral_3_eq_3 numeral_eq_Suc)+

lemma asuint16_inv: "asuint16 buf i = Inr w \<Longrightarrow> i + 2 \<le> length buf \<Longrightarrow> take 2 (drop i buf) = bytes16 w"
  unfolding take_drop_nth(1) by (auto simp: asuint16_def bytes16_of)

lemma asuint32_inv: "asuint32 buf i = Inr w \<Longrightarrow> i + 4 \<le> length buf \<Longrightarrow> take 4 (drop i buf) = bytes32 w"
  unfolding take_drop_nth(2) by (auto simp: asuint32_def bytes32_of)

section \<open>Fields\<close>

text \<open>What the two programs rely on for a field: the client writes the bytes of an integer, the daemon reads
  an integer from the same place and gets the one that was written, and from any bytes it reads the only
  integer that has them.\<close>

locale wire_field =
  fixes to_bytes :: "'v \<Rightarrow> byte list" and from_bytes :: "byte list \<Rightarrow> nat \<Rightarrow> 'v outcome" and width :: nat
  assumes field_width: "length (to_bytes v) = width"
    and read_written: "from_bytes (xs @ to_bytes v @ ys) (length xs) = Inr v"
    and reads: "i + width \<le> length buf \<Longrightarrow> \<exists>v. from_bytes buf i = Inr v"
    and written_read: "from_bytes buf i = Inr v \<Longrightarrow> i + width \<le> length buf \<Longrightarrow> take width (drop i buf) = to_bytes v"
begin

lemma read_iff: "i + width \<le> length buf \<Longrightarrow> from_bytes buf i = Inr v \<longleftrightarrow> take width (drop i buf) = to_bytes v"
proof
  assume i: "i + width \<le> length buf" and v: "take width (drop i buf) = to_bytes v"
  have "buf = take i buf @ take width (drop i buf) @ drop width (drop i buf)" by (simp only: append_take_drop_id)
  then have "buf = take i buf @ to_bytes v @ drop width (drop i buf)" by (simp only: v)
  moreover have "length (take i buf) = i" using i by simp
  ultimately show "from_bytes buf i = Inr v" using read_written [of "take i buf" v "drop width (drop i buf)"] by metis
qed (rule written_read)

lemma inject: "to_bytes v = to_bytes u \<longleftrightarrow> v = u"
proof
  assume "to_bytes v = to_bytes u"
  with read_written [of "[]" v "[]"] read_written [of "[]" u "[]"] show "v = u" by (simp del: append_Nil append_Nil2)
qed simp

text \<open>A buffer with room for the field, cut into what is before it, the field, and what is after it.\<close>

lemma cut:
  assumes "i + width \<le> length buf"
  obtains v where "from_bytes buf i = Inr v" "drop i buf = to_bytes v @ drop (i + width) buf"
proof -
  from reads [OF assms] obtain v where v: "from_bytes buf i = Inr v" ..
  have "drop i buf = take width (drop i buf) @ drop (i + width) buf"
    by (simp only: append_take_drop_id add.commute [of i] flip: drop_drop)
  with written_read [OF v assms] that [OF v] show ?thesis by simp
qed

end

interpretation field16: wire_field bytes16 asuint16 2
  by unfold_locales (fact length_bytes asuint16_bytes asuint16_defined asuint16_inv)+

interpretation field32: wire_field bytes32 asuint32 4
  by unfold_locales (fact length_bytes asuint32_bytes asuint32_defined asuint32_inv)+

section \<open>Requests\<close>

text \<open>The bytes of a request, as \<open>doc/daemon.md\<close> gives them: version, type, interface index, transfer
  and receive identifier, least significant byte first.\<close>

definition request_bytes :: "OBDIIDaemonRequestType \<Rightarrow> u32 \<times> u32 \<times> u32 \<Rightarrow> byte list" where
  "request_bytes ty k = (case k of (i, t, r) \<Rightarrow>
     bytes16 1 @ bytes16 (request_code ty) @ bytes32 i @ bytes32 t @ bytes32 r)"

lemma length_request_bytes [simp]: "length (request_bytes ty k) = 16"
  by (cases k) (simp add: request_bytes_def)

lemma request_header:
  "asuint16 (request_bytes ty k @ rest) 0 = Inr 1"
  "asuint16 (request_bytes ty k @ rest) 2 = Inr (request_code ty)"
proof -
  obtain i t r where k: "k = (i, t, r)" by (cases k)
  show "asuint16 (request_bytes ty k @ rest) 0 = Inr 1"
    using asuint16_bytes [of "[]" 1] by (simp add: request_bytes_def k)
  show "asuint16 (request_bytes ty k @ rest) 2 = Inr (request_code ty)"
    using asuint16_bytes [of "bytes16 1" "request_code ty"] by (simp add: request_bytes_def k)
qed

lemma request_parameters:
  "asuint32 (drop 4 (request_bytes ty (i, t, r) @ rest)) 0 = Inr i"
  "asuint32 (drop 4 (request_bytes ty (i, t, r) @ rest)) 4 = Inr t"
  "asuint32 (drop 4 (request_bytes ty (i, t, r) @ rest)) 8 = Inr r"
proof -
  have d: "drop 4 (request_bytes ty (i, t, r) @ rest) = bytes32 i @ bytes32 t @ bytes32 r @ rest"
    by (simp add: request_bytes_def)
  show "asuint32 (drop 4 (request_bytes ty (i, t, r) @ rest)) 0 = Inr i"
    "asuint32 (drop 4 (request_bytes ty (i, t, r) @ rest)) 4 = Inr t"
    "asuint32 (drop 4 (request_bytes ty (i, t, r) @ rest)) 8 = Inr r"
    unfolding d using asuint32_bytes [of "[]" i] asuint32_bytes [of "bytes32 i" t]
      asuint32_bytes [of "bytes32 i @ bytes32 t" r] by simp_all
qed

text \<open>Every message with the right header and enough bytes is a request.\<close>

lemma request_complete:
  assumes "16 \<le> length req" "asuint16 req 0 = Inr 1" "asuint16 req 2 = Inr (request_code ty)"
  shows "\<exists>k rest. req = request_bytes ty k @ rest"
proof -
  have l: "0 + 2 \<le> length req" "2 + 2 \<le> length req" "4 + 4 \<le> length req" "8 + 4 \<le> length req" "12 + 4 \<le> length req"
    using assms(1) by simp_all
  obtain i where i: "drop 4 req = bytes32 i @ drop 8 req" using field32.cut [OF l(3)] by auto
  obtain t where t: "drop 8 req = bytes32 t @ drop 12 req" using field32.cut [OF l(4)] by auto
  obtain r where r: "drop 12 req = bytes32 r @ drop 16 req" using field32.cut [OF l(5)] by auto
  have h: "drop 2 req = bytes16 (request_code ty) @ drop 4 req" using field16.cut [OF l(2)] assms(3) by auto
  obtain v where v: "asuint16 req 0 = Inr v" "drop 0 req = bytes16 v @ drop (0 + 2) req" by (rule field16.cut [OF l(1)])
  have "v = 1" using v(1) assms(2) by simp
  have "req = bytes16 1 @ drop 2 req" using v(2) unfolding \<open>v = 1\<close> drop_0 add_0 .
  also have "\<dots> = bytes16 1 @ bytes16 (request_code ty) @ bytes32 i @ bytes32 t @ bytes32 r @ drop 16 req"
    by (simp only: h i t r)
  also have "\<dots> = request_bytes ty (i, t, r) @ drop 16 req" by (simp add: request_bytes_def)
  finally show ?thesis by blast
qed

end
