(* ===== verification/Formats.thy ===== *)
theory Formats
  imports Wire
begin

text \<open>
  The parts of the C standard library that format and read numbers, as far as the client library and the
  command line tool use them: \<open>%d\<close> and \<open>%.2f\<close> of \<open>printf\<close>, \<open>strtoul\<close> in base 16 and \<open>%d\<close> of \<open>sscanf\<close>.
\<close>

section \<open>Printing\<close>

fun digits :: "nat \<Rightarrow> string" where
  "digits n = (if n < 10 then [''0123456789'' ! n] else digits (n div 10) @ [''0123456789'' ! (n mod 10)])"

declare digits.simps [simp del]

text \<open>\<open>%d\<close>, \<open>%i\<close> and \<open>%ld\<close>.\<close>

definition decimal :: "int \<Rightarrow> string" where
  "decimal i = (if i < 0 then CHR ''-'' # digits (nat (- i)) else digits (nat i))"

text \<open>\<open>%.2f\<close>: the value in hundredths, rounded to nearest with ties to even, with two digits after the
  point. (The value is finite, and zero is printed without a sign.)\<close>

definition round_even :: "rat \<Rightarrow> int" where
  "round_even x = (let n = \<lfloor>x\<rfloor> in
     if x - of_int n < 1 / 2 \<or> x - of_int n = 1 / 2 \<and> even n then n else n + 1)"

definition format_2f :: "rat \<Rightarrow> string" where
  "format_2f x = (let n = nat (round_even (\<bar>x\<bar> * 100)); frac = digits (n mod 100) in
     (if x < 0 then ''-'' else '''') @ digits (n div 100) @ ''.'' @ replicate (2 - length frac) (CHR ''0'') @ frac)"

text \<open>\<open>%08x\<close>\<close>

definition format_08x :: "u32 \<Rightarrow> string" where
  "format_08x v = (let s = hex_digits (unat v) in replicate (8 - length s) (CHR ''0'') @ s)"

section \<open>Reading\<close>

definition isspace :: "char \<Rightarrow> bool" where
  "isspace c \<longleftrightarrow> c = CHR '' '' \<or> 9 \<le> (of_char c :: nat) \<and> (of_char c :: nat) \<le> 13"

text \<open>The value of a digit in a base up to 16.\<close>

definition digit_value :: "nat \<Rightarrow> char \<Rightarrow> nat option" where
  "digit_value base c = (let n = (of_char c :: nat);
     d = (if 48 \<le> n \<and> n \<le> 57 then n - 48 else if 97 \<le> n \<and> n \<le> 102 then n - 87
          else if 65 \<le> n \<and> n \<le> 70 then n - 55 else 16) in if d < base then Some d else None)"

text \<open>The longest run of digits: how many, and their value.\<close>

fun read_digits :: "nat \<Rightarrow> nat \<Rightarrow> string \<Rightarrow> nat \<times> nat" where
  "read_digits base v [] = (0, v)"
| "read_digits base v (c # s) = (case digit_value base c of None \<Rightarrow> (0, v)
     | Some d \<Rightarrow> (case read_digits base (v * base + d) s of (k, v) \<Rightarrow> (Suc k, v)))"

text \<open>An optional sign.\<close>

fun read_sign :: "string \<Rightarrow> bool \<times> string" where
  "read_sign (c # s) = (if c = CHR ''-'' then (True, s) else if c = CHR ''+'' then (False, s) else (False, c # s))"
| "read_sign [] = (False, [])"

text \<open>An optional \<open>0x\<close> before a hexadecimal digit.\<close>

fun skip_prefix :: "string \<Rightarrow> string" where
  "skip_prefix (z # x # d # s) = (if z = CHR ''0'' \<and> (x = CHR ''x'' \<or> x = CHR ''X'') \<and> digit_value 16 d \<noteq> None
     then d # s else z # x # d # s)"
| "skip_prefix s = s"

text \<open>\<open>strtoul(s, NULL, 16)\<close>: a 64-bit value, the greatest one when the number is too large; a minus sign
  negates modulo \<open>2 ^ 64\<close>.\<close>

definition strtoul16 :: "string \<Rightarrow> 64 word" where
  "strtoul16 s = (case read_sign (dropWhile isspace s) of (negative, s) \<Rightarrow>
     (let v = snd (read_digits 16 0 (skip_prefix s)) in
      if 2 ^ 64 \<le> v then - 1 else if negative then - of_nat v else of_nat v))"

text \<open>\<open>%d\<close> of \<open>sscanf\<close>: the number and the rest of the input, \<open>None\<close> when there is no number. A value that
  is not an \<open>int\<close> makes the behaviour undefined.\<close>

definition scan_int :: "string \<Rightarrow> (int \<times> string) option outcome" where
  "scan_int s = (case read_sign (dropWhile isspace s) of (negative, s) \<Rightarrow>
     (case read_digits 10 0 s of (k, v) \<Rightarrow>
        if k = 0 then Inr None
        else let i = (if negative then - int v else int v) in
          if - (2 ^ 31) \<le> i \<and> i < 2 ^ 31 then Inr (Some (i, drop k s)) else Inl SignedOverflow))"

text \<open>\<open>%ns\<close> of \<open>sscanf\<close>: up to \<open>n\<close> characters that are not white space.\<close>

definition scan_word :: "nat \<Rightarrow> string \<Rightarrow> (string \<times> string) option" where
  "scan_word n s = (let s = dropWhile isspace s; t = takeWhile (\<lambda>c. \<not> isspace c) (take n s) in
     if t = [] then None else Some (t, drop (length t) s))"

end
