(* ===== verification/Daemon_Log.thy ===== *)
theory Daemon_Log
  imports Formats
begin

text \<open>
  The state of the daemon and its log, \<open>Log\<close> of \<open>src/OBDIIDaemon.c\<close>, and that whole programs only add lines
  to the log.
\<close>

section \<open>The state\<close>

record OBDIISocketConnection =
  conn_ifindex :: u32
  conn_tid :: u32
  conn_rid :: u32
  conn_s :: int
  refcount :: int
  prev_conn :: "addr option"
  next_conn :: "addr option"

text \<open>
  The globals of the daemon: the head of the list of connections, and the log file, \<open>None\<close> for a null
  pointer or the lines this process has written. Two parts of the C library that only the log uses are
  functions: the text \<open>strftime\<close> makes of the time at which each line is written, and \<open>strerror\<close>.
\<close>

record daemon_globals =
  obdiiSockets :: "addr option"
  LogFile :: "string list option"
  timestr :: "nat \<Rightarrow> string"
  strerror :: "int \<Rightarrow> string"

type_synonym daemon = "(OBDIISocketConnection, daemon_globals) world_of"

type_synonym 'a daemon_io = "(OBDIISocketConnection, daemon_globals, 'a) io_of"

definition get_obdiiSockets :: "addr option daemon_io" where
  "get_obdiiSockets w = Inr (obdiiSockets (globals w), w)"

definition with_head :: "addr option \<Rightarrow> daemon \<Rightarrow> daemon" where
  "with_head head w = w\<lparr>globals := (globals w)\<lparr>obdiiSockets := head\<rparr>\<rparr>"

definition set_obdiiSockets :: "addr option \<Rightarrow> unit daemon_io" where
  "set_obdiiSockets head w = Inr ((), with_head head w)"

section \<open>Writing a line\<close>

definition write_line :: "string \<Rightarrow> daemon_globals \<Rightarrow> daemon_globals" where
  "write_line text g = (case LogFile g of None \<Rightarrow> g
     | Some lines \<Rightarrow> g\<lparr>LogFile := Some (lines @ [timestr g (length lines) @ '' '' @ text])\<rparr>)"

text \<open>The argument is the text the format and its arguments give. The code looks at no result of \<open>time\<close>,
  \<open>localtime\<close>, \<open>fprintf\<close> and \<open>fflush\<close>; what they leave behind, the content of the stream, is the model's
  state, and they are not calls of the history. A stream that cannot be written is not modelled.\<close>

definition Log :: "string \<Rightarrow> unit daemon_io" where
  "Log text w = Inr ((), w\<lparr>globals := write_line text (globals w)\<rparr>)"

text \<open>A line that ends in the text of an error number.\<close>

definition LogError :: "string \<Rightarrow> int \<Rightarrow> unit daemon_io" where
  "LogError text errno = io_bind get_globals (\<lambda>g. Log (text @ strerror g errno))"

text \<open>\<open>%x\<close>\<close>

definition hexadecimal :: "u32 \<Rightarrow> string" where
  "hexadecimal v = hex_digits (unat v)"

section \<open>Running past a line\<close>

definition logged :: "string list \<Rightarrow> daemon \<Rightarrow> daemon" where
  "logged ts w = w\<lparr>globals := fold write_line ts (globals w)\<rparr>"

lemma write_line_frame [simp]: "obdiiSockets (write_line text g) = obdiiSockets g"
  "timestr (write_line text g) = timestr g" "strerror (write_line text g) = strerror g"
  "write_line text (g\<lparr>obdiiSockets := h\<rparr>) = (write_line text g)\<lparr>obdiiSockets := h\<rparr>"
  by (auto simp: write_line_def split: option.split)

lemma write_lines_frame [simp]: "obdiiSockets (fold write_line ts g) = obdiiSockets g"
  "timestr (fold write_line ts g) = timestr g" "strerror (fold write_line ts g) = strerror g"
  "(fold write_line ts g)\<lparr>obdiiSockets := h\<rparr> = fold write_line ts (g\<lparr>obdiiSockets := h\<rparr>)"
  by (induction ts arbitrary: g) simp_all

lemma logged_frame [simp]: "w_heap (logged ts w) = w_heap w" "history (logged ts w) = history w"
  "respond (logged ts w) = respond w" "obdiiSockets (globals (logged ts w)) = obdiiSockets (globals w)"
  "strerror (globals (logged ts w)) = strerror (globals w)"
  "calls (logged ts w) = calls w" "(logged ts w)\<lparr>w_heap := h\<rparr> = logged ts (w\<lparr>w_heap := h\<rparr>)"
  "(logged ts w)\<lparr>history := hist\<rparr> = logged ts (w\<lparr>history := hist\<rparr>)"
  "with_head a (logged ts w) = logged ts (with_head a w)"
  by (simp_all add: logged_def calls_def with_head_def)

lemma with_head_frame [simp]: "w_heap (with_head a w) = w_heap w" "history (with_head a w) = history w"
  "respond (with_head a w) = respond w" "obdiiSockets (globals (with_head a w)) = a"
  "calls (with_head a w) = calls w" "(with_head a w)\<lparr>w_heap := h\<rparr> = with_head a (w\<lparr>w_heap := h\<rparr>)"
  "(with_head a w)\<lparr>history := hist\<rparr> = with_head a (w\<lparr>history := hist\<rparr>)" "with_head a (with_head b w) = with_head a w"
  by (simp_all add: with_head_def calls_def)

lemma with_head_run_calls [simp]: "run_calls cs (with_head a w) = with_head a (run_calls cs w)"
  by (induction cs arbitrary: w) (simp_all add: run_calls.simps)

lemma with_head_same: "obdiiSockets (globals w) = a \<Longrightarrow> with_head a w = w"
  by (cases w) (simp add: with_head_def)

lemma logged_logged [simp]: "logged [] w = w" "logged us (logged ts w) = logged (ts @ us) w"
  by (simp_all add: logged_def)

lemma logged_run_calls [simp]: "run_calls cs (logged ts w) = logged ts (run_calls cs w)"
  by (induction cs arbitrary: w) (simp_all add: run_calls.simps)

lemma Log_run: "Log text w = Inr ((), logged [text] w)"
  by (simp add: Log_def logged_def)

lemma run_Log [io_simps]: "io_bind (Log text) f w = f () (logged [text] w)"
  "io_bind (LogError text errno) f w = f () (logged [text @ strerror (globals w) errno] w)"
  by (simp_all add: io_bind_def Log_def LogError_def get_globals_def logged_def)

lemma run_obdiiSockets [io_simps]:
  "io_bind get_obdiiSockets f w = f (obdiiSockets (globals w)) w"
  "io_bind (set_obdiiSockets h) f' w = f' () (with_head h w)"
  by (simp_all add: io_bind_def get_obdiiSockets_def set_obdiiSockets_def)

lemma makes_daemon [makes_intros]: "makes P (Log text)" "makes P (LogError text errno)" "makes P get_obdiiSockets"
  "makes P (set_obdiiSockets h)"
  by (auto simp: makes_def Log_def LogError_def io_bind_def get_globals_def get_obdiiSockets_def set_obdiiSockets_def with_head_def)

section \<open>The log grows\<close>

text \<open>Lines are only added at the end, each after its time, and the file is neither opened nor closed.\<close>

fun stamped :: "(nat \<Rightarrow> string) \<Rightarrow> nat \<Rightarrow> string list \<Rightarrow> string list" where
  "stamped clock n [] = []"
| "stamped clock n (t # ts) = (clock n @ '' '' @ t) # stamped clock (Suc n) ts"

lemma stamped_append: "stamped clock n (ts @ us) = stamped clock n ts @ stamped clock (n + length ts) us"
  by (induction ts arbitrary: n) simp_all

lemma length_stamped [simp]: "length (stamped clock n ts) = length ts"
  by (induction ts arbitrary: n) simp_all

definition adds_lines :: "daemon \<Rightarrow> string list \<Rightarrow> daemon \<Rightarrow> bool" where
  "adds_lines w ts w' \<longleftrightarrow> timestr (globals w') = timestr (globals w) \<and> strerror (globals w') = strerror (globals w) \<and>
     LogFile (globals w') = map_option (\<lambda>lines. lines @ stamped (timestr (globals w)) (length lines) ts) (LogFile (globals w))"

lemma adds_lines_trans: "adds_lines w ts w1 \<Longrightarrow> adds_lines w1 us w2 \<Longrightarrow> adds_lines w (ts @ us) w2"
  by (cases "LogFile (globals w)") (simp_all add: adds_lines_def stamped_append)

lemma adds_none: "globals w' = globals w \<Longrightarrow> adds_lines w [] w'"
  by (simp add: adds_lines_def option.map_ident)

lemma adds_logged: "adds_lines w ts (logged ts w)"
proof (induction ts arbitrary: w)
  case (Cons t ts)
  have "adds_lines w [t] (logged [t] w)"
    by (simp add: adds_lines_def logged_def write_line_def split: option.split)
  from adds_lines_trans [OF this Cons.IH [of "logged [t] w"]] show ?case by simp
qed (simp add: adds_none)

definition log_grows :: "'a daemon_io \<Rightarrow> bool" where
  "log_grows m \<longleftrightarrow> (\<forall>w a w'. m w = Inr (a, w') \<longrightarrow> (\<exists>ts. adds_lines w ts w'))"

named_theorems grows_intros "composed programs only add to the log"

lemma grows_bind [grows_intros]: "log_grows m \<Longrightarrow> (\<And>a. log_grows (f a)) \<Longrightarrow> log_grows (io_bind m f)"
  unfolding log_grows_def io_bind_def by (fastforce simp: obind_eq_Inr intro: adds_lines_trans)

lemma grows_basic [grows_intros]:
  "log_grows (io_return a)" "log_grows (io_lift r)" "log_grows (syscall c)" "log_grows (on_heap g)"
  "log_grows get_obdiiSockets" "log_grows (set_obdiiSockets h)"
  by (auto simp: log_grows_def io_return_def io_lift_def syscall_def Let_def on_heap_def get_obdiiSockets_def
      set_obdiiSockets_def with_head_def obind_eq_Inr adds_lines_def option.map_ident intro!: exI [of _ "[]"])

lemma grows_Log [grows_intros]: "log_grows (Log text)" "log_grows (LogError text errno)"
  using adds_logged [of _ "[_]"] by (auto simp: log_grows_def Log_run LogError_def io_bind_def get_globals_def)

lemma grows_cases [grows_intros]:
  "(b \<Longrightarrow> log_grows m) \<Longrightarrow> (\<not> b \<Longrightarrow> log_grows m') \<Longrightarrow> log_grows (if b then m else m')"
  "log_grows m \<Longrightarrow> (\<And>a. log_grows (f a)) \<Longrightarrow> log_grows (case found of None \<Rightarrow> m | Some a \<Rightarrow> f a)"
  "(\<And>a b. log_grows (g a b)) \<Longrightarrow> log_grows (case x of (a, b) \<Rightarrow> g a b)"
  by (auto split: option.split prod.split)

end
