(* ===== verification/Connections.thy ===== *)
theory Connections
  imports Daemon_Log
begin

text \<open>
  The daemon's table of open CAN sockets, \<open>src/OBDIIDaemon.c\<close>: a doubly linked list of heap nodes with
  reference counts. The first section is the code; then the shape of the list in the heap, and the
  effect of each operation on it.
\<close>

section \<open>The functions\<close>

text \<open>Reading a node, and assigning to fields of a node.\<close>

definition load :: "addr \<Rightarrow> OBDIISocketConnection daemon_io" where
  "load a w = (case blocks (w_heap w) a of None \<Rightarrow> Inl DanglingPointer | Some n \<Rightarrow> Inr (n, w))"

definition assign :: "addr \<Rightarrow> (OBDIISocketConnection \<Rightarrow> OBDIISocketConnection) \<Rightarrow> unit daemon_io" where
  "assign a f w = (case blocks (w_heap w) a of None \<Rightarrow> Inl DanglingPointer
     | Some n \<Rightarrow> Inr ((), w\<lparr>w_heap := (w_heap w)\<lparr>blocks := (blocks (w_heap w))(a := Some (f n))\<rparr>\<rparr>))"

text \<open>\<open>++\<close> and \<open>--\<close> on an \<open>int\<close>.\<close>

definition int_inc :: "int \<Rightarrow> int outcome" where
  "int_inc i = (if i < 2 ^ 31 - 1 then Inr (i + 1) else Inl SignedOverflow)"

definition int_dec :: "int \<Rightarrow> int outcome" where
  "int_dec i = (if - (2 ^ 31) < i then Inr (i - 1) else Inl SignedOverflow)"

text \<open>The search loop; the list may in principle be circular.\<close>

partial_function (option) find_from ::
  "OBDIISocketConnection heap_of \<Rightarrow> u32 \<Rightarrow> u32 \<Rightarrow> u32 \<Rightarrow> addr option \<Rightarrow> addr option outcome option" where
  "find_from h ifindex tid rid found = (case found of None \<Rightarrow> Some (Inr None)
     | Some a \<Rightarrow> (case blocks h a of None \<Rightarrow> Some (Inl DanglingPointer)
        | Some n \<Rightarrow> if conn_tid n = tid \<and> conn_rid n = rid \<and> conn_ifindex n = ifindex then Some (Inr found)
            else find_from h ifindex tid rid (next_conn n)))"

definition socketConnectionMatchingParams :: "u32 \<Rightarrow> u32 \<Rightarrow> u32 \<Rightarrow> addr option daemon_io" where
  "socketConnectionMatchingParams ifindex tid rid w =
     (case find_from (w_heap w) ifindex tid rid (obdiiSockets (globals w)) of None \<Rightarrow> Inl Diverges
      | Some found \<Rightarrow> obind found (\<lambda>found. Inr (found, w)))"

text \<open>A new node gets all its fields before anything reads it, so it is allocated initialised.\<close>

definition openSocketConnection :: "u32 \<Rightarrow> u32 \<Rightarrow> u32 \<Rightarrow> addr option daemon_io" where
  "openSocketConnection ifindex tid rid =
     io_bind (Log ''Opening new socket...'') (\<lambda>_.
     io_bind (syscall SocketIsotp) (\<lambda>s.
     if ret s < 0 then io_return None
     else io_bind (syscall (BindCan (ret s) ifindex tid rid)) (\<lambda>bound.
     if ret bound < 0 then io_bind (syscall (Close (ret s))) (\<lambda>_. io_return None)
     else io_bind get_obdiiSockets (\<lambda>head.
     io_bind (on_heap (\<lambda>h. Inr (malloc \<lparr>conn_ifindex = ifindex, conn_tid = tid, conn_rid = rid, conn_s = ret s,
        refcount = 1, prev_conn = None, next_conn = head\<rparr> h))) (\<lambda>conn.
     case conn of
       Some a \<Rightarrow>
         io_bind (case head of None \<Rightarrow> io_return () | Some b \<Rightarrow> assign b (\<lambda>n. n\<lparr>prev_conn := Some a\<rparr>)) (\<lambda>_.
         io_bind (set_obdiiSockets (Some a)) (\<lambda>_. io_return (Some a)))
     | None \<Rightarrow> io_bind (syscall (Close (ret s))) (\<lambda>_. io_return None))))))"

definition closeSocketConnection :: "addr option \<Rightarrow> unit daemon_io" where
  "closeSocketConnection conn = (case conn of None \<Rightarrow> io_return ()
     | Some a \<Rightarrow>
         io_bind (load a) (\<lambda>n. io_bind (io_lift (int_dec (refcount n))) (\<lambda>c.
         io_bind (assign a (\<lambda>n. n\<lparr>refcount := c\<rparr>)) (\<lambda>_.
         if c = 0 then
           io_bind (Log ''Tearing down socket'') (\<lambda>_.
           io_bind (syscall (Close (conn_s n))) (\<lambda>_.
           io_bind (case prev_conn n of Some p \<Rightarrow> assign p (\<lambda>m. m\<lparr>next_conn := next_conn n\<rparr>)
                    | None \<Rightarrow> set_obdiiSockets (next_conn n)) (\<lambda>_.
           io_bind (case next_conn n of Some x \<Rightarrow> assign x (\<lambda>m. m\<lparr>prev_conn := prev_conn n\<rparr>)
                    | None \<Rightarrow> io_return ()) (\<lambda>_.
           on_heap (\<lambda>h. obind (mfree a h) (\<lambda>h. Inr ((), h)))))))
         else io_return ()))))"

section \<open>The list in the heap\<close>

text \<open>A connection is known by the parameters it was opened with; an entry is its node's address, its
  key, the descriptor and the reference count.\<close>

type_synonym key = "u32 \<times> u32 \<times> u32"

type_synonym entry = "addr \<times> key \<times> int \<times> int"

fun first :: "entry list \<Rightarrow> addr option \<Rightarrow> addr option" where
  "first [] e = e"
| "first (x # xs) e = Some (fst x)"

fun final :: "addr option \<Rightarrow> entry list \<Rightarrow> addr option" where
  "final p [] = p"
| "final p (x # xs) = final (Some (fst x)) xs"

fun node :: "key \<times> int \<times> int \<Rightarrow> addr option \<Rightarrow> addr option \<Rightarrow> OBDIISocketConnection" where
  "node ((i, t, r), s, c) p q = \<lparr>conn_ifindex = i, conn_tid = t, conn_rid = r, conn_s = s, refcount = c,
     prev_conn = p, next_conn = q\<rparr>"

text \<open>The nodes of a segment of the list, whose first node points back to \<open>p\<close> and whose last points on
  to \<open>e\<close>.\<close>

fun chain :: "addr option \<Rightarrow> entry list \<Rightarrow> addr option \<Rightarrow> (addr \<times> OBDIISocketConnection) list" where
  "chain p [] e = []"
| "chain p (x # xs) e = (fst x, node (snd x) p (first xs e)) # chain (Some (fst x)) xs e"

lemma first_append [simp]: "first (xs @ ys) e = first xs (first ys e)"
  by (cases xs) simp_all

lemma final_append [simp]: "final p (xs @ ys) = final (final p xs) ys"
  by (induction xs arbitrary: p) simp_all

lemma chain_append [simp]: "chain p (xs @ ys) e = chain p xs (first ys e) @ chain (final p xs) ys e"
  by (induction xs arbitrary: p) simp_all

lemma fst_chain [simp]: "map fst (chain p xs e) = map fst xs"
  by (induction xs arbitrary: p) simp_all

lemma dom_chain [simp]: "fst ` set (chain p xs e) = fst ` set xs"
  by (metis fst_chain set_map)

text \<open>The daemon's data structure: the heap holds exactly the nodes of the list, each parameter triple
  has one node, and every node is in use.\<close>

definition holds :: "daemon \<Rightarrow> entry list \<Rightarrow> bool" where
  "holds w xs \<longleftrightarrow> distinct (map fst xs) \<and> distinct (map (fst \<circ> snd) xs) \<and>
     (\<forall>(a, k, s, c) \<in> set xs. 1 \<le> c \<and> a < next_addr (w_heap w)) \<and>
     blocks (w_heap w) = map_of (chain None xs None) \<and> obdiiSockets (globals w) = first xs None"

text \<open>What the table says of a key: its descriptor and its reference count.\<close>

definition entries :: "entry list \<Rightarrow> key \<Rightarrow> (int \<times> int) option" where
  "entries xs = map_of (map snd xs)"

section \<open>Updating the list\<close>

lemma map_of_update_mid:
  "a \<notin> fst ` set xs \<Longrightarrow> (map_of (xs @ (a, n) # ys))(a := Some m) = map_of (xs @ (a, m) # ys)"
proof (induction xs)
  case (Cons x xs)
  then have a: "a \<notin> fst ` set xs" and "fst x \<noteq> a" by auto
  note IH = Cons.IH [OF a]
  from \<open>fst x \<noteq> a\<close> have "((map_of (xs @ (a, n) # ys))(fst x := Some (snd x)))(a := Some m) =
      (map_of (xs @ (a, m) # ys))(fst x := Some (snd x))"
    by (subst fun_upd_twist) (simp_all only: IH simp_thms)
  then show ?case by (simp only: append_Cons map_of.simps)
qed simp

lemma map_of_remove_absent: "a \<notin> fst ` set xs \<Longrightarrow> (map_of xs)(a := None) = map_of xs"
  by (simp add: fun_upd_idem map_of_eq_None_iff)

lemma map_of_remove_mid:
  "a \<notin> fst ` set xs \<Longrightarrow> a \<notin> fst ` set ys \<Longrightarrow> (map_of (xs @ (a, n) # ys))(a := None) = map_of (xs @ ys)"
proof (induction xs)
  case (Cons x xs)
  then have a: "a \<notin> fst ` set xs" and "fst x \<noteq> a" by auto
  note IH = Cons.IH [OF a Cons.prems(2)]
  from \<open>fst x \<noteq> a\<close> have "((map_of (xs @ (a, n) # ys))(fst x := Some (snd x)))(a := None) =
      (map_of (xs @ ys))(fst x := Some (snd x))"
    by (subst fun_upd_twist) (simp_all only: IH simp_thms)
  then show ?case by (simp only: append_Cons map_of.simps)
qed (simp add: map_of_remove_absent)

lemma update_node:
  "a \<notin> fst ` set xs \<Longrightarrow> (map_of (chain p xs q @ (a, n) # ys))(a := Some m) = map_of (chain p xs q @ (a, m) # ys)"
  by (rule map_of_update_mid) simp

lemma node_fields [simp]:
  "(node x p q)\<lparr>next_conn := q'\<rparr> = node x p q'" "(node x p q)\<lparr>prev_conn := p'\<rparr> = node x p' q"
  "prev_conn (node x p q) = p" "next_conn (node x p q) = q"
  "refcount (node x p q) = snd (snd x)" "conn_s (node x p q) = fst (snd x)"
  "(node x p q)\<lparr>refcount := c\<rparr> = node (fst x, fst (snd x), c) p q"
  by (cases x rule: prod.exhaust; auto split: prod.splits)+

text \<open>Redirecting the forward pointer at the end of a segment, and the back pointer at its start.\<close>

lemma redirect_next:
  "fst y \<notin> fst ` set ys \<Longrightarrow>
     (map_of (chain p (ys @ [y]) e @ rest))(fst y := Some ((node (snd y) (final p ys) e)\<lparr>next_conn := e'\<rparr>)) =
     map_of (chain p (ys @ [y]) e' @ rest)"
  using map_of_update_mid [of "fst y" "chain p ys (Some (fst y))" "node (snd y) (final p ys) e" rest
      "node (snd y) (final p ys) e'"]
  by simp

lemma redirect_prev:
  "fst z \<notin> fst ` set before \<Longrightarrow>
     (map_of (before @ chain p (z # zs) e))(fst z := Some ((node (snd z) p (first zs e))\<lparr>prev_conn := p'\<rparr>)) =
     map_of (before @ chain p' (z # zs) e)"
  using map_of_update_mid [of "fst z" before "node (snd z) p (first zs e)" "chain (Some (fst z)) zs e"
      "node (snd z) p' (first zs e)"]
  by simp

section \<open>Searching\<close>

definition address :: "entry list \<Rightarrow> key \<Rightarrow> addr option" where
  "address xs k = map_of (map (\<lambda>x. (fst (snd x), fst x)) xs) k"

lemma find_chain:
  "(\<forall>(a, n) \<in> set (chain p xs None). blocks h a = Some n) \<Longrightarrow>
     find_from h i t r (first xs None) = Some (Inr (address xs (i, t, r)))"
proof (induction xs arbitrary: p)
  case Nil
  then show ?case by (subst find_from.simps) (simp add: address_def)
next
  case (Cons x xs)
  obtain a i' t' r' s c where x: "x = (a, (i', t', r'), s, c)" by (cases x) auto
  have "find_from h i t r (first xs None) = Some (Inr (address xs (i, t, r)))"
    using Cons.prems by (intro Cons.IH [of "Some a"]) (simp add: x)
  then show ?case using Cons.prems
    by (subst find_from.simps) (auto simp: x address_def)
qed

lemma chain_in_heap:
  assumes "holds w xs"
  shows "\<forall>(a, n) \<in> set (chain None xs None). blocks (w_heap w) a = Some n"
proof -
  have "distinct (map fst (chain None xs None))" using assms by (simp add: holds_def)
  then show ?thesis using assms by (auto simp: holds_def)
qed

text \<open>The search always ends, and finds the node of the key if there is one.\<close>

lemma search:
  "holds w xs \<Longrightarrow> socketConnectionMatchingParams i t r w = Inr (address xs (i, t, r), w)"
  using find_chain [OF chain_in_heap] by (simp add: socketConnectionMatchingParams_def holds_def)

lemma address_entries: "address xs k = None \<longleftrightarrow> entries xs k = None"
  by (simp add: address_def entries_def map_of_eq_None_iff o_def image_image)

lemma address_split:
  assumes "holds w xs" "address xs k = Some a"
  obtains ys s c zs where "xs = ys @ (a, k, s, c) # zs" "entries xs k = Some (s, c)" "1 \<le> c"
proof -
  from assms(2) have "(k, a) \<in> set (map (\<lambda>x. (fst (snd x), fst x)) xs)"
    unfolding address_def by (rule map_of_SomeD)
  then obtain s c where x: "(a, k, s, c) \<in> set xs" by auto
  then obtain ys zs where "xs = ys @ (a, k, s, c) # zs" by (auto dest: split_list)
  moreover have "entries xs k = Some (s, c)"
    using x assms(1) by (force simp: entries_def holds_def intro: map_of_is_SomeI)
  moreover have "1 \<le> c" using x assms(1) by (auto simp: holds_def)
  ultimately show ?thesis using that by blast
qed

section \<open>The operations on the list\<close>

lemma mid_block:
  assumes "holds w (ys @ (a, x) # zs)"
  shows "blocks (w_heap w) a = Some (node x (final None ys) (first zs None))"
  using chain_in_heap [OF assms] by auto

lemma set_refcount:
  assumes "holds w (ys @ (a, k, s, c) # zs)"
  shows "assign a (\<lambda>n. n\<lparr>refcount := c'\<rparr>) w = Inr ((), w\<lparr>w_heap := (w_heap w)\<lparr>blocks :=
      map_of (chain None (ys @ (a, k, s, c') # zs) None)\<rparr>\<rparr>)"
proof -
  have "a \<notin> fst ` set ys" using assms by (auto simp: holds_def)
  from update_node [OF this, of None "Some a"] assms mid_block [OF assms] show ?thesis
    by (simp add: assign_def holds_def)
qed

lemma retain_holds:
  assumes "holds w (ys @ (a, k, s, c) # zs)" "1 \<le> c'"
  shows "holds (w\<lparr>w_heap := (w_heap w)\<lparr>blocks := map_of (chain None (ys @ (a, k, s, c') # zs) None)\<rparr>\<rparr>)
    (ys @ (a, k, s, c') # zs)"
  using assms by (auto simp: holds_def)

lemma holds_run_calls [simp]: "holds (run_calls cs w) xs = holds w xs" "holds (logged ts w) xs = holds w xs"
  by (simp_all add: holds_def)

text \<open>The descriptor \<open>socket\<close> gives, and whether opening a connection succeeds.\<close>

definition new_fd :: "daemon \<Rightarrow> int" where
  "new_fd w = ret (respond w (history w) SocketIsotp)"

definition can_open :: "key \<Rightarrow> daemon \<Rightarrow> bool" where
  "can_open k w = (case k of (i, t, r) \<Rightarrow> 0 \<le> new_fd w \<and>
     0 \<le> ret (respond w (history (run_calls [SocketIsotp] w)) (BindCan (new_fd w) i t r)) \<and>
     grants (w_heap w) (next_addr (w_heap w)))"

lemma assign_first:
  assumes "distinct (map fst ((a, k, s, c) # xs))" "first xs None = Some b"
    and "blocks (w_heap w) = map_of ((a, n) # chain p xs None)"
  shows "assign b (\<lambda>n. n\<lparr>prev_conn := Some a\<rparr>) w =
    Inr ((), w\<lparr>w_heap := (w_heap w)\<lparr>blocks := map_of ((a, n) # chain (Some a) xs None)\<rparr>\<rparr>)"
proof -
  obtain y ys where xs: "xs = y # ys" and b: "b = fst y" using assms(2) by (cases xs) auto
  have "fst y \<noteq> a" using assms(1) xs by auto
  then have "fst y \<notin> fst ` set [(a, n)]" by simp
  from redirect_prev [OF this, of p ys None "Some a"] assms(3) \<open>fst y \<noteq> a\<close> show ?thesis
    by (simp add: assign_def xs b)
qed

lemma open_success:
  assumes "holds w xs" "entries xs (i, t, r) = None" "can_open (i, t, r) w"
  shows "\<exists>a w'. openSocketConnection i t r w = Inr (Some a, w') \<and>
    holds w' ((a, (i, t, r), new_fd w, 1) # xs) \<and> respond w' = respond w \<and>
    history w' = history (run_calls [SocketIsotp, BindCan (new_fd w) i t r] w)"
proof -
  let ?a = "next_addr (w_heap w)" and ?v = "logged [''Opening new socket...''] (run_calls [SocketIsotp, BindCan (new_fd w) i t r] w)"
  let ?n = "node ((i, t, r), new_fd w, 1) None (first xs None)"
  let ?h = "(w_heap w)\<lparr>blocks := (blocks (w_heap w))(?a := Some ?n), next_addr := Suc ?a\<rparr>"
  have ok: "0 \<le> new_fd w" "0 \<le> ret (respond w (history (run_calls [SocketIsotp] w)) (BindCan (new_fd w) i t r))"
    "grants (w_heap w) ?a" using assms(3) by (simp_all add: can_open_def)
  have m: "malloc ?n (w_heap w) = (Some ?a, ?h)" using ok(3) by (simp add: malloc_def Let_def)
  have g: "obdiiSockets (globals w) = first xs None" "blocks (w_heap w) = map_of (chain None xs None)"
    using assms(1) by (simp_all add: holds_def)
  have d: "distinct (map fst ((?a, (i, t, r), new_fd w, 1) # xs))" using assms(1) by (force simp: holds_def)
  have new: "(i, t, r) \<notin> (fst \<circ> snd) ` set xs"
    using assms(2) by (force simp: entries_def map_of_eq_None_iff)
  have run: "openSocketConnection i t r w =
     io_bind (case first xs None of None \<Rightarrow> io_return () | Some b \<Rightarrow> assign b (\<lambda>n. n\<lparr>prev_conn := Some ?a\<rparr>)) (\<lambda>_.
         io_bind (set_obdiiSockets (Some ?a)) (\<lambda>_. io_return (Some ?a))) (?v\<lparr>w_heap := ?h\<rparr>)"
    using ok m unfolding openSocketConnection_def
    by (simp add: io_simps g(1) new_fd_def [symmetric] flip: node.simps)
  let ?w = "with_head (Some ?a) (?v\<lparr>w_heap := (w_heap w)\<lparr>blocks := map_of (chain None ((?a, (i, t, r), new_fd w, 1) # xs) None),
      next_addr := Suc ?a\<rparr>\<rparr>)"
  have swap: "h\<lparr>next_addr := n, blocks := b\<rparr> = h\<lparr>blocks := b, next_addr := n\<rparr>" for h :: "OBDIISocketConnection heap_of" and n b
    by simp
  have "openSocketConnection i t r w = Inr (Some ?a, ?w)"
  proof (cases "first xs None")
    case None
    then have "xs = []" by (cases xs) auto
    then show ?thesis unfolding run None by (simp add: io_simps g(2))
  next
    case (Some b)
    have "blocks (w_heap (?v\<lparr>w_heap := ?h\<rparr>)) = map_of ((?a, ?n) # chain None xs None)" by (simp add: g(2))
    from assign_first [OF d Some this] show ?thesis unfolding run Some
      by (simp add: io_bind_def [of "assign _ _"] io_simps Some swap)
  qed
  moreover have "holds ?w ((?a, (i, t, r), new_fd w, 1) # xs)"
    using assms(1) d new by (auto simp: holds_def less_SucI)
  ultimately show ?thesis by (intro exI [of _ ?a] exI [of _ ?w]) simp
qed

lemma open_failure:
  assumes "holds w xs" "\<not> can_open (i, t, r) w"
  shows "\<exists>w'. openSocketConnection i t r w = Inr (None, w') \<and> holds w' xs \<and> respond w' = respond w \<and>
    history w' = history (run_calls (if new_fd w < 0 then [SocketIsotp]
      else [SocketIsotp, BindCan (new_fd w) i t r, Close (new_fd w)]) w)"
proof -
  let ?bound = "ret (respond w (history (run_calls [SocketIsotp] w)) (BindCan (new_fd w) i t r))"
  consider "new_fd w < 0" | "0 \<le> new_fd w" "?bound < 0"
    | "0 \<le> new_fd w" "0 \<le> ?bound" "\<not> grants (w_heap w) (next_addr (w_heap w))"
    using assms(2) unfolding can_open_def prod.case by (meson not_le)
  then show ?thesis
  proof cases
    case 1
    then show ?thesis using assms(1)
      by (simp add: openSocketConnection_def io_simps flip: new_fd_def)
  next
    case 2
    then show ?thesis using assms(1)
      by (simp add: openSocketConnection_def io_simps flip: new_fd_def)
  next
    case 3
    let ?v = "logged [''Opening new socket...''] (run_calls [SocketIsotp, BindCan (new_fd w) i t r] w)"
    let ?w = "?v\<lparr>w_heap := (w_heap w)\<lparr>next_addr := Suc (next_addr (w_heap w))\<rparr>\<rparr>"
    have "history (run_calls [Close (new_fd w)] ?w) =
        history (run_calls [SocketIsotp, BindCan (new_fd w) i t r, Close (new_fd w)] w)"
      by (simp add: run_calls.simps)
    moreover have "openSocketConnection i t r w = Inr (None, run_calls [Close (new_fd w)] ?w)"
      using 3 by (simp add: openSocketConnection_def malloc_def Let_def io_simps flip: new_fd_def)
    ultimately show ?thesis using assms(1) 3(1) by (auto simp: holds_def less_SucI)
  qed
qed

section \<open>Closing\<close>

lemma close_shared:
  assumes "holds w (ys @ (a, k, s, c) # zs)" "1 < c"
  shows "\<exists>w'. closeSocketConnection (Some a) w = Inr ((), w') \<and> holds w' (ys @ (a, k, s, c - 1) # zs) \<and>
    respond w' = respond w \<and> history w' = history w"
proof -
  have d: "int_dec c = Inr (c - 1)" using assms(2) by (simp add: int_dec_def)
  let ?w = "w\<lparr>w_heap := (w_heap w)\<lparr>blocks := map_of (chain None (ys @ (a, k, s, c - 1) # zs) None)\<rparr>\<rparr>"
  have "closeSocketConnection (Some a) w = Inr ((), ?w)"
    using mid_block [OF assms(1)] set_refcount [OF assms(1), of "c - 1"] assms(2) d
    by (simp add: closeSocketConnection_def io_bind_def load_def io_lift_def io_return_def del: chain_append)
  moreover have "holds ?w (ys @ (a, k, s, c - 1) # zs)" using retain_holds [OF assms(1)] assms(2) by simp
  ultimately show ?thesis by auto
qed

lemma unlink_next:
  assumes "distinct (map fst (ys @ (a, x) # zs))"
    and "blocks (w_heap w) = map_of (chain None ys (Some a) @ (a, n) # chain (Some a) zs None)" "obdiiSockets (globals w) = first ys (Some a)"
  shows "(case final None ys of Some p \<Rightarrow> assign p (\<lambda>m. m\<lparr>next_conn := q\<rparr>) | None \<Rightarrow> set_obdiiSockets q) w =
    Inr ((), with_head (first ys q) (w\<lparr>w_heap := (w_heap w)\<lparr>blocks := map_of (chain None ys q @ (a, n) # chain (Some a) zs None)\<rparr>\<rparr>))"
proof (cases ys rule: rev_cases)
  case Nil
  then show ?thesis using assms by (cases w; cases "w_heap w") (simp add: set_obdiiSockets_def)
next
  case (snoc ys' y)
  have f: "fst y \<notin> fst ` set ys'" using assms(1) snoc by auto
  have g: "first ys (Some a) = first ys q" unfolding snoc by (cases ys') simp_all
  have "map_of (chain None ys (Some a) @ (a, n) # chain (Some a) zs None) (fst y) =
      Some (node (snd y) (final None ys') (Some a))"
  proof (rule map_of_is_SomeI)
    have "distinct (map fst (ys @ (a, x) # zs))" by (rule assms(1))
    then show "distinct (map fst (chain None ys (Some a) @ (a, n) # chain (Some a) zs None))"
      by (simp add: comp_def)
  qed (simp add: snoc)
  then show ?thesis
    using redirect_next [OF f, of None "Some a" "(a, n) # chain (Some a) zs None" q] assms(2,3) g
    by (simp add: assign_def snoc with_head_same del: chain_append map_of_append)
qed

lemma unlink_prev:
  assumes "fst ` set before \<inter> fst ` set zs = {}" "blocks (w_heap w) = map_of (before @ chain p zs None)"
  shows "(case first zs None of Some x \<Rightarrow> assign x (\<lambda>m. m\<lparr>prev_conn := p'\<rparr>) | None \<Rightarrow> io_return ()) w =
    Inr ((), w\<lparr>w_heap := (w_heap w)\<lparr>blocks := map_of (before @ chain p' zs None)\<rparr>\<rparr>)"
proof (cases zs)
  case Nil
  then show ?thesis using assms(2) by (cases w; cases "w_heap w") (simp add: io_return_def)
next
  case (Cons z zs')
  have f: "fst z \<notin> fst ` set before" using assms(1) Cons by auto
  have "map_of (before @ chain p zs None) (fst z) = Some (node (snd z) p (first zs' None))"
    using f by (auto simp: Cons map_add_Some_iff dest: map_of_SomeD split: option.splits intro: rev_image_eqI)
  then show ?thesis
    using redirect_prev [OF f, of p zs' None p'] assms(2) unfolding Cons
    by (simp add: assign_def del: map_of_append chain.simps)
qed

lemma close_last:
  assumes "holds w (ys @ (a, k, s, 1) # zs)"
  shows "\<exists>w'. closeSocketConnection (Some a) w = Inr ((), w') \<and> holds w' (ys @ zs) \<and>
    respond w' = respond w \<and> history w' = history (run_calls [Close s] w)"
proof -
  let ?p = "final None ys" and ?q = "first zs None"
  let ?n = "node (k, s, 0) ?p ?q"
  let ?bl = "\<lambda>l. (w_heap w)\<lparr>blocks := map_of l\<rparr>"
  let ?l0 = "chain None (ys @ (a, k, s, 0) # zs) None"
  let ?l1 = "chain None ys ?q @ (a, ?n) # chain (Some a) zs None"
  let ?l2 = "(chain None ys ?q @ [(a, ?n)]) @ chain ?p zs None"
  let ?w0 = "logged [''Tearing down socket''] (w\<lparr>w_heap := ?bl ?l0\<rparr>)"
  let ?w1 = "with_head (first ys ?q) ((run_calls [Close s] ?w0)\<lparr>w_heap := ?bl ?l1\<rparr>)"
  let ?w2 = "?w1\<lparr>w_heap := ?bl ?l2\<rparr>"
  have d: "distinct (map fst (ys @ (a, k, s, 1) # zs))" using assms by (simp add: holds_def)
  have g: "obdiiSockets (globals w) = first ys (Some a)" using assms by (simp add: holds_def)
  have step1: "(case ?p of Some p \<Rightarrow> assign p (\<lambda>m. m\<lparr>next_conn := ?q\<rparr>) | None \<Rightarrow> set_obdiiSockets ?q)
      (run_calls [Close s] ?w0) = Inr ((), ?w1)"
    using unlink_next [OF d, of "run_calls [Close s] ?w0" ?n ?q] g by simp
  have step2: "(case ?q of Some x \<Rightarrow> assign x (\<lambda>m. m\<lparr>prev_conn := ?p\<rparr>) | None \<Rightarrow> io_return ()) ?w1 = Inr ((), ?w2)"
    using unlink_prev [of "chain None ys ?q @ [(a, ?n)]" zs ?w1 "Some a" ?p] d by (auto simp: image_Un)
  let ?h = "?bl (chain None (ys @ zs) None)"
  have "a \<notin> fst ` set ys" "a \<notin> fst ` set zs" using d by auto
  then have "(map_of ?l2)(a := None) = map_of (chain None (ys @ zs) None)"
    using map_of_remove_mid [of a "chain None ys ?q" "chain ?p zs None" ?n]
    by (simp del: map_of_append)
  moreover have "map_of ?l2 a = Some ?n"
    using \<open>a \<notin> fst ` set zs\<close> d by (auto simp: map_add_Some_iff map_of_eq_None_iff)
  ultimately have free: "mfree a (?bl ?l2) = Inr ?h" by (simp add: mfree_def del: map_of_append)
  have "closeSocketConnection (Some a) w = Inr ((), ?w2\<lparr>w_heap := ?h\<rparr>)"
  proof -
    have load: "load a w = Inr (node (k, s, 1) ?p ?q, w)" using mid_block [OF assms] by (simp add: load_def)
    have dec: "int_dec 1 = Inr 0" by (simp add: int_dec_def)
    have hw: "w_heap ?w2 = ?bl ?l2" by simp
    show ?thesis
      by (simp only: closeSocketConnection_def option.case io_bind_def load obind_Inr split_conv node_fields
          fst_conv snd_conv io_lift_def dec set_refcount [OF assms] if_True refl Log_run run_syscall step1 step2 on_heap_def
          hw free)
  qed
  moreover have "holds (?w2\<lparr>w_heap := ?h\<rparr>) (ys @ zs)" using assms by (auto simp: holds_def)
  moreover have "history (?w2\<lparr>w_heap := ?h\<rparr>) = history (run_calls [Close s] w)" by (simp add: run_calls.simps)
  ultimately show ?thesis by (intro exI [of _ "?w2\<lparr>w_heap := ?h\<rparr>"]) simp
qed

end
