(* ===== verification/Daemon.thy ===== *)
theory Daemon
  imports Connections "HOL-Library.Multiset"
begin

text \<open>
  The daemon, \<open>src/OBDIIDaemon.c\<close>: handling of requests and the main loop, with the lines they log. The
  refinement of a request to a table of reference counted descriptors follows the code.
\<close>

section \<open>The functions\<close>

text \<open>The texts that the formats of the log give.\<close>

definition send_error_text :: "OBDIIDaemonResponseCode \<Rightarrow> string" where
  "send_error_text responseCode = ''Error sending response code '' @ decimal (uint (response_code responseCode)) @ '' to client: ''"

definition socket_text :: "u32 \<Rightarrow> u32 \<Rightarrow> u32 \<Rightarrow> string" where
  "socket_text ifindex tid rid = ''('' @ decimal (sint ifindex) @ '', '' @ hexadecimal tid @ '', '' @ hexadecimal rid @ '')''"

definition pass_error_text :: "OBDIISocketConnection \<Rightarrow> string" where
  "pass_error_text n = ''Error sending OBDII socket '' @ socket_text (conn_ifindex n) (conn_tid n) (conn_rid n) @ '' to client: ''"

definition found_text :: "OBDIISocketConnection \<Rightarrow> string" where
  "found_text n = ''Found open socket: '' @ decimal (conn_s n) @ '', refcount: '' @ decimal (refcount n)"

definition request_text :: "bool \<Rightarrow> u32 \<Rightarrow> u32 \<Rightarrow> u32 \<Rightarrow> string" where
  "request_text shouldOpen ifindex tid rid = ''Received request to '' @ (if shouldOpen then ''open'' else ''close'') @
     '' socket: '' @ socket_text ifindex tid rid"

definition type_text :: "u16 \<Rightarrow> string" where
  "type_text requestType = ''Received request with unsupported request type: '' @ decimal (uint requestType)"

definition version_text :: "u16 \<Rightarrow> string" where
  "version_text apiVersion = ''Received request for unsupported version '' @ decimal (uint apiVersion) @ ''; ignoring''"

definition raw_text :: "string \<Rightarrow> string" where
  "raw_text formatted = ''Received raw request: '' @ formatted"

text \<open>\<open>caddr\<close> is the path of the client's socket; the response code is sent as its two low bytes.\<close>

definition sendResponseCode :: "int \<Rightarrow> string \<Rightarrow> OBDIIDaemonResponseCode \<Rightarrow> int daemon_io" where
  "sendResponseCode s caddr responseCode =
     io_bind (syscall (SendTo s caddr (bytes16 (response_code responseCode)))) (\<lambda>r.
       if ret r < 0
       then io_bind (LogError (send_error_text responseCode) (err r)) (\<lambda>_. io_return (- 1))
       else io_return 0)"

text \<open>The second result is \<open>errno\<close>.\<close>

definition sendFD :: "int \<Rightarrow> string \<Rightarrow> int \<Rightarrow> (int \<times> int) daemon_io" where
  "sendFD s caddr fd = io_bind (syscall (SendMsg s caddr fd)) (\<lambda>r. io_return (ret r, err r))"

text \<open>\<open>found->refcount++\<close>\<close>

definition retain :: "addr \<Rightarrow> unit daemon_io" where
  "retain a = io_bind (load a) (\<lambda>n. io_bind (io_lift (int_inc (refcount n))) (\<lambda>c.
     assign a (\<lambda>n. n\<lparr>refcount := c\<rparr>)))"

text \<open>The descriptor found or opened for an open request, or \<open>None\<close> after an error response.\<close>

definition found_or_opened :: "int \<Rightarrow> string \<Rightarrow> u32 \<Rightarrow> u32 \<Rightarrow> u32 \<Rightarrow> addr option \<Rightarrow> addr option daemon_io" where
  "found_or_opened s caddr ifindex tid rid found = (case found of
       Some a \<Rightarrow>
         io_bind (load a) (\<lambda>n.
         io_bind (Log (found_text n)) (\<lambda>_.
         io_bind (retain a) (\<lambda>_. io_return (Some a))))
     | None \<Rightarrow> io_bind (openSocketConnection ifindex tid rid) (\<lambda>found.
         case found of Some a \<Rightarrow> io_return (Some a)
         | None \<Rightarrow> io_bind (sendResponseCode s caddr OBDIIDaemonResponseCodeOpenSocketError) (\<lambda>_. io_return None)))"

text \<open>Sending the descriptor of a connection, the last statement of an open request.\<close>

definition pass_socket :: "int \<Rightarrow> string \<Rightarrow> addr \<Rightarrow> unit daemon_io" where
  "pass_socket s caddr a = io_bind (load a) (\<lambda>n. io_bind (sendFD s caddr (conn_s n)) (\<lambda>(r, errno).
     if r < 0 then LogError (pass_error_text n) errno else io_return ()))"

definition handleSocketRequest :: "int \<Rightarrow> string \<Rightarrow> byte list \<Rightarrow> int \<Rightarrow> bool \<Rightarrow> unit daemon_io" where
  "handleSocketRequest s caddr request requestLen shouldOpen =
    (if requestLen < 12 then Log ''handleSocketRequest: Request payload insufficient size''
     else io_bind (io_lift (asuint32 request 0)) (\<lambda>ifindex.
          io_bind (io_lift (asuint32 request 4)) (\<lambda>tid.
          io_bind (io_lift (asuint32 request 8)) (\<lambda>rid.
          io_bind (Log (request_text shouldOpen ifindex tid rid)) (\<lambda>_.
          io_bind (socketConnectionMatchingParams ifindex tid rid) (\<lambda>found.
          if shouldOpen then
            io_bind (found_or_opened s caddr ifindex tid rid found) (\<lambda>found.
            case found of None \<Rightarrow> io_return ()
            | Some a \<Rightarrow>
                io_bind (sendResponseCode s caddr OBDIIDaemonResponseCodeSuccess) (\<lambda>_. pass_socket s caddr a))
          else (case found of
              Some a \<Rightarrow> io_bind (closeSocketConnection (Some a)) (\<lambda>_.
                io_bind (sendResponseCode s caddr OBDIIDaemonResponseCodeSuccess) (\<lambda>_. io_return ()))
            | None \<Rightarrow> io_bind (sendResponseCode s caddr OBDIIDaemonResponseCodeNoSuchSocket) (\<lambda>_. io_return ()))))))))"

definition handleMessage :: "int \<Rightarrow> string \<Rightarrow> byte list \<Rightarrow> int \<Rightarrow> unit daemon_io" where
  "handleMessage s caddr request requestLen =
    (if requestLen < OBDII_DAEMON_REQUEST_HEADER_SIZE then Log ''Ill formed request header; ignoring''
     else io_bind (io_lift (asuint16 request 0)) (\<lambda>apiVersion.
          io_bind (io_lift (asuint16 request 2)) (\<lambda>requestType.
          if apiVersion = 1 then
            (let payload = drop (nat OBDII_DAEMON_REQUEST_HEADER_SIZE) request;
                 payloadLen = requestLen - OBDII_DAEMON_REQUEST_HEADER_SIZE in
             if requestType = request_code OBDIIDaemonRequestOpenSocket
             then handleSocketRequest s caddr payload payloadLen True
             else if requestType = request_code OBDIIDaemonRequestCloseSocket
             then handleSocketRequest s caddr payload payloadLen False
             else Log (type_text requestType))
          else Log (version_text apiVersion))))"

text \<open>One round of the main loop; \<open>False\<close> when the daemon exits. The array \<open>formatted\<close> is a C string; its
  last byte is set to NUL before the dump.\<close>

definition log_text :: "byte list \<Rightarrow> string outcome" where
  "log_text formatted = obind (c_string (map Some formatted)) (\<lambda>s. Inr (map (char_of \<circ> unat) s))"

definition handle_received :: "int \<Rightarrow> reply \<Rightarrow> bool daemon_io" where
  "handle_received s r =
    (if ret r < 0 then io_bind (LogError ''Error reading request: '' (err r)) (\<lambda>_. io_return False)
     else io_bind (io_lift (dump 0 (bytes r) (replicate (nat (ret r * 2 + 1)) 0))) (\<lambda>formatted.
          io_bind (io_lift (log_text formatted)) (\<lambda>text.
          io_bind (Log (raw_text text)) (\<lambda>_.
          io_bind (handleMessage s (peer r) (bytes r) (ret r)) (\<lambda>_. io_return True)))))"

definition serve :: "int \<Rightarrow> bool daemon_io" where
  "serve s = io_bind (syscall (RecvFrom s OBDII_DAEMON_REQUEST_MAX_SIZE)) (\<lambda>r. handle_received s r)"

text \<open>The main program for a number of rounds: the log file, the server socket, or \<open>None\<close> on exit, then
  the loop.\<close>

definition LogPath :: string where "LogPath = ''/var/log/obdiid/obdiid.log''"

definition open_log :: "unit daemon_io" where
  "open_log = io_bind (syscall (Fopen LogPath)) (\<lambda>f. io_bind get_globals (\<lambda>g.
     set_globals (g\<lparr>LogFile := if ret f = 0 then None else Some []\<rparr>)))"

definition start :: "int option daemon_io" where
  "start = io_bind (Log ''Starting obdiid'') (\<lambda>_. io_bind (syscall SocketUnix) (\<lambda>s.
     if ret s < 0 then io_bind (LogError ''Unable to open server socket: '' (err s)) (\<lambda>_. io_return None)
     else io_bind (syscall (Unlink OBDII_DAEMON_SOCKET_PATH)) (\<lambda>u.
     if ret u < 0 \<and> err u \<noteq> ENOENT
     then io_bind (LogError (''Failed to unlink socket at path '' @ OBDII_DAEMON_SOCKET_PATH @ '': '') (err u)) (\<lambda>_. io_return None)
     else io_bind (syscall (BindUnix (ret s) OBDII_DAEMON_SOCKET_PATH)) (\<lambda>b.
     if ret b < 0
     then io_bind (LogError (''Error binding socket to path '' @ OBDII_DAEMON_SOCKET_PATH @ '': '') (err b)) (\<lambda>_. io_return None)
     else io_return (Some (ret s))))))"

fun serve_rounds :: "nat \<Rightarrow> int \<Rightarrow> bool daemon_io" where
  "serve_rounds 0 s = io_return True"
| "serve_rounds (Suc n) s = io_bind (serve s) (\<lambda>running. if running then serve_rounds n s else io_return False)"

definition run_daemon :: "nat \<Rightarrow> bool daemon_io" where
  "run_daemon n = io_bind start (\<lambda>s. case s of None \<Rightarrow> io_return False | Some s \<Rightarrow> serve_rounds n s)"

definition main :: "nat \<Rightarrow> bool daemon_io" where
  "main n = io_bind open_log (\<lambda>_. run_daemon n)"

section \<open>The table of descriptors\<close>

text \<open>
  What a request does to a table of descriptors with reference counts, and what is sent: the response
  code, and the descriptor for an open request that succeeds.
\<close>

type_synonym table = "key \<Rightarrow> (int \<times> int) option"

definition request_open :: "key \<Rightarrow> int option \<Rightarrow> table \<Rightarrow> table \<times> OBDIIDaemonResponseCode \<times> int option" where
  "request_open k opened t = (case t k of
       Some (fd, n) \<Rightarrow> (t(k \<mapsto> (fd, n + 1)), OBDIIDaemonResponseCodeSuccess, Some fd)
     | None \<Rightarrow> (case opened of
           Some fd \<Rightarrow> (t(k \<mapsto> (fd, 1)), OBDIIDaemonResponseCodeSuccess, Some fd)
         | None \<Rightarrow> (t, OBDIIDaemonResponseCodeOpenSocketError, None)))"

definition request_close :: "key \<Rightarrow> table \<Rightarrow> table \<times> OBDIIDaemonResponseCode \<times> int option" where
  "request_close k t = (case t k of
       Some (fd, n) \<Rightarrow> (if n = 1 then t(k := None) else t(k \<mapsto> (fd, n - 1)), OBDIIDaemonResponseCodeSuccess, None)
     | None \<Rightarrow> (t, OBDIIDaemonResponseCodeNoSuchSocket, None))"

text \<open>The messages of an answer, and the messages among a list of calls.\<close>

definition messages :: "int \<Rightarrow> string \<Rightarrow> OBDIIDaemonResponseCode \<times> int option \<Rightarrow> call list" where
  "messages s caddr answer = SendTo s caddr (bytes16 (response_code (fst answer))) #
     (case snd answer of None \<Rightarrow> [] | Some fd \<Rightarrow> [SendMsg s caddr fd])"

fun is_message :: "call \<Rightarrow> bool" where
  "is_message (SendTo s p b) \<longleftrightarrow> True"
| "is_message (SendMsg s p fd) \<longleftrightarrow> True"
| "is_message _ \<longleftrightarrow> False"

text \<open>The CAN sockets a process opened, and the descriptors it closed.\<close>

definition opened_fds :: "history \<Rightarrow> int multiset" where
  "opened_fds hist = mset (concat (map (\<lambda>(c, r). case c of SocketIsotp \<Rightarrow> if 0 \<le> ret r then [ret r] else []
     | _ \<Rightarrow> []) hist))"

definition closed_fds :: "history \<Rightarrow> int multiset" where
  "closed_fds hist = mset (concat (map (\<lambda>(c, r). case c of Close fd \<Rightarrow> [fd] | _ \<Rightarrow> []) hist))"

text \<open>
  The daemon stands for a table: its list holds the table's entries, counts are at most \<open>m\<close>, and the
  CAN sockets it opened are those it closed and those in the table.
\<close>

definition represents :: "nat \<Rightarrow> daemon \<Rightarrow> table \<Rightarrow> bool" where
  "represents m w t \<longleftrightarrow> (\<exists>xs. holds w xs \<and> t = entries xs \<and> (\<forall>(a, k, s, c) \<in> set xs. c \<le> int m) \<and>
     opened_fds (history w) = closed_fds (history w) + mset (map (\<lambda>(a, k, s, c). s) xs))"

section \<open>Entries, descriptors and messages\<close>

lemma entries_mid:
  assumes "holds w (ys @ (a, k, s, c) # zs)"
  shows "entries (ys @ (a, k, s, c') # zs) = (entries (ys @ (a, k, s, c) # zs))(k \<mapsto> (s, c'))"
    and "entries (ys @ zs) = (entries (ys @ (a, k, s, c) # zs))(k := None)"
    and "entries (ys @ (a, k, s, c) # zs) k = Some (s, c)"
proof -
  have k: "k \<notin> fst ` set (map snd ys)" "k \<notin> fst ` set (map snd zs)"
  proof -
    have "distinct (map (fst \<circ> snd) (ys @ (a, k, s, c) # zs))" using assms by (simp add: holds_def)
    then show "k \<notin> fst ` set (map snd ys)" "k \<notin> fst ` set (map snd zs)" by (auto simp: image_image)
  qed
  show "entries (ys @ (a, k, s, c') # zs) = (entries (ys @ (a, k, s, c) # zs))(k \<mapsto> (s, c'))"
    using map_of_update_mid [OF k(1), of "(s, c)" "map snd zs" "(s, c')"] unfolding entries_def
    by (simp del: map_of_append)
  show "entries (ys @ zs) = (entries (ys @ (a, k, s, c) # zs))(k := None)"
    using map_of_remove_mid [OF k, of "(s, c)"] unfolding entries_def by (simp del: map_of_append)
  show "entries (ys @ (a, k, s, c) # zs) k = Some (s, c)"
    using k(1) unfolding entries_def by (simp add: map_add_Some_iff map_of_eq_None_iff)
qed

lemma fds_append [simp]:
  "opened_fds (h @ h') = opened_fds h + opened_fds h'" "closed_fds (h @ h') = closed_fds h + closed_fds h'"
  by (simp_all add: opened_fds_def closed_fds_def)

lemma fds_single [simp]:
  "opened_fds [(SocketIsotp, r)] = (if 0 \<le> ret r then {#ret r#} else {#})"
  "closed_fds [(Close fd, r)] = {#fd#}" "opened_fds [] = {#}" "closed_fds [] = {#}"
  by (simp_all add: opened_fds_def closed_fds_def)

lemma fds_other:
  "c \<noteq> SocketIsotp \<Longrightarrow> opened_fds [(c, r)] = {#}" "\<nexists>fd. c = Close fd \<Longrightarrow> closed_fds [(c, r)] = {#}"
  by (cases c; simp add: opened_fds_def closed_fds_def)+

lemma fds_Cons: "opened_fds ((c, r) # h) = opened_fds [(c, r)] + opened_fds h"
  "closed_fds ((c, r) # h) = closed_fds [(c, r)] + closed_fds h"
  by (simp_all add: opened_fds_def closed_fds_def)

definition sent :: "daemon \<Rightarrow> call list" where
  "sent w = filter is_message (calls w)"

lemma calls_history: "history w' = history (run_calls cs w) \<Longrightarrow> calls w' = calls w @ cs"
  using calls_run_calls [of cs w] by (simp add: calls_def)

text \<open>Calls that open and close no CAN socket keep the balance.\<close>

lemma represents_calls:
  assumes "\<forall>c \<in> set cs. c \<noteq> SocketIsotp \<and> (\<nexists>fd. c = Close fd)" "represents m w t"
  shows "represents m (run_calls cs w) t"
proof -
  have "opened_fds (history (run_calls cs w)) = opened_fds (history w) \<and>
      closed_fds (history (run_calls cs w)) = closed_fds (history w)"
    using assms(1)
  proof (induction cs arbitrary: w)
    case (Cons c cs)
    let ?w = "w\<lparr>history := history w @ [(c, respond w (history w) c)]\<rparr>"
    have "opened_fds (history ?w) = opened_fds (history w) \<and> closed_fds (history ?w) = closed_fds (history w)"
      using Cons.prems fds_other by simp
    moreover have "run_calls (c # cs) w = run_calls cs ?w" by (simp add: run_calls.simps)
    ultimately show ?case using Cons.IH [of ?w] Cons.prems by (simp del: world_of.update_convs)
  qed simp
  with assms(2) show ?thesis by (auto simp: represents_def)
qed

lemma represents_logged [simp]: "represents m (logged ts w) t \<longleftrightarrow> represents m w t" "sent (logged ts w) = sent w"
  "new_fd (logged ts w) = new_fd w" "can_open k (logged ts w) = can_open k w"
  by (simp_all add: represents_def sent_def new_fd_def can_open_def split: prod.split)

lemma represents_mono: "represents m w t \<Longrightarrow> m \<le> n \<Longrightarrow> represents n w t"
  by (fastforce simp: represents_def)

section \<open>Requests refine the table\<close>

lemma retain_run:
  assumes "holds w (ys @ (a, k, s, c) # zs)" "1 \<le> c" "c < 2 ^ 31 - 1"
  shows "\<exists>w'. retain a w = Inr ((), w') \<and> holds w' (ys @ (a, k, s, c + 1) # zs) \<and>
    history w' = history w \<and> respond w' = respond w"
proof -
  let ?w = "w\<lparr>w_heap := (w_heap w)\<lparr>blocks := map_of (chain None (ys @ (a, k, s, c + 1) # zs) None)\<rparr>\<rparr>"
  have "retain a w = Inr ((), ?w)"
    using mid_block [OF assms(1)] set_refcount [OF assms(1), of "c + 1"] assms(3)
    by (simp add: retain_def io_bind_def load_def io_lift_def int_inc_def del: chain_append)
  moreover have "holds ?w (ys @ (a, k, s, c + 1) # zs)" using retain_holds [OF assms(1)] assms(2) by simp
  ultimately show ?thesis by auto
qed

lemma retain_represents:
  assumes "represents m w t" "t k = Some (fd, c)" "int m < 2 ^ 31 - 1"
  obtains a w' n where "\<forall>i tt r. k = (i, tt, r) \<longrightarrow> socketConnectionMatchingParams i tt r w = Inr (Some a, w)"
    "retain a w = Inr ((), w')" "represents (Suc m) w' (t(k \<mapsto> (fd, c + 1)))"
    "blocks (w_heap w') a = Some n" "conn_s n = fd" "history w' = history w" "respond w' = respond w"
proof -
  from assms(1) obtain xs where xs: "holds w xs" "t = entries xs" "\<forall>(a, k, s, c) \<in> set xs. c \<le> int m"
    "opened_fds (history w) = closed_fds (history w) + mset (map (\<lambda>(a, k, s, c). s) xs)"
    unfolding represents_def by blast
  have "address xs k \<noteq> None" using assms(2) xs(2) by (simp add: address_entries)
  then obtain a where a: "address xs k = Some a" by blast
  from address_split [OF xs(1) a] obtain ys s c' zs where
    sp: "xs = ys @ (a, k, s, c') # zs" "entries xs k = Some (s, c')" "1 \<le> c'" by metis
  have eq: "s = fd" "c' = c" using assms(2) sp(2) xs(2) by simp_all
  have "c \<le> int m" using xs(3) sp(1) eq by auto
  then have "c < 2 ^ 31 - 1" using assms(3) by simp
  from retain_run [OF xs(1) [unfolded sp(1)] sp(3) this [folded eq(2)]] obtain w' where
    w': "retain a w = Inr ((), w')" "holds w' (ys @ (a, k, s, c' + 1) # zs)" "history w' = history w"
      "respond w' = respond w" by blast
  have "represents (Suc m) w' (t(k \<mapsto> (fd, c + 1)))"
    unfolding represents_def
  proof (intro exI conjI)
    show "holds w' (ys @ (a, k, s, c' + 1) # zs)" by (rule w'(2))
    show "t(k \<mapsto> (fd, c + 1)) = entries (ys @ (a, k, s, c' + 1) # zs)"
      using entries_mid(1) [OF xs(1) [unfolded sp(1)], of "c' + 1"] by (simp add: xs(2) sp(1) eq)
    show "\<forall>(a, k, s, c) \<in> set (ys @ (a, k, s, c' + 1) # zs). c \<le> int (Suc m)"
    proof -
      have "\<forall>(a, k, s, c) \<in> set xs. c \<le> int (Suc m)" using xs(3) by fastforce
      then show ?thesis using xs(3) by (simp add: sp(1))
    qed
    show "opened_fds (history w') = closed_fds (history w') + mset (map (\<lambda>(a, k, s, c). s) (ys @ (a, k, s, c' + 1) # zs))"
      using xs(4) by (simp add: w'(3) sp(1))
  qed
  moreover have "\<forall>i tt r. k = (i, tt, r) \<longrightarrow> socketConnectionMatchingParams i tt r w = Inr (Some a, w)"
    using search [OF xs(1)] a by auto
  moreover have "conn_s (node (k, s, c' + 1) (final None ys) (first zs None)) = fd" using eq by simp
  ultimately show ?thesis using that w'(1,3,4) mid_block [OF w'(2)] by blast
qed

lemma open_represents:
  assumes "represents m w t" "t (i, tt, r) = None" "can_open (i, tt, r) w"
  obtains a w' n where "socketConnectionMatchingParams i tt r w = Inr (None, w)"
    "openSocketConnection i tt r w = Inr (Some a, w')" "represents (Suc m) w' (t((i, tt, r) \<mapsto> (new_fd w, 1)))"
    "blocks (w_heap w') a = Some n" "conn_s n = new_fd w" "calls w' = calls w @ [SocketIsotp, BindCan (new_fd w) i tt r]"
    "respond w' = respond w"
proof -
  from assms(1) obtain xs where xs: "holds w xs" "t = entries xs" "\<forall>(a, k, s, c) \<in> set xs. c \<le> int m"
    "opened_fds (history w) = closed_fds (history w) + mset (map (\<lambda>(a, k, s, c). s) xs)"
    unfolding represents_def by blast
  have none: "entries xs (i, tt, r) = None" using assms(2) xs(2) by simp
  from open_success [OF xs(1) none assms(3)] obtain a w' where
    w': "openSocketConnection i tt r w = Inr (Some a, w')" "holds w' ((a, (i, tt, r), new_fd w, 1) # xs)"
      "respond w' = respond w" "history w' = history (run_calls [SocketIsotp, BindCan (new_fd w) i tt r] w)" by blast
  have fd: "0 \<le> new_fd w" using assms(3) by (simp add: can_open_def)
  have "represents (Suc m) w' (t((i, tt, r) \<mapsto> (new_fd w, 1)))"
    unfolding represents_def
  proof (intro exI conjI)
    show "holds w' ((a, (i, tt, r), new_fd w, 1) # xs)" by (rule w'(2))
    show "t((i, tt, r) \<mapsto> (new_fd w, 1)) = entries ((a, (i, tt, r), new_fd w, 1) # xs)"
      by (simp add: xs(2) entries_def)
    show "\<forall>(a, k, s, c) \<in> set ((a, (i, tt, r), new_fd w, 1) # xs). c \<le> int (Suc m)" using xs(3) by fastforce
    show "opened_fds (history w') = closed_fds (history w') + mset (map (\<lambda>(a, k, s, c). s) ((a, (i, tt, r), new_fd w, 1) # xs))"
      using xs(4) fd unfolding w'(4) by (simp add: run_calls.simps fds_Cons [of _ _ "[_]"] fds_other flip: new_fd_def)
  qed
  moreover have "socketConnectionMatchingParams i tt r w = Inr (None, w)"
    using none search [OF xs(1), of i tt r] by (simp add: address_entries [symmetric])
  moreover have "blocks (w_heap w') a = Some (node ((i, tt, r), new_fd w, 1) None (first xs None))"
    using mid_block [of w' "[]"] w'(2) by simp
  moreover have "conn_s (node ((i, tt, r), new_fd w, 1) None (first xs None)) = new_fd w" by simp
  ultimately show ?thesis using that w'(1,3) calls_history [OF w'(4)] by blast
qed

lemma refuse_represents:
  assumes "represents m w t" "t (i, tt, r) = None" "\<not> can_open (i, tt, r) w"
  obtains w' cs where "socketConnectionMatchingParams i tt r w = Inr (None, w)"
    "openSocketConnection i tt r w = Inr (None, w')" "represents m w' t"
    "calls w' = calls w @ cs" "filter is_message cs = []" "respond w' = respond w"
proof -
  from assms(1) obtain xs where xs: "holds w xs" "t = entries xs" "\<forall>(a, k, s, c) \<in> set xs. c \<le> int m"
    "opened_fds (history w) = closed_fds (history w) + mset (map (\<lambda>(a, k, s, c). s) xs)"
    unfolding represents_def by blast
  let ?cs = "if new_fd w < 0 then [SocketIsotp] else [SocketIsotp, BindCan (new_fd w) i tt r, Close (new_fd w)]"
  from open_failure [OF xs(1) assms(3)] obtain w' where
    w': "openSocketConnection i tt r w = Inr (None, w')" "holds w' xs" "respond w' = respond w"
      "history w' = history (run_calls ?cs w)" by blast
  have "opened_fds (history w') = closed_fds (history w') + mset (map (\<lambda>(a, k, s, c). s) xs)"
    using xs(4) unfolding w'(4)
    by (auto simp: run_calls.simps fds_Cons [of _ _ "[_]"] fds_Cons [of _ _ "[_, _]"] fds_other simp flip: new_fd_def)
  then have "represents m w' t" using xs w'(2) unfolding represents_def by blast
  moreover have "socketConnectionMatchingParams i tt r w = Inr (None, w)"
    using assms(2) search [OF xs(1), of i tt r] address_entries [of xs "(i, tt, r)"] xs(2) by simp
  moreover have "filter is_message ?cs = []" by simp
  ultimately show ?thesis using that w'(1,3) calls_history [OF w'(4)] by blast
qed

lemma close_represents:
  assumes "represents m w t" "t (i, tt, r) = Some (fd, c)"
  obtains a w' where "socketConnectionMatchingParams i tt r w = Inr (Some a, w)"
    "closeSocketConnection (Some a) w = Inr ((), w')"
    "represents m w' (if c = 1 then t((i, tt, r) := None) else t((i, tt, r) \<mapsto> (fd, c - 1)))"
    "calls w' = calls w @ (if c = 1 then [Close fd] else [])" "respond w' = respond w"
proof -
  let ?k = "(i, tt, r)"
  from assms(1) obtain xs where xs: "holds w xs" "t = entries xs" "\<forall>(a, k, s, c) \<in> set xs. c \<le> int m"
    "opened_fds (history w) = closed_fds (history w) + mset (map (\<lambda>(a, k, s, c). s) xs)"
    unfolding represents_def by blast
  have "address xs ?k \<noteq> None" using assms(2) xs(2) by (simp add: address_entries)
  then obtain a where a: "address xs ?k = Some a" by blast
  from address_split [OF xs(1) a] obtain ys s c' zs where
    "xs = ys @ (a, ?k, s, c') # zs" "entries xs ?k = Some (s, c')" "1 \<le> c'" by metis
  then have sp: "xs = ys @ (a, ?k, fd, c) # zs" "1 \<le> c" using assms(2) xs(2) by simp_all
  note h = xs(1) [unfolded sp(1)]
  have find: "socketConnectionMatchingParams i tt r w = Inr (Some a, w)" using search [OF xs(1)] a by simp
  show ?thesis
  proof (cases "c = 1")
    case True
    from close_last [OF h [unfolded True]] obtain w' where
      w': "closeSocketConnection (Some a) w = Inr ((), w')" "holds w' (ys @ zs)" "respond w' = respond w"
        "history w' = history (run_calls [Close fd] w)" by blast
    have "represents m w' (t(?k := None))" unfolding represents_def
    proof (intro exI conjI)
      show "holds w' (ys @ zs)" by (rule w'(2))
      show "t(?k := None) = entries (ys @ zs)" using entries_mid(2) [OF h] by (simp add: xs(2) sp(1))
      show "\<forall>(a, k, s, c) \<in> set (ys @ zs). c \<le> int m" using xs(3) sp(1) by auto
      show "opened_fds (history w') = closed_fds (history w') + mset (map (\<lambda>(a, k, s, c). s) (ys @ zs))"
        using xs(4) unfolding w'(4) sp(1) by (simp add: run_calls.simps fds_other)
    qed
    with True w' calls_history [OF w'(4)] show ?thesis by (intro that [OF find w'(1)]) simp_all
  next
    case False
    then have "1 < c" using sp(2) by simp
    from close_shared [OF h this] obtain w' where
      w': "closeSocketConnection (Some a) w = Inr ((), w')" "holds w' (ys @ (a, ?k, fd, c - 1) # zs)"
        "respond w' = respond w" "history w' = history w" by blast
    have "represents m w' (t(?k \<mapsto> (fd, c - 1)))" unfolding represents_def
    proof (intro exI conjI)
      show "holds w' (ys @ (a, ?k, fd, c - 1) # zs)" by (rule w'(2))
      show "t(?k \<mapsto> (fd, c - 1)) = entries (ys @ (a, ?k, fd, c - 1) # zs)"
        using entries_mid(1) [OF h, of "c - 1"] by (simp add: xs(2) sp(1))
      show "\<forall>(a, k, s, c) \<in> set (ys @ (a, ?k, fd, c - 1) # zs). c \<le> int m" using xs(3) sp(1) by auto
      show "opened_fds (history w') = closed_fds (history w') + mset (map (\<lambda>(a, k, s, c). s) (ys @ (a, ?k, fd, c - 1) # zs))"
        using xs(4) unfolding w'(4) sp(1) by simp
    qed
    with False w' show ?thesis by (intro that [OF find w'(1)]) (simp_all add: calls_def)
  qed
qed

text \<open>Sending logs a line when it fails.\<close>

definition send_errors :: "int \<Rightarrow> string \<Rightarrow> OBDIIDaemonResponseCode \<Rightarrow> daemon \<Rightarrow> string list" where
  "send_errors s caddr code w = (let r = respond w (history w) (SendTo s caddr (bytes16 (response_code code))) in
     if ret r < 0 then [send_error_text code @ strerror (globals w) (err r)] else [])"

lemma run_sendResponseCode [io_simps]:
  "io_bind (sendResponseCode s caddr code) (\<lambda>_. m) w =
     m (logged (send_errors s caddr code w) (run_calls [SendTo s caddr (bytes16 (response_code code))] w))"
  by (simp add: sendResponseCode_def send_errors_def Let_def io_simps)

lemma pass_socket_run:
  assumes "blocks (w_heap w) a = Some n"
  shows "\<exists>ts. pass_socket s caddr a w = Inr ((), logged ts (run_calls [SendMsg s caddr (conn_s n)] w))"
proof -
  let ?r = "respond w (history w) (SendMsg s caddr (conn_s n))"
  have "pass_socket s caddr a w = (if ret ?r < 0 then LogError (pass_error_text n) (err ?r) else io_return ())
      (run_calls [SendMsg s caddr (conn_s n)] w)"
    using assms by (simp add: pass_socket_def io_bind_def [of "load a"] load_def sendFD_def io_simps)
  then show ?thesis
    by (cases "ret ?r < 0") (auto simp: LogError_def Log_run io_simps intro: exI [of _ "[]"])
qed

lemma sent_run_calls [simp]: "sent (run_calls cs w) = sent w @ filter is_message cs"
  by (simp add: sent_def)

lemma sent_eq: "calls w' = calls w @ cs \<Longrightarrow> sent w' = sent w @ filter is_message cs"
  by (simp add: sent_def)

text \<open>The descriptor a new connection would get, if one can be opened.\<close>

definition new_socket :: "key \<Rightarrow> daemon \<Rightarrow> int option" where
  "new_socket k w = (if can_open k w then Some (new_fd w) else None)"

lemma new_socket_logged [simp]: "new_socket k (logged ts w) = new_socket k w"
  by (simp add: new_socket_def)

lemma search_logged: "socketConnectionMatchingParams i t r w = Inr (found, w) \<Longrightarrow>
    socketConnectionMatchingParams i t r (logged ts w) = Inr (found, logged ts w)"
  by (auto simp: socketConnectionMatchingParams_def obind_eq_Inr split: option.splits)

lemma retain_logged:
  "retain a w = Inr ((), w') \<Longrightarrow> \<exists>n. blocks (w_heap w) a = Some n \<and> (\<forall>ts. retain a (logged ts w) = Inr ((), logged ts w'))"
  by (auto simp: retain_def io_bind_def load_def assign_def io_lift_def obind_eq_Inr split: option.splits)

lemma open_request_tail:
  assumes "found_or_opened s caddr i tt r found w = Inr (Some a, w1)" "blocks (w_heap w1) a = Some n"
  shows "\<exists>ts. io_bind (found_or_opened s caddr i tt r found) (\<lambda>found.
            case found of None \<Rightarrow> io_return ()
            | Some a \<Rightarrow> io_bind (sendResponseCode s caddr OBDIIDaemonResponseCodeSuccess) (\<lambda>_. pass_socket s caddr a)) w =
    Inr ((), logged ts (run_calls (messages s caddr (OBDIIDaemonResponseCodeSuccess, Some (conn_s n))) w1))"
proof -
  let ?w = "logged (send_errors s caddr OBDIIDaemonResponseCodeSuccess w1)
    (run_calls [SendTo s caddr (bytes16 (response_code OBDIIDaemonResponseCodeSuccess))] w1)"
  have "blocks (w_heap ?w) a = Some n" using assms(2) by simp
  from pass_socket_run [OF this] obtain ts where
    "pass_socket s caddr a ?w = Inr ((), logged ts (run_calls [SendMsg s caddr (conn_s n)] ?w))" by blast
  then show ?thesis
    by (simp add: bind_run [where m = "found_or_opened s caddr i tt r found", OF assms(1)] io_simps messages_def
        del: response_code.simps) blast
qed

lemma messages_quiet:
  "\<forall>c \<in> set (messages s caddr x). c \<noteq> SocketIsotp \<and> (\<nexists>fd. c = Close fd)"
  "filter is_message (messages s caddr x) = messages s caddr x"
  by (auto simp: messages_def split: option.splits)

lemma open_request_run:
  assumes "represents m w t" "int m < 2 ^ 31 - 1" "12 \<le> len"
    and "asuint32 req 0 = Inr i" "asuint32 req 4 = Inr tt" "asuint32 req 8 = Inr r"
  defines "a \<equiv> request_open (i, tt, r) (new_socket (i, tt, r) w) t"
  shows "\<exists>w'. handleSocketRequest s caddr req len True w = Inr ((), w') \<and> represents (Suc m) w' (fst a) \<and>
    sent w' = sent w @ messages s caddr (snd a) \<and> respond w' = respond w"
proof -
  let ?k = "(i, tt, r)" and ?ok = "OBDIIDaemonResponseCodeSuccess"
  define w0 where "w0 = logged [request_text True i tt r] w"
  have w0: "represents m w0 t" "new_socket ?k w0 = new_socket ?k w" "sent w0 = sent w" "respond w0 = respond w"
    using assms(1) by (simp_all add: w0_def)
  have run: "handleSocketRequest s caddr req len True w = io_bind (found_or_opened s caddr i tt r found) (\<lambda>found.
            case found of None \<Rightarrow> io_return ()
            | Some a \<Rightarrow> io_bind (sendResponseCode s caddr ?ok) (\<lambda>_. pass_socket s caddr a)) w0"
    if "socketConnectionMatchingParams i tt r w0 = Inr (found, w0)" for found
    using assms(3) by (simp add: handleSocketRequest_def io_simps assms(4-6) w0_def [symmetric]
        bind_run [where m = "socketConnectionMatchingParams i tt r", OF that])
  show ?thesis
  proof (cases "t ?k")
    case (Some p)
    obtain fd c where p: "t ?k = Some (fd, c)" using Some by (cases p) simp
    from retain_represents [OF w0(1) p assms(2)] obtain x w1 n where
      y: "\<forall>i' tt' r'. ?k = (i', tt', r') \<longrightarrow> socketConnectionMatchingParams i' tt' r' w0 = Inr (Some x, w0)"
      "retain x w0 = Inr ((), w1)" "represents (Suc m) w1 (t(?k \<mapsto> (fd, c + 1)))"
      "blocks (w_heap w1) x = Some n" "conn_s n = fd" "history w1 = history w0" "respond w1 = respond w0" by metis
    then have search: "socketConnectionMatchingParams i tt r w0 = Inr (Some x, w0)" by simp
    obtain n0 where n0: "blocks (w_heap w0) x = Some n0" "\<And>ts. retain x (logged ts w0) = Inr ((), logged ts w1)"
      using retain_logged [OF y(2)] by blast
    let ?w1 = "logged [found_text n0] w1"
    have "found_or_opened s caddr i tt r (Some x) w0 = Inr (Some x, ?w1)"
      using n0 by (simp add: found_or_opened_def io_bind_def [of "load x"] load_def io_simps bind_run [where m = "retain x"])
    from open_request_tail [OF this, of n] y(4) obtain ts where
      "handleSocketRequest s caddr req len True w = Inr ((), logged ts (run_calls (messages s caddr (?ok, Some (conn_s n))) ?w1))"
      using run [OF search] by auto
    with y represents_calls [OF messages_quiet(1) y(3)] w0 show ?thesis
      by (simp add: a_def request_open_def p messages_quiet(2)) (simp add: sent_def calls_def)
  next
    case None
    show ?thesis
    proof (cases "can_open ?k w0")
      case True
      from open_represents [OF w0(1) None True] obtain x w1 n where
        x: "socketConnectionMatchingParams i tt r w0 = Inr (None, w0)"
        "openSocketConnection i tt r w0 = Inr (Some x, w1)" "represents (Suc m) w1 (t(?k \<mapsto> (new_fd w0, 1)))"
        "blocks (w_heap w1) x = Some n" "conn_s n = new_fd w0" "calls w1 = calls w0 @ [SocketIsotp, BindCan (new_fd w0) i tt r]"
        "respond w1 = respond w0" by metis
      have "found_or_opened s caddr i tt r None w0 = Inr (Some x, w1)"
        by (simp add: found_or_opened_def bind_run [where m = "openSocketConnection i tt r", OF x(2)] io_simps)
      from open_request_tail [OF this x(4)] run [OF x(1)] x represents_calls [OF messages_quiet(1) x(3)] True w0 show ?thesis
        by (auto simp add: a_def request_open_def new_socket_def None messages_quiet(2) sent_eq [OF x(6)])
    next
      case False
      from refuse_represents [OF w0(1) None False] obtain w1 cs where
        x: "socketConnectionMatchingParams i tt r w0 = Inr (None, w0)"
        "openSocketConnection i tt r w0 = Inr (None, w1)" "represents m w1 t"
        "calls w1 = calls w0 @ cs" "filter is_message cs = []" "respond w1 = respond w0" by metis
      obtain ts where f: "found_or_opened s caddr i tt r None w0 =
          Inr (None, logged ts (run_calls (messages s caddr (OBDIIDaemonResponseCodeOpenSocketError, None)) w1))"
        by (simp add: found_or_opened_def bind_run [where m = "openSocketConnection i tt r", OF x(2)] io_simps messages_def)
      from represents_calls [OF messages_quiet(1) represents_mono [OF x(3)]] have
        "represents (Suc m) (run_calls (messages s caddr (OBDIIDaemonResponseCodeOpenSocketError, None)) w1) t" by simp
      with run [OF x(1)] x False w0 show ?thesis
        by (simp add: bind_run [where m = "found_or_opened s caddr i tt r None", OF f] io_simps a_def request_open_def new_socket_def None messages_quiet(2) sent_eq [OF x(4)])
    qed
  qed
qed

lemma close_request_run:
  assumes "represents m w t" "12 \<le> len"
    and "asuint32 req 0 = Inr i" "asuint32 req 4 = Inr tt" "asuint32 req 8 = Inr r"
  defines "a \<equiv> request_close (i, tt, r) t"
  shows "\<exists>w'. handleSocketRequest s caddr req len False w = Inr ((), w') \<and> represents m w' (fst a) \<and>
    sent w' = sent w @ messages s caddr (snd a) \<and> respond w' = respond w"
proof -
  let ?k = "(i, tt, r)"
  define w0 where "w0 = logged [request_text False i tt r] w"
  have w0: "represents m w0 t" "sent w0 = sent w" "respond w0 = respond w"
    using assms(1) by (simp_all add: w0_def)
  have run: "handleSocketRequest s caddr req len False w = (case found of
        Some a \<Rightarrow> io_bind (closeSocketConnection (Some a)) (\<lambda>_.
          io_bind (sendResponseCode s caddr OBDIIDaemonResponseCodeSuccess) (\<lambda>_. io_return ())) w0
      | None \<Rightarrow> Inr ((), logged (send_errors s caddr OBDIIDaemonResponseCodeNoSuchSocket w0)
          (run_calls (messages s caddr (OBDIIDaemonResponseCodeNoSuchSocket, None)) w0)))"
    if "socketConnectionMatchingParams i tt r w0 = Inr (found, w0)" for found
    using assms(2) by (simp add: handleSocketRequest_def io_simps assms(3-5) messages_def w0_def [symmetric]
        bind_run [where m = "socketConnectionMatchingParams i tt r", OF that] split: option.split)
  show ?thesis
  proof (cases "t ?k")
    case None
    from w0(1) obtain xs where xs: "holds w0 xs" "t = entries xs" unfolding represents_def by blast
    have "socketConnectionMatchingParams i tt r w0 = Inr (None, w0)"
      using None search [OF xs(1), of i tt r] address_entries [of xs ?k] xs(2) by simp
    from run [OF this] represents_calls [OF messages_quiet(1) w0(1)] w0 show ?thesis
      by (simp add: a_def request_close_def None messages_quiet(2))
  next
    case (Some p)
    obtain fd c where p: "t ?k = Some (fd, c)" using Some by (cases p) simp
    from close_represents [OF w0(1) p] obtain x w1 where
      x: "socketConnectionMatchingParams i tt r w0 = Inr (Some x, w0)" "closeSocketConnection (Some x) w0 = Inr ((), w1)"
      "represents m w1 (if c = 1 then t(?k := None) else t(?k \<mapsto> (fd, c - 1)))"
      "calls w1 = calls w0 @ (if c = 1 then [Close fd] else [])" "respond w1 = respond w0" by metis
    have "handleSocketRequest s caddr req len False w =
        Inr ((), logged (send_errors s caddr OBDIIDaemonResponseCodeSuccess w1)
          (run_calls (messages s caddr (OBDIIDaemonResponseCodeSuccess, None)) w1))"
      by (simp add: run [OF x(1)] bind_run [where m = "closeSocketConnection (Some x)", OF x(2)] io_simps messages_def)
    with represents_calls [OF messages_quiet(1) x(3)] sent_eq [OF x(4)] x(5) w0 show ?thesis
      by (simp add: a_def request_close_def p messages_quiet(2))
  qed
qed

end
