(* ===== verification/Service.thy ===== *)
theory Service
  imports Daemon
begin

text \<open>
  The daemon as a service: every message either is a request, and refines the table of descriptors, or
  changes nothing; and when the hexadecimal dump of a message stays inside its buffer.
\<close>

section \<open>Messages\<close>

text \<open>A request, with the descriptor a new connection would get.\<close>

type_synonym request = "OBDIIDaemonRequestType \<times> key \<times> int option"

type_synonym response = "OBDIIDaemonResponseCode \<times> int option"

fun perform_request :: "request \<Rightarrow> table \<Rightarrow> table \<times> response" where
  "perform_request (OBDIIDaemonRequestOpenSocket, k, opened) t = request_open k opened t"
| "perform_request (OBDIIDaemonRequestCloseSocket, k, opened) t = request_close k t"

lemma request_code_eq [simp]: "request_code a = request_code b \<longleftrightarrow> a = b"
  by (cases a; cases b) simp_all

lemma message_run:
  assumes "represents m w t" "int m < 2 ^ 31 - 1"
  shows "\<exists>w'. handleMessage s caddr (request_bytes ty k @ rest) (int (16 + length rest)) w = Inr ((), w') \<and>
    represents (Suc m) w' (fst (perform_request (ty, k, new_socket k w) t)) \<and> sent w' = sent w @ messages s caddr (snd (perform_request (ty, k, new_socket k w) t)) \<and>
    respond w' = respond w"
proof -
  obtain i tt r where k: "k = (i, tt, r)" by (cases k)
  have len: "12 \<le> int (16 + length rest) - 4" by simp
  note p = request_parameters [of ty i tt r rest]
  show ?thesis
  proof (cases ty)
    case OBDIIDaemonRequestOpenSocket
    from open_request_run [OF assms len p, of s caddr] show ?thesis
      by (simp add: handleMessage_def io_simps request_header OBDII_DAEMON_REQUEST_HEADER_SIZE_def
          OBDIIDaemonRequestOpenSocket k del: request_code.simps)
  next
    case OBDIIDaemonRequestCloseSocket
    from close_request_run [OF assms(1) len p, of s caddr] obtain w' where
      w': "handleSocketRequest s caddr (drop 4 (request_bytes ty (i, tt, r) @ rest)) (int (16 + length rest) - 4) False w = Inr ((), w')"
      "represents m w' (fst (request_close (i, tt, r) t))"
      "sent w' = sent w @ messages s caddr (snd (request_close (i, tt, r) t))" "respond w' = respond w" by blast
    have "represents (Suc m) w' (fst (request_close (i, tt, r) t))" using represents_mono [OF w'(2)] by simp
    with w' show ?thesis
      by (simp add: handleMessage_def io_simps request_header OBDII_DAEMON_REQUEST_HEADER_SIZE_def
          OBDIIDaemonRequestCloseSocket k del: request_code.simps)
  qed
qed

lemma message_skipped:
  assumes "\<nexists>ty k rest. req = request_bytes ty k @ rest"
  shows "\<exists>text. handleMessage s caddr req (int (length req)) w = Inr ((), logged [text] w)"
proof (cases "4 \<le> length req")
  case True
  then obtain v ty where h: "asuint16 req 0 = Inr v" "asuint16 req 2 = Inr ty"
    using asuint16_defined [of 0 req] asuint16_defined [of 2 req] by auto
  show ?thesis
  proof (cases "v = 1 \<and> ty \<in> range request_code")
    case True
    then have "length req < 16" using request_complete [of req] h assms by (metis imageE not_less)
    then show ?thesis using h
      by (auto simp add: handleMessage_def io_simps OBDII_DAEMON_REQUEST_HEADER_SIZE_def handleSocketRequest_def Let_def Log_run)
  next
    case False
    then have "v \<noteq> 1 \<or> ty \<noteq> request_code OBDIIDaemonRequestOpenSocket \<and> ty \<noteq> request_code OBDIIDaemonRequestCloseSocket"
      by blast
    then show ?thesis using h \<open>4 \<le> length req\<close>
      by (auto simp: handleMessage_def io_simps OBDII_DAEMON_REQUEST_HEADER_SIZE_def Log_run)
  qed
qed (auto simp: handleMessage_def io_simps OBDII_DAEMON_REQUEST_HEADER_SIZE_def Log_run)

section \<open>Dumping a message\<close>

lemma length_hex_digits: "16 ^ k \<le> n \<Longrightarrow> n < 16 ^ Suc k \<Longrightarrow> length (hex_digits n) = Suc k"
proof (induction k arbitrary: n)
  case 0
  then show ?case by (simp add: hex_digits.simps [of n])
next
  case (Suc k)
  have "16 ^ k \<le> n div 16" "n div 16 < 16 ^ Suc k"
    using Suc.prems by (simp_all add: less_mult_imp_div_less div_le_mono flip: div_le_mono [of "16 * 16 ^ k" n 16, simplified])
  moreover have "16 \<le> n" using Suc.prems(1) by (metis le_trans mult_le_mono2 mult_1_right one_le_numeral one_le_power power_Suc)
  ultimately show ?case using Suc.IH by (simp add: hex_digits.simps [of n])
qed

lemma length_hex_digits_small: "n < 256 \<Longrightarrow> length (hex_digits n) = (if n < 16 then 1 else 2)"
  using length_hex_digits [of 1 n] by (simp add: hex_digits.simps [of n])

lemma printed_value:
  fixes c :: byte
  shows "unat (scast c :: u32) = (if c < 0x80 then unat c else unat c + 0xFFFFFF00)"
proof -
  have "uint (scast c :: u32) = sint c mod 2 ^ 32" "uint c = sint c mod 256"
    using uint_word_of_int [of "sint c", where ?'a = 32] uint_word_of_int [of "sint c", where ?'a = 8] by simp_all
  moreover have "- 128 \<le> sint c" "sint c < 128" using sint_greater_eq [of c] sint_less [of c] by simp_all
  moreover have "s mod 2 ^ 32 = (if s mod 256 < 128 then s mod 256 else s mod 256 + 0xFFFFFF00)"
    if "- 128 \<le> s" "s < 128" for s :: int
  proof (cases "s < 0")
    case True
    then have "s mod 2 ^ 32 = s + 2 ^ 32" "s mod 256 = s + 256"
      using that(1) mod_add_self2 [of s "2 ^ 32"] mod_add_self2 [of s 256]
        mod_pos_pos_trivial [of "s + 2 ^ 32" "2 ^ 32"] mod_pos_pos_trivial [of "s + 256" 256] by simp_all
    then show ?thesis using that(1) True by simp
  qed (use that(2) in simp)
  ultimately have "uint (scast c :: u32) = (if uint c < 128 then uint c else uint c + 0xFFFFFF00)"
    by metis
  then have "int (unat (scast c :: u32)) = (if uint c < 128 then int (unat c) else int (unat c + 0xFFFFFF00))"
    by (simp del: of_nat_add add: of_nat_add)
  moreover have "c < 0x80 \<longleftrightarrow> uint c < 128" by (simp add: word_less_def)
  ultimately show ?thesis by (simp only: of_nat_eq_iff if_True if_False split: if_splits) simp_all
qed

lemma length_format: "length (format_02x (word_of_int (sint c))) = (if c < 0x80 then 2 else 8)" for c :: byte
proof (cases "c < 0x80")
  case True
  then have "unat c < 256" by (simp add: word_less_nat_alt)
  with True show ?thesis by (simp add: format_02x_def Let_def printed_value length_hex_digits_small)
next
  case False
  have "unat c < 2 ^ LENGTH(8)" by (rule unsigned_less)
  then have "unat c < 256" by simp
  then have "length (hex_digits (unat c + 0xFFFFFF00)) = 8" using length_hex_digits [of 7] by simp
  with False show ?thesis by (simp add: format_02x_def Let_def printed_value)
qed

text \<open>A byte from \<open>0x80\<close> up takes nine characters of a buffer that has two per byte left and one.\<close>

lemma dump_defined:
  "length dest = i + 2 * length src + 1 \<Longrightarrow>
     defined (dump i src dest) \<longleftrightarrow> (\<forall>c \<in> set (drop (length src - 3) src). c < 0x80)"
proof (induction src arbitrary: i dest)
  case (Cons c src)
  let ?t = "map of_char (format_02x (word_of_int (sint c))) @ [0]"
  have t: "length ?t = (if c < 0x80 then 3 else 9)" using length_format [of c] by simp
  have d: "drop (length (c # src) - 3) (c # src) =
      (if 3 \<le> length src then [] else [c]) @ drop (length src - 3) src"
    by (auto simp: drop_Cons' Suc_diff_le not_le)
  show ?case
  proof (cases "i + length ?t \<le> length dest")
    case True
    then obtain dest' where s: "store i ?t dest = Inr dest'" "length dest' = length dest"
      by (auto simp: store_def)
    have "c < 0x80 \<or> 3 \<le> length src" using True t Cons.prems by (auto split: if_splits)
    with Cons.IH [of dest' "i + 2"] Cons.prems s show ?thesis unfolding d by auto
  next
    case False
    then have "\<not> c < 0x80" "\<not> 3 \<le> length src" using t Cons.prems by (auto split: if_splits)
    moreover have "store i ?t dest = Inl OutOfBounds" using False by (simp add: store_def)
    ultimately show ?thesis unfolding d by simp
  qed
qed simp

section \<open>The text of a dump\<close>

text \<open>What the dump leaves of a byte: two digits, which for a byte from \<open>0x80\<close> up are the first two of eight.\<close>

definition shown :: "byte \<Rightarrow> string" where
  "shown c = (if c < 0x80 then format_02x (word_of_int (sint c)) else ''ff'')"

lemma length_shown [simp]: "length (shown c) = 2"
  using length_format [of c] by (simp add: shown_def)

lemma take_format: "take 2 (format_02x (word_of_int (sint c))) = shown c" for c :: byte
proof (cases "c < 0x80")
  case True
  then show ?thesis using length_format [of c] by (simp add: shown_def)
next
  case False
  have "unat c < 2 ^ LENGTH(8)" by (rule unsigned_less)
  then have div: "(unat c + 0xFFFFFF00) div 16 div 16 = 0xFFFFFF" by (simp add: div_mult2_eq [symmetric])
  have "hex_digits 0xFFFFFF = ''ffffff''" by (simp add: hex_digits.simps)
  then have "hex_digits (unat c + 0xFFFFFF00) = ''ffffff'' @
      [''0123456789abcdef'' ! ((unat c + 0xFFFFFF00) div 16 mod 16)] @ [''0123456789abcdef'' ! ((unat c + 0xFFFFFF00) mod 16)]"
    using div by (simp add: hex_digits.simps [of "unat c + 0xFFFFFF00"] hex_digits.simps [of "(unat c + 0xFFFFFF00) div 16"])
  then show ?thesis using False by (simp add: format_02x_def Let_def printed_value shown_def)
qed

lemma store_eq_Inr: "store i bs dest = Inr d \<longleftrightarrow> i + length bs \<le> length dest \<and> d = take i dest @ bs @ drop (i + length bs) dest"
  by (auto simp: store_def)

lemma dump_content:
  "dump i src dest = Inr d \<Longrightarrow> length dest = i + 2 * length src + 1 \<Longrightarrow>
     d = take i dest @ (if src = [] then drop i dest else map of_char (concat (map shown src)) @ [0])"
proof (induction src arbitrary: i dest)
  case (Cons c src)
  let ?t = "map of_char (format_02x (word_of_int (sint c))) @ [0]"
  have t: "length ?t = (if c < 0x80 then 3 else 9)" using length_format [of c] by simp
  from Cons.prems(1) obtain dest' where s: "store i ?t dest = Inr dest'" "dump (i + 2) src dest' = Inr d"
    by (auto simp: obind_eq_Inr)
  note fits = s(1) [unfolded store_eq_Inr, THEN conjunct1] and d = s(1) [unfolded store_eq_Inr, THEN conjunct2]
  have len: "length dest' = i + 2 + 2 * length src + 1" using d fits Cons.prems(2) by auto
  have "length (take i dest) = i" using fits by simp
  then have "take (i + 2) dest' = take i dest @ map of_char (shown c)"
    unfolding d using length_format [of c] by (simp add: take_format [symmetric] take_map)
  moreover have "drop (i + 2) dest' = [0]" if "src = []"
  proof -
    have "c < 0x80" using fits t Cons.prems(2) that by (auto split: if_splits)
    with \<open>length (take i dest) = i\<close> show ?thesis unfolding d using t Cons.prems(2) that length_format [of c] by simp
  qed
  ultimately show ?case using Cons.IH [OF s(2) len] by auto
qed simp

lemma c_string_text: "0 \<notin> set bs \<Longrightarrow> c_string (map Some (bs @ [0])) = Inr bs"
  by (induction bs) auto

lemma digits_not_nul: "CHR 0x00 \<notin> set (hex_digits n)"
proof (induction n rule: hex_digits.induct)
  case (1 n)
  have "CHR 0x00 \<noteq> ''0123456789abcdef'' ! k" if "k < 16" for k
    using that by (auto simp: less_Suc_eq numeral_eq_Suc)
  then show ?case using 1 by (simp add: hex_digits.simps [of n])
qed

lemma shown_not_nul: "CHR 0x00 \<notin> set (shown c)"
  using digits_not_nul by (auto simp: shown_def format_02x_def Let_def)

text \<open>The line that a message leaves in the log.\<close>

lemma dump_text:
  assumes "dump 0 req (replicate (2 * length req + 1) 0) = Inr d"
  shows "log_text d = Inr (concat (map shown req))"
proof -
  let ?t = "concat (map shown req)"
  have d: "d = map of_char ?t @ [0]" using dump_content [OF assms] by (cases "req = []") auto
  have char: "char_of (unat (of_char c :: byte)) = c" for c
    by (simp add: unat_of_char)
  have char_zero: "char_of (0 :: nat) = CHR 0x00" by (simp add: char_of_def)
  have nz: "(0 :: byte) \<noteq> of_char c" if "c \<noteq> CHR 0x00" for c
    using that char [of c] by (metis char_zero unat_0)
  have "CHR 0x00 \<notin> set ?t" unfolding set_concat set_map using shown_not_nul by blast
  then have "(0 :: byte) \<notin> of_char ` set ?t" using nz by (metis imageE)
  then have "0 \<notin> set (map of_char ?t :: byte list)" unfolding set_map .
  then show ?thesis unfolding log_text_def d by (simp add: c_string_text comp_def char del: map_append)
qed

end
