(* ===== verification/Reference_Counts.thy ===== *)
theory Reference_Counts
  imports Service
begin

text \<open>
  Reference counting as a contract: whatever sequence of operations is performed, the number of uses of
  a key is the acquisitions granted minus the releases granted, so a release is never granted too often.
  The daemon's table of descriptors meets the contract.
\<close>

section \<open>The contract\<close>

text \<open>Performing operations one after the other, and the answer to each.\<close>

fun perform_all :: "('o \<Rightarrow> 's \<Rightarrow> 's \<times> 'r) \<Rightarrow> 'o list \<Rightarrow> 's \<Rightarrow> 's \<times> ('o \<times> 'r) list" where
  "perform_all f [] s = (s, [])"
| "perform_all f (x # xs) s = (let (s, r) = f x s; (s, tr) = perform_all f xs s in (s, (x, r) # tr))"

definition occurrences :: "('a \<Rightarrow> bool) \<Rightarrow> 'a list \<Rightarrow> int" where
  "occurrences P xs = int (length (filter P xs))"

lemma occurrences_simps [simp]:
  "occurrences P [] = 0" "occurrences P (x # xs) = of_bool (P x) + occurrences P xs"
  "occurrences P (xs @ ys) = occurrences P xs + occurrences P ys"
  by (simp_all add: occurrences_def)

lemma perform_all_append:
  "perform_all f (xs @ ys) s = (let (s, tr) = perform_all f xs s; (s, tr') = perform_all f ys s in (s, tr @ tr'))"
  by (induction xs arbitrary: s) (simp_all add: case_prod_beta Let_def)

locale reference_count =
  fixes valid :: "'s \<Rightarrow> bool" and uses :: "'s \<Rightarrow> 'k \<Rightarrow> int" and perform :: "'o \<Rightarrow> 's \<Rightarrow> 's \<times> 'r"
    and acquired :: "'k \<Rightarrow> 'o \<times> 'r \<Rightarrow> bool" and released :: "'k \<Rightarrow> 'o \<times> 'r \<Rightarrow> bool"
  assumes keeps: "valid s \<Longrightarrow> valid (fst (perform x s))"
    and counts: "valid s \<Longrightarrow> uses (fst (perform x s)) k =
      uses s k + of_bool (acquired k (x, snd (perform x s))) - of_bool (released k (x, snd (perform x s)))"
    and natural: "valid s \<Longrightarrow> 0 \<le> uses s k"
begin

lemma keeps_all: "valid s \<Longrightarrow> valid (fst (perform_all perform xs s))"
  by (induction xs arbitrary: s) (auto simp: Let_def case_prod_beta keeps)

lemma balance:
  "valid s \<Longrightarrow> uses (fst (perform_all perform xs s)) k = uses s k +
     occurrences (acquired k) (snd (perform_all perform xs s)) - occurrences (released k) (snd (perform_all perform xs s))"
  by (induction xs arbitrary: s) (auto simp: Let_def case_prod_beta keeps counts)

lemma not_over_released:
  assumes "valid s" "uses s k = 0"
  shows "occurrences (released k) (snd (perform_all perform xs s)) \<le> occurrences (acquired k) (snd (perform_all perform xs s))"
  using natural [OF keeps_all [OF assms(1)], of xs k] balance [OF assms(1), of xs k] assms(2) by simp

end

section \<open>The table of descriptors\<close>

definition granted :: "OBDIIDaemonRequestType \<Rightarrow> key \<Rightarrow> request \<times> response \<Rightarrow> bool" where
  "granted ty k x \<longleftrightarrow> (case x of ((ty', k', _), (code, _)) \<Rightarrow>
     ty' = ty \<and> k' = k \<and> code = OBDIIDaemonResponseCodeSuccess)"

definition counted :: "table \<Rightarrow> bool" where
  "counted t \<longleftrightarrow> (\<forall>k fd c. t k = Some (fd, c) \<longrightarrow> 1 \<le> c)"

lemma countedD: "counted t \<Longrightarrow> t k = Some (fd, c) \<Longrightarrow> 1 \<le> c"
  by (cases k) (auto simp: counted_def)

definition reference_count_of :: "table \<Rightarrow> key \<Rightarrow> int" where
  "reference_count_of t k = (case t k of None \<Rightarrow> 0 | Some (fd, c) \<Rightarrow> c)"

interpretation sockets: reference_count counted reference_count_of perform_request
    "granted OBDIIDaemonRequestOpenSocket" "granted OBDIIDaemonRequestCloseSocket"
proof unfold_locales
  fix x :: request and t k assume t: "counted t"
  obtain ty k' opened where x: "x = (ty, k', opened)" by (cases x)
  note defs = counted_def reference_count_of_def granted_def request_open_def request_close_def
  from t show "counted (fst (perform_request x t))"
    unfolding x by (cases ty) (fastforce simp: defs split: option.splits if_splits)+
  from t show "reference_count_of (fst (perform_request x t)) k = reference_count_of t k +
      of_bool (granted OBDIIDaemonRequestOpenSocket k (x, snd (perform_request x t))) -
      of_bool (granted OBDIIDaemonRequestCloseSocket k (x, snd (perform_request x t)))"
    unfolding x by (cases ty) (auto simp: defs split: option.splits if_splits)
  from t show "0 \<le> reference_count_of t k" by (fastforce simp: reference_count_of_def dest: countedD split: option.split prod.split)
qed

end
