(* ===== verification/Rounds.thy ===== *)
theory Rounds
  imports Reference_Counts
begin

text \<open>
  Any number of rounds of the daemon's main loop: the rounds refine a sequence of requests on the table
  of descriptors, the transcript of messages is what those requests answer, no search of the list fails
  to end, and every CAN socket that was opened is either in the table or was closed.
\<close>

section \<open>The transcript\<close>

text \<open>Each datagram the daemon sends through \<open>sendto\<close>, with the datagram it received last.\<close>

fun transcript :: "byte list \<Rightarrow> history \<Rightarrow> (byte list \<times> byte list) list" where
  "transcript req [] = []"
| "transcript req ((c, r) # hist) = (case c of
       RecvFrom s n \<Rightarrow> transcript (bytes r) hist
     | SendTo s p b \<Rightarrow> (req, b) # transcript req hist
     | _ \<Rightarrow> transcript req hist)"

fun last_received :: "byte list \<Rightarrow> history \<Rightarrow> byte list" where
  "last_received req [] = req"
| "last_received req ((c, r) # hist) = last_received (case c of RecvFrom s n \<Rightarrow> bytes r | _ \<Rightarrow> req) hist"

lemma transcript_append:
  "transcript req (hist @ hist') = transcript req hist @ transcript (last_received req hist) hist'"
  by (induction req hist rule: transcript.induct) (auto split: call.split)

text \<open>The datagrams of a list of calls.\<close>

fun datagrams :: "call list \<Rightarrow> byte list list" where
  "datagrams [] = []"
| "datagrams (SendTo s p b # cs) = b # datagrams cs"
| "datagrams (_ # cs) = datagrams cs"

definition receives :: "call \<Rightarrow> bool" where
  "receives c = (case c of RecvFrom s n \<Rightarrow> True | _ \<Rightarrow> False)"

lemma datagrams_filter: "datagrams (filter is_message cs) = datagrams cs"
  by (induction cs rule: datagrams.induct) simp_all

lemma transcript_datagrams:
  "\<forall>(c, r) \<in> set hist. \<not> receives c \<Longrightarrow> transcript req hist = map (Pair req) (datagrams (map fst hist))"
  by (induction req hist rule: transcript.induct) (auto simp: receives_def split: call.splits)

lemma datagrams_messages: "datagrams (messages s caddr x) = [bytes16 (response_code (fst x))]"
  by (auto simp: messages_def split: option.split)

section \<open>Handling a message receives nothing\<close>

lemma makes_load: "makes P (load a)" "makes P (assign a f)"
  by (auto simp: makes_def load_def assign_def split: option.splits)

lemma makes_search: "makes P (socketConnectionMatchingParams i t r)"
  by (auto simp: makes_def socketConnectionMatchingParams_def obind_eq_Inr split: option.splits)

lemma handleMessage_receives_nothing: "makes (\<lambda>c. \<not> receives c) (handleMessage s caddr req n)"
  unfolding handleMessage_def handleSocketRequest_def Let_def found_or_opened_def retain_def openSocketConnection_def
    closeSocketConnection_def sendResponseCode_def sendFD_def pass_socket_def
  by (intro makes_intros makes_load makes_search) (simp_all add: receives_def)

lemma message_transcript:
  assumes "represents m w t" "int m < 2 ^ 31 - 1"
  shows "\<exists>w'. handleMessage s caddr (request_bytes ty k @ rest) (int (16 + length rest)) w = Inr ((), w') \<and>
    represents (Suc m) w' (fst (perform_request (ty, k, new_socket k w) t)) \<and> respond w' = respond w \<and>
    transcript req (history w') = transcript req (history w) @ [(last_received req (history w),
      bytes16 (response_code (fst (snd (perform_request (ty, k, new_socket k w) t)))))]"
proof -
  let ?x = "snd (perform_request (ty, k, new_socket k w) t)"
  from message_run [OF assms, of s caddr ty k rest] obtain w' where
    w': "handleMessage s caddr (request_bytes ty k @ rest) (int (16 + length rest)) w = Inr ((), w')"
      "represents (Suc m) w' (fst (perform_request (ty, k, new_socket k w) t))"
      "sent w' = sent w @ messages s caddr ?x" "respond w' = respond w" by blast
  from handleMessage_receives_nothing w'(1) obtain hist where
    hist: "history w' = history w @ hist" "\<forall>(c, r) \<in> set hist. \<not> receives c" unfolding makes_def by blast
  have "filter is_message (map fst hist) = messages s caddr ?x"
    using w'(3) by (simp add: sent_def calls_def hist(1))
  then have "datagrams (map fst hist) = [bytes16 (response_code (fst ?x))]"
    by (metis datagrams_filter datagrams_messages)
  with w' show ?thesis by (simp add: hist(1) transcript_append transcript_datagrams [OF hist(2)])
qed

section \<open>One round\<close>

definition incoming :: "int \<Rightarrow> daemon \<Rightarrow> reply" where
  "incoming s w = respond w (history w) (RecvFrom s OBDII_DAEMON_REQUEST_MAX_SIZE)"

text \<open>The messages whose dump stays inside its buffer.\<close>

definition dumpable :: "byte list \<Rightarrow> bool" where
  "dumpable req \<longleftrightarrow> (\<forall>c \<in> set (drop (length req - 3) req). c < 0x80)"

text \<open>An exchange of the transcript is a request and its answer.\<close>

fun records :: "byte list \<times> byte list \<Rightarrow> request \<times> response \<Rightarrow> bool" where
  "records (req, resp) ((ty, k, opened), (code, fd)) \<longleftrightarrow>
     take 16 req = request_bytes ty k \<and> resp = bytes16 (response_code code)"

text \<open>The daemon has served a list of requests, at most \<open>m\<close>.\<close>

definition served :: "nat \<Rightarrow> daemon \<Rightarrow> request list \<Rightarrow> bool" where
  "served m w xs \<longleftrightarrow> length xs \<le> m \<and> (case perform_all perform_request xs Map.empty of
     (t, tr) \<Rightarrow> represents m w t \<and> list_all2 records (transcript [] (history w)) tr)"

lemma dump_error: "dump i src dest = Inl e \<Longrightarrow> e = OutOfBounds"
  by (induction src arbitrary: i dest) (auto simp: store_def split: if_splits)

lemma kernel_recvfrom:
  assumes "kernel (respond w)" "0 \<le> ret (incoming s w)"
  shows "ret (incoming s w) = int (length (bytes (incoming s w)))"
proof -
  have "length (bytes (incoming s w)) = nat (ret (incoming s w))"
    using assms(1) unfolding incoming_def kernel_def by blast
  with assms(2) show ?thesis by simp
qed

lemma served_logged [simp]: "served m (logged ts w) xs \<longleftrightarrow> served m w xs"
  by (simp add: served_def)

text \<open>After a message was received and its dump logged.\<close>

definition after_receive :: "int \<Rightarrow> daemon \<Rightarrow> daemon" where
  "after_receive s w = logged [raw_text (concat (map shown (bytes (incoming s w))))]
     (run_calls [RecvFrom s OBDII_DAEMON_REQUEST_MAX_SIZE] w)"

lemma handle_received_run:
  assumes "ret r = int (length (bytes r))"
  shows "handle_received s r w = (if dumpable (bytes r) then
     io_bind (handleMessage s (peer r) (bytes r) (int (length (bytes r)))) (\<lambda>_. io_return True)
       (logged [raw_text (concat (map shown (bytes r)))] w)
   else Inl OutOfBounds)"
proof -
  let ?b = "bytes r"
  let ?d = "dump 0 ?b (replicate (2 * length ?b + 1) 0)"
  have d: "defined ?d \<longleftrightarrow> dumpable ?b" using dump_defined [of _ 0 ?b] by (simp add: dumpable_def)
  have "nat (int (length ?b) * 2 + 1) = 2 * length ?b + 1" by simp
  then have run: "handle_received s r w = obind ?d (\<lambda>d. obind (log_text d) (\<lambda>text.
      io_bind (handleMessage s (peer r) ?b (int (length ?b))) (\<lambda>_. io_return True) (logged [raw_text text] w)))"
    using assms by (simp add: handle_received_def io_simps)
  show ?thesis
  proof (cases "dumpable ?b")
    case True
    then obtain x where "?d = Inr x" using d by (auto simp: defined_iff)
    with True dump_text [OF this] show ?thesis unfolding run by simp
  next
    case False
    then obtain e where "?d = Inl e" using d by (cases ?d) auto
    with False dump_error [OF this] show ?thesis unfolding run by simp
  qed
qed

lemma serve_run:
  assumes "kernel (respond w)" "0 \<le> ret (incoming s w)"
  shows "serve s w = (if dumpable (bytes (incoming s w)) then
     io_bind (handleMessage s (peer (incoming s w)) (bytes (incoming s w)) (int (length (bytes (incoming s w)))))
       (\<lambda>_. io_return True) (after_receive s w)
   else Inl OutOfBounds)"
  using handle_received_run [OF kernel_recvfrom [OF assms]]
  by (simp add: serve_def io_simps incoming_def after_receive_def)

lemma serve_stops: "ret (incoming s w) < 0 \<Longrightarrow>
    \<exists>ts. serve s w = Inr (False, logged ts (run_calls [RecvFrom s OBDII_DAEMON_REQUEST_MAX_SIZE] w))"
  by (auto simp add: serve_def handle_received_def io_simps incoming_def)

text \<open>Calls that neither touch a CAN socket nor send a datagram.\<close>

fun quiet :: "call \<Rightarrow> bool" where
  "quiet SocketIsotp \<longleftrightarrow> False"
| "quiet (Close fd) \<longleftrightarrow> False"
| "quiet (SendTo s p b) \<longleftrightarrow> False"
| "quiet _ \<longleftrightarrow> True"

lemma served_calls:
  assumes "\<forall>c \<in> set cs. quiet c" "served m w xs"
  shows "served m (run_calls cs w) xs"
proof -
  have "transcript req (history (run_calls cs w)) = transcript req (history w)" for req
    using assms(1)
  proof (induction cs arbitrary: w)
    case (Cons c cs)
    then show ?case by (cases c) (simp_all add: run_calls.simps transcript_append)
  qed simp
  moreover have quiet: "\<forall>c \<in> set cs. c \<noteq> SocketIsotp \<and> (\<nexists>fd. c = Close fd)" using assms(1) by force
  moreover from represents_calls [OF quiet] have "represents m w t \<Longrightarrow> represents m (run_calls cs w) t" for t .
  ultimately show ?thesis using assms(2) by (auto simp: served_def)
qed

lemma is_request: "take 16 req = request_bytes ty k \<Longrightarrow> req = request_bytes ty k @ drop 16 req"
  by (metis append_take_drop_id)

lemma served_round:
  assumes "served m w xs" "int m < 2 ^ 31 - 1" "kernel (respond w)" "0 \<le> ret (incoming s w)"
    "dumpable (bytes (incoming s w))"
  shows "\<exists>w' ys. serve s w = Inr (True, w') \<and> served (Suc m) w' (xs @ ys) \<and> respond w' = respond w"
proof -
  let ?r = "incoming s w" and ?w = "after_receive s w"
  let ?b = "bytes ?r"
  have w: "served m ?w xs" using served_calls [OF _ assms(1), of "[_]"] by (simp add: after_receive_def)
  obtain t tr where ttr: "perform_all perform_request xs Map.empty = (t, tr)" by fastforce
  have t: "represents m ?w t" "list_all2 records (transcript [] (history ?w)) tr"
    using w by (simp_all add: served_def ttr)
  have last: "last_received [] (history ?w) = ?b"
  proof -
    have "last_received req (hist @ [(RecvFrom s n, r)]) = bytes r" for req hist n r
      by (induction req hist rule: last_received.induct) (auto split: call.split)
    then show ?thesis by (simp add: after_receive_def run_calls.simps incoming_def)
  qed
  have r: "respond ?w = respond w" by (simp add: after_receive_def)
  show ?thesis
  proof (cases "\<exists>ty k rest. ?b = request_bytes ty k @ rest")
    case True
    then obtain ty k rest where b: "?b = request_bytes ty k @ rest" by blast
    then have len: "int (length ?b) = int (16 + length rest)" by simp
    let ?x = "(ty, k, new_socket k ?w)"
    obtain t' code fd where p: "perform_request ?x t = (t', code, fd)" by (metis prod_cases3)
    from message_transcript [OF t(1) assms(2), of s "peer ?r" ty k rest "[]"] obtain w' where
      w': "handleMessage s (peer ?r) ?b (int (length ?b)) ?w = Inr ((), w')" "represents (Suc m) w' t'"
        "respond w' = respond ?w" "transcript [] (history w') = transcript [] (history ?w) @ [(?b, bytes16 (response_code code))]"
      unfolding len p last by (auto simp: b)
    have "serve s w = Inr (True, w')"
      using assms(5) w'(1) by (simp add: serve_run [OF assms(3,4)] io_bind_def io_return_def)
    moreover have "perform_all perform_request (xs @ [?x]) Map.empty = (t', tr @ [(?x, code, fd)])"
      by (simp add: perform_all_append ttr p)
    moreover have "records (?b, bytes16 (response_code code)) (?x, code, fd)" by (simp add: b)
    ultimately have "served (Suc m) w' (xs @ [?x])"
      using assms(1) t(2) w' by (simp add: served_def list_all2_appendI)
    with \<open>serve s w = Inr (True, w')\<close> w'(3) r show ?thesis by auto
  next
    case False
    then obtain line where "handleMessage s (peer ?r) ?b (int (length ?b)) ?w = Inr ((), logged [line] ?w)"
      using message_skipped by blast
    then have "serve s w = Inr (True, logged [line] ?w)"
      using assms(5) by (simp add: serve_run [OF assms(3,4)] io_bind_def io_return_def)
    moreover have "served (Suc m) (logged [line] ?w) (xs @ [])"
      using w represents_mono [of m ?w t "Suc m"] by (auto simp: served_def ttr)
    ultimately show ?thesis using r by (metis logged_frame(3))
  qed
qed

section \<open>The main loop\<close>

definition tame :: "(history \<Rightarrow> call \<Rightarrow> reply) \<Rightarrow> bool" where
  "tame answer \<longleftrightarrow> (\<forall>hist s. dumpable (bytes (answer hist (RecvFrom s OBDII_DAEMON_REQUEST_MAX_SIZE))))"

text \<open>A process that has just started.\<close>

definition booted :: "daemon \<Rightarrow> bool" where
  "booted w \<longleftrightarrow> blocks (w_heap w) = (\<lambda>_. None) \<and> obdiiSockets (globals w) = None \<and> LogFile (globals w) = None \<and> history w = []"

lemma booted_served: "booted w \<Longrightarrow> served 0 w []"
  by (simp add: booted_def served_def represents_def holds_def entries_def)

lemma serve_rounds_run:
  assumes "served m w xs" "int (m + n) < 2 ^ 31" "kernel (respond w)" "tame (respond w)"
  shows "\<exists>b w' ys. serve_rounds n s w = Inr (b, w') \<and> served (m + n) w' (xs @ ys)"
  using assms
proof (induction n arbitrary: m w xs)
  case 0
  then show ?case by (auto simp: io_return_def intro: exI [of _ "[]"])
next
  case (Suc n)
  show ?case
  proof (cases "ret (incoming s w) < 0")
    case True
    let ?w = "run_calls [RecvFrom s OBDII_DAEMON_REQUEST_MAX_SIZE] w"
    have "served m ?w xs" using Suc.prems(1) by (intro served_calls) simp_all
    then have "served (m + Suc n) (logged ts ?w) (xs @ [])" for ts
      using represents_mono [of m ?w _ "m + Suc n"] by (auto simp: served_def)
    moreover obtain ts where "serve_rounds (Suc n) s w = Inr (False, logged ts ?w)"
      using serve_stops [OF True] by (auto simp add: io_bind_def io_return_def)
    ultimately show ?thesis by blast
  next
    case False
    have "dumpable (bytes (incoming s w))" using Suc.prems(4) by (simp add: tame_def incoming_def)
    moreover have "int m < 2 ^ 31 - 1" "0 \<le> ret (incoming s w)" using Suc.prems(2) False by simp_all
    ultimately obtain w' ys where
      w': "serve s w = Inr (True, w')" "served (Suc m) w' (xs @ ys)" "respond w' = respond w"
      using served_round [OF Suc.prems(1) _ Suc.prems(3)] by blast
    from Suc.IH [OF w'(2)] Suc.prems w'(3) obtain b w'' zs where
      "serve_rounds n s w' = Inr (b, w'')" "served (Suc m + n) w'' ((xs @ ys) @ zs)" by fastforce
    with w'(1) show ?thesis by (auto simp: io_bind_def)
  qed
qed

lemma served_globals: "obdiiSockets g = obdiiSockets (globals w) \<Longrightarrow> served m (w\<lparr>globals := g\<rparr>) xs \<longleftrightarrow> served m w xs"
  by (simp add: served_def represents_def holds_def)

lemma start_run: "\<exists>s cs ts. start w = Inr (s, logged ts (run_calls cs w)) \<and> (\<forall>c \<in> set cs. quiet c)"
  by (auto simp: start_def io_simps) (rule exI, rule conjI, rule exI, rule refl, simp)+

lemma main_run:
  assumes "kernel (respond w)" "tame (respond w)" "booted w" "n < 2 ^ 31"
  shows "\<exists>b w' xs. main n w = Inr (b, w') \<and> served n w' xs"
proof -
  let ?v = "run_calls [Fopen LogPath] w"
  obtain g where g: "main n w = run_daemon n (?v\<lparr>globals := g\<rparr>)" "obdiiSockets g = obdiiSockets (globals ?v)"
    by (auto simp: main_def open_log_def io_simps io_bind_def [of get_globals] get_globals_def
        io_bind_def [of "set_globals _"] set_globals_def)
  let ?w = "?v\<lparr>globals := g\<rparr>"
  have "served 0 ?v []" using booted_served [OF assms(3)] by (intro served_calls) simp_all
  then have "served 0 ?w []" using served_globals [OF g(2)] by simp
  moreover obtain s cs ts where s: "start ?w = Inr (s, logged ts (run_calls cs ?w))" "\<forall>c \<in> set cs. quiet c"
    using start_run by blast
  ultimately have w: "served 0 (logged ts (run_calls cs ?w)) []" using served_calls by simp
  show ?thesis
  proof (cases s)
    case None
    have "served n (logged ts (run_calls cs ?w)) []" using w represents_mono [of 0 _ _ n] by (auto simp: served_def)
    with s None show ?thesis unfolding g by (fastforce simp: run_daemon_def io_bind_def io_return_def)
  next
    case (Some fd)
    from serve_rounds_run [OF w, of n fd] assms obtain b w' ys where
      "serve_rounds n fd (logged ts (run_calls cs ?w)) = Inr (b, w')" "served n w' ([] @ ys)" by auto
    with s Some show ?thesis unfolding g by (auto simp: run_daemon_def io_bind_def)
  qed
qed

end
