(* ===== verification/Daemon_Properties.thy ===== *)
theory Daemon_Properties
  imports Rounds
begin

text \<open>
  What the daemon guarantees: requests refine the table of descriptors, everything else is ignored, and
  after any number of rounds the table, the linked list and the descriptors of the process agree with
  the messages received and sent.
\<close>

section \<open>Reading the table\<close>

text \<open>What the search finds for the parameters of a connection: its descriptor and reference count.\<close>

definition table_of :: "daemon \<Rightarrow> table" where
  "table_of w k = (case k of (i, t, r) \<Rightarrow>
     (case find_from (w_heap w) i t r (obdiiSockets (globals w)) of
        Some (Inr (Some a)) \<Rightarrow> map_option (\<lambda>n. (conn_s n, refcount n)) (blocks (w_heap w) a)
      | _ \<Rightarrow> None))"

lemma found:
  assumes "holds w xs"
  shows "find_from (w_heap w) i t r (obdiiSockets (globals w)) = Some (Inr (address xs (i, t, r)))"
  using find_chain [OF chain_in_heap [OF assms]] assms by (simp add: holds_def)

lemma holds_table_of:
  assumes "holds w xs"
  shows "table_of w = entries xs"
proof
  fix k :: key
  obtain i t r where k: "k = (i, t, r)" by (cases k)
  show "table_of w k = entries xs k"
  proof (cases "address xs k")
    case None
    then have "entries xs k = None" by (simp add: address_entries)
    with found [OF assms, of i t r] None show ?thesis by (simp add: table_of_def k)
  next
    case (Some a)
    from address_split [OF assms Some] obtain ys s c zs where
      sp: "xs = ys @ (a, k, s, c) # zs" "entries xs k = Some (s, c)" by metis
    with found [OF assms, of i t r] Some mid_block [OF assms [unfolded sp(1)]] show ?thesis
      by (simp add: table_of_def k)
  qed
qed

lemma served_table_of: "served m w xs \<Longrightarrow> table_of w = fst (perform_all perform_request xs Map.empty)"
  by (auto simp: served_def represents_def holds_table_of)

section \<open>Counting messages\<close>

text \<open>An exchange of the transcript in which a request of this type for this key was granted.\<close>

definition succeeded :: "OBDIIDaemonRequestType \<Rightarrow> key \<Rightarrow> byte list \<times> byte list \<Rightarrow> bool" where
  "succeeded ty k x \<longleftrightarrow> (case x of (req, resp) \<Rightarrow>
     take 16 req = request_bytes ty k \<and> resp = bytes16 (response_code OBDIIDaemonResponseCodeSuccess))"

lemma request_bytes_inject: "request_bytes ty k = request_bytes ty' k' \<longleftrightarrow> ty = ty' \<and> k = k'"
proof
  assume eq: "request_bytes ty k = request_bytes ty' k'"
  obtain i t r i' t' r' where k: "k = (i, t, r)" "k' = (i', t', r')" by (metis prod_cases3)
  from eq request_header(2) [of ty k "[]"] request_header(2) [of ty' k' "[]"] have "ty = ty'" by simp
  moreover from eq request_parameters [of ty i t r "[]"] request_parameters [of ty' i' t' r' "[]"]
  have "k = k'" by (simp add: k)
  ultimately show "ty = ty' \<and> k = k'" by blast
qed simp

lemma response_bytes_inject: "bytes16 (response_code a) = bytes16 (response_code b) \<longleftrightarrow> a = b"
  by (cases a; cases b) (simp_all add: field16.inject)

lemma records_granted: "records x y \<Longrightarrow> succeeded ty k x = granted ty k y"
  by (cases "(x, y)" rule: records.cases)
    (auto simp: succeeded_def granted_def request_bytes_inject response_bytes_inject [where b = OBDIIDaemonResponseCodeSuccess, simplified])

lemma occurrences_records:
  "list_all2 records xs ys \<Longrightarrow> occurrences (succeeded ty k) xs = occurrences (granted ty k) ys"
  by (induction xs ys rule: list_all2_induct) (simp_all add: records_granted)

lemma served_counts:
  assumes "served m w xs"
  shows "reference_count_of (table_of w) k =
      occurrences (succeeded OBDIIDaemonRequestOpenSocket k) (transcript [] (history w)) -
      occurrences (succeeded OBDIIDaemonRequestCloseSocket k) (transcript [] (history w))"
proof -
  have "list_all2 records (transcript [] (history w)) (snd (perform_all perform_request xs Map.empty))"
    using assms by (auto simp: served_def)
  note occ = occurrences_records [OF this]
  have "counted Map.empty" "reference_count_of Map.empty k = 0"
    by (simp_all add: counted_def reference_count_of_def)
  with sockets.balance [of Map.empty xs k] occ served_table_of [OF assms] show ?thesis by simp
qed

lemma served_nonneg: "served m w xs \<Longrightarrow> 0 \<le> reference_count_of (table_of w) k"
  using sockets.natural [OF sockets.keeps_all [of Map.empty xs]] by (simp add: served_table_of counted_def)

section \<open>The linked list\<close>

text \<open>Pointers of a doubly linked list with the given head agree, and every node is in use.\<close>

definition linked :: "(addr \<Rightarrow> OBDIISocketConnection option) \<Rightarrow> addr option \<Rightarrow> bool" where
  "linked nodes head \<longleftrightarrow> (\<forall>a n. nodes a = Some n \<longrightarrow> 1 \<le> refcount n \<and>
     (case prev_conn n of None \<Rightarrow> head = Some a | Some p \<Rightarrow> (\<exists>m. nodes p = Some m \<and> next_conn m = Some a)) \<and>
     (case next_conn n of None \<Rightarrow> True | Some q \<Rightarrow> (\<exists>m. nodes q = Some m \<and> prev_conn m = Some a)))"

lemma holds_linked:
  assumes "holds w xs"
  shows "linked (blocks (w_heap w)) (obdiiSockets (globals w))"
  unfolding linked_def
proof (intro allI impI)
  fix a n assume n: "blocks (w_heap w) a = Some n"
  have "(a, n) \<in> set (chain None xs None)" using n assms by (auto simp: holds_def dest: map_of_SomeD)
  then have "a \<in> fst ` set xs" by (metis dom_chain fst_conv image_eqI)
  then obtain x where "(a, x) \<in> set xs" by auto
  then obtain ys zs where xs: "xs = ys @ (a, x) # zs" by (auto dest: split_list)
  have n: "n = node x (final None ys) (first zs None)" using n mid_block [OF assms [unfolded xs]] by simp
  have "1 \<le> snd (snd x)" using assms unfolding xs holds_def by (cases x) simp
  moreover have "case final None ys of None \<Rightarrow> obdiiSockets (globals w) = Some a
    | Some p \<Rightarrow> (\<exists>m. blocks (w_heap w) p = Some m \<and> next_conn m = Some a)"
  proof (cases ys rule: rev_cases)
    case Nil
    then show ?thesis using assms by (simp add: holds_def xs)
  next
    case (snoc ys' y)
    have "holds w (ys' @ (fst y, snd y) # (a, x) # zs)" using assms by (simp add: xs snoc)
    from mid_block [OF this] show ?thesis by (simp add: snoc)
  qed
  moreover have "case first zs None of None \<Rightarrow> True
    | Some q \<Rightarrow> (\<exists>m. blocks (w_heap w) q = Some m \<and> prev_conn m = Some a)"
  proof (cases zs)
    case (Cons z zs')
    have "holds w ((ys @ [(a, x)]) @ (fst z, snd z) # zs')" using assms by (simp add: xs Cons)
    from mid_block [OF this] show ?thesis by (simp add: Cons)
  qed simp
  ultimately show "1 \<le> refcount n \<and>
     (case prev_conn n of None \<Rightarrow> obdiiSockets (globals w) = Some a | Some p \<Rightarrow> (\<exists>m. blocks (w_heap w) p = Some m \<and> next_conn m = Some a)) \<and>
     (case next_conn n of None \<Rightarrow> True | Some q \<Rightarrow> (\<exists>m. blocks (w_heap w) q = Some m \<and> prev_conn m = Some a))"
    by (simp add: n)
qed

section \<open>The descriptors\<close>

text \<open>The descriptors of a table, one for each of its keys.\<close>

definition descriptors :: "table \<Rightarrow> int multiset" where
  "descriptors t = image_mset (\<lambda>k. fst (the (t k))) (mset_set (dom t))"

lemma descriptors_entries:
  assumes "distinct (map (fst \<circ> snd) xs)"
  shows "descriptors (entries xs) = mset (map (\<lambda>(a, k, s, c). s) xs)"
proof -
  have "dom (entries xs) = set (map (fst \<circ> snd) xs)"
    by (simp add: entries_def dom_map_of_conv_image_fst image_image)
  then have "descriptors (entries xs) = image_mset (\<lambda>k. fst (the (entries xs k))) (mset (map (fst \<circ> snd) xs))"
    using mset_set_set [OF assms] by (simp add: descriptors_def)
  also have "\<dots> = mset (map (\<lambda>x. fst (the (entries xs (fst (snd x))))) xs)" by (simp add: multiset.map_comp comp_def)
  also have "map (\<lambda>x. fst (the (entries xs (fst (snd x))))) xs = map (\<lambda>(a, k, s, c). s) xs"
  proof (rule map_cong [OF refl])
    fix x assume "x \<in> set xs"
    then have "entries xs (fst (snd x)) = Some (snd (snd x))"
      using assms by (force simp: entries_def comp_def intro: map_of_is_SomeI)
    then show "fst (the (entries xs (fst (snd x)))) = (\<lambda>(a, k, s, c). s) x" by (simp add: case_prod_beta)
  qed
  finally show ?thesis .
qed

lemma represents_descriptors:
  assumes "represents m w t"
  shows "opened_fds (history w) = closed_fds (history w) + descriptors (table_of w)"
proof -
  from assms obtain xs where xs: "holds w xs"
    "opened_fds (history w) = closed_fds (history w) + mset (map (\<lambda>(a, k, s, c). s) xs)"
    unfolding represents_def by blast
  then have "distinct (map (fst \<circ> snd) xs)" by (simp add: holds_def)
  with xs show ?thesis by (simp add: holds_table_of descriptors_entries)
qed

lemma represents_counted: "represents m w t \<Longrightarrow> counted t"
  by (auto simp: represents_def counted_def holds_def entries_def dest!: map_of_SomeD) fastforce

section \<open>A simulated kernel\<close>

text \<open>For examples: a kernel that delivers some datagrams one after the other and then fails to receive;
  every CAN socket gets the same descriptor.\<close>

definition delivery :: "byte list list \<Rightarrow> (call \<times> reply) list \<Rightarrow> call \<Rightarrow> reply" where
  "delivery reqs hist c = (case c of
     RecvFrom s n \<Rightarrow> (let i = length (filter (receives \<circ> fst) hist) in
       if i < length reqs then \<lparr>ret = int (length (take n (reqs ! i))), err = 0, bytes = take n (reqs ! i),
         passed_fd = None, peer = ''/tmp/obdii.7''\<rparr> else returns (- 1))
   | SocketUnix \<Rightarrow> returns 3 | SocketIsotp \<Rightarrow> returns 7 | _ \<Rightarrow> returns 0)"

definition fresh_globals :: daemon_globals where
  "fresh_globals = \<lparr>obdiiSockets = None, LogFile = None, timestr = (\<lambda>_. ''2016-07-01 12:00:00''), strerror = (\<lambda>_. ''Unknown error'')\<rparr>"

lemma fresh_globals_simps [simp]: "obdiiSockets fresh_globals = None" "LogFile fresh_globals = None"
  by (simp_all add: fresh_globals_def)

definition daemon_with :: "byte list list \<Rightarrow> daemon" where
  "daemon_with reqs = \<lparr>w_heap = empty_heap, globals = fresh_globals, history = [], respond = delivery reqs\<rparr>"

lemma daemon_with_simps [simp]:
  "respond (daemon_with reqs) = delivery reqs" "history (daemon_with reqs) = []" "w_heap (daemon_with reqs) = empty_heap"
  "globals (daemon_with reqs) = fresh_globals" "calls (daemon_with reqs) = []" "sent (daemon_with reqs) = []"
  by (simp_all add: daemon_with_def calls_def sent_def)

lemma daemon_with_booted: "booted (daemon_with reqs)" "represents 0 (daemon_with reqs) Map.empty"
  using booted_served [of "daemon_with reqs"] by (simp_all add: booted_def served_def)

lemma delivery_kernel: "kernel (delivery reqs)"
  by (auto simp: kernel_def delivery_def returns_def Let_def)

text \<open>An open request, another one for the same key, and a close request.\<close>

abbreviation engine_key :: key where "engine_key \<equiv> (3, 0x7E0, 0x7E8)"

abbreviation open_open_close :: "byte list list" where
  "open_open_close \<equiv> [request_bytes OBDIIDaemonRequestOpenSocket engine_key,
     request_bytes OBDIIDaemonRequestOpenSocket engine_key, request_bytes OBDIIDaemonRequestCloseSocket engine_key]"

lemma tame_delivery:
  assumes "\<forall>req \<in> set reqs. dumpable (take OBDII_DAEMON_REQUEST_MAX_SIZE req)"
  shows "tame (delivery reqs)"
  using assms by (simp add: tame_def delivery_def returns_def Let_def dumpable_def [of "[]"])

lemma open_open_close_tame: "tame (delivery open_open_close)"
  by (rule tame_delivery)
    (simp add: dumpable_def OBDII_DAEMON_REQUEST_MAX_SIZE_def request_bytes_def bytes16_def bytes32_def)

section \<open>Requests\<close>

text \<open>C4. The daemon refines a table of reference counted descriptors. A request finds its table entry
  or opens one, counts, answers and passes the descriptor exactly as \<open>perform_request\<close> says, whatever
  the kernel does: it reads no dangling pointer, the search ends, the list stays sound, and the bytes
  after the first sixteen of a message do not matter.\<close>

theorem message_refines:
  assumes "represents m w t" "int m < 2 ^ 31 - 1"
    and "perform_request (ty, k, new_socket k w) t = (t', answer)"
  shows "\<exists>w'. handleMessage s caddr (request_bytes ty k @ rest) (int (16 + length rest)) w = Inr ((), w') \<and>
    represents (Suc m) w' t' \<and> sent w' = sent w @ messages s caddr answer"
  using message_run [OF assms(1,2), of s caddr ty k rest] assms(3) by auto

theorem message_refines_witness:
  "\<exists>w'. handleMessage 3 ''/tmp/obdii.7'' (request_bytes OBDIIDaemonRequestOpenSocket engine_key @ []) (int (16 + length ([] :: byte list))) (daemon_with []) = Inr ((), w') \<and>
    represents (Suc 0) w' [engine_key \<mapsto> (7, 1)] \<and> sent w' = sent (daemon_with []) @
      messages 3 ''/tmp/obdii.7'' (OBDIIDaemonResponseCodeSuccess, Some 7)"
proof (rule message_refines)
  show "represents 0 (daemon_with []) Map.empty" by (rule daemon_with_booted)
  show "perform_request (OBDIIDaemonRequestOpenSocket, engine_key, new_socket engine_key (daemon_with [])) Map.empty =
      ([engine_key \<mapsto> (7, 1)], OBDIIDaemonResponseCodeSuccess, Some 7)"
    by (simp add: new_socket_def can_open_def new_fd_def delivery_def returns_def request_open_def)
qed simp

text \<open>C39. A message that is not a complete request changes nothing and is not answered: too short, of
  another version, or of an unknown type. A client that waits for the answer waits forever.\<close>

theorem message_ignored:
  assumes "\<nexists>ty k rest. req = request_bytes ty k @ rest"
  shows "\<exists>line. handleMessage s caddr req (int (length req)) w = Inr ((), logged [line] w)"
  using assms by (rule message_skipped)

theorem message_ignored_witness:
  "\<exists>line. handleMessage 3 ''/tmp/obdii.7'' [2, 0, 0, 0] (int (length [2, 0, 0, 0 :: byte])) (daemon_with []) =
    Inr ((), logged [line] (daemon_with []))"
proof (rule message_ignored)
  have "length [2, 0, 0, 0 :: byte] \<noteq> length (request_bytes ty k @ rest)" for ty k rest by simp
  then show "\<nexists>ty k rest. [2, 0, 0, 0] = request_bytes ty k @ rest" by metis
qed

text \<open>C27. The dump of a message for the log stays inside its buffer exactly when none of the last three
  bytes is \<open>0x80\<close> or more: \<open>sprintf\<close> gets such a byte as a negative number and prints eight digits.\<close>

theorem dump_fits:
  "defined (dump 0 req (replicate (2 * length req + 1) 0)) \<longleftrightarrow> (\<forall>c \<in> set (drop (length req - 3) req). c < 0x80)"
  by (rule dump_defined) simp

theorem dump_fits_witness:
  "defined (dump 0 (request_bytes OBDIIDaemonRequestOpenSocket engine_key)
    (replicate (2 * length (request_bytes OBDIIDaemonRequestOpenSocket engine_key) + 1) 0))"
  unfolding dump_fits by (simp add: request_bytes_def bytes16_def bytes32_def)

lemma extended_overflow:
  assumes "kernel (respond w)" "ret (incoming s w) = 16" "bytes (incoming s w) = request_bytes ty (i, t, r)" "bit r 31"
  shows "serve s w = Inl OutOfBounds"
proof -
  have "bit (ucast (drop_bit 24 r) :: byte) 7" using assms(4) by (simp add: bit_simps)
  then have "\<not> (ucast (drop_bit 24 r) :: byte) < 0x80"
    by (auto simp: bit_iff_odd div_word_less)
  then have "\<not> dumpable (request_bytes ty (i, t, r))"
    by (simp add: dumpable_def request_bytes_def bytes16_def bytes32_def)
  with assms show ?thesis by (simp add: serve_run)
qed

text \<open>So a client that asks for an extended receive identifier, which has bit 31 set, makes the
  daemon write past the end of an array on its stack before it handles the request.\<close>

theorem extended_identifier_overflows:
  assumes "kernel (respond w)" "ret (incoming s w) = 16" "bytes (incoming s w) = request_bytes ty (i, t, r)" "bit r 31"
  shows "serve s w = Inl OutOfBounds"
  using assms by (rule extended_overflow)

text \<open>The transmit identifier does not matter; the example is the broadcast identifier of 29-bit OBD-II.\<close>

theorem extended_identifier_overflows_witness:
  "serve 3 (daemon_with [request_bytes OBDIIDaemonRequestOpenSocket (3, 0x98DB33F1, 0x98DAF110)]) = Inl OutOfBounds"
proof (rule extended_identifier_overflows)
  let ?w = "daemon_with [request_bytes OBDIIDaemonRequestOpenSocket (3, 0x98DB33F1, 0x98DAF110)]"
  show "kernel (respond ?w)" by (simp add: delivery_kernel)
  show "ret (incoming 3 ?w) = 16"
    "bytes (incoming 3 ?w) = request_bytes OBDIIDaemonRequestOpenSocket (3, 0x98DB33F1, 0x98DAF110)"
    by (simp_all add: incoming_def delivery_def OBDII_DAEMON_REQUEST_MAX_SIZE_def)
  show "bit (0x98DAF110 :: u32) 31" by simp
qed

text \<open>The reference count is an \<open>int\<close> that nothing bounds: when it has reached its greatest value
  the next open request for the connection overflows it.\<close>

theorem reference_count_overflows:
  assumes "represents m w t" "t k = Some (fd, 2 ^ 31 - 1)"
  shows "handleMessage s caddr (request_bytes OBDIIDaemonRequestOpenSocket k @ rest) (int (16 + length rest)) w = Inl SignedOverflow"
proof -
  obtain i tt r where k: "k = (i, tt, r)" by (cases k)
  from assms(1) obtain xs where xs: "holds w xs" "t = entries xs" unfolding represents_def by blast
  then obtain a where a: "address xs k = Some a" using assms(2) address_entries [of xs k] by (cases "address xs k") auto
  from address_split [OF xs(1) a] obtain ys c fd' zs where
    sp: "xs = ys @ (a, k, fd', c) # zs" "entries xs k = Some (fd', c)" by metis
  have load: "load a (logged ts w) = Inr (node (k, fd', c) (final None ys) (first zs None), logged ts w)" for ts
    using mid_block [OF xs(1) [unfolded sp(1)]] by (simp add: load_def)
  then have "retain a (logged ts w) = Inl SignedOverflow" for ts
    using sp(2) assms(2) xs(2) by (simp add: retain_def io_bind_def io_lift_def int_inc_def)
  moreover have "socketConnectionMatchingParams i tt r w = Inr (Some a, w)" using search [OF xs(1)] a by (simp add: k)
  ultimately show ?thesis
    by (simp add: handleMessage_def io_simps request_header OBDII_DAEMON_REQUEST_HEADER_SIZE_def k handleSocketRequest_def
        request_parameters [simplified] Let_def bind_run [where m = "socketConnectionMatchingParams i tt r", OF search_logged]
        found_or_opened_def io_bind_def [of "retain a"] bind_run [where m = "load a", OF load])
qed

theorem reference_count_overflows_witness:
  "handleMessage 3 ''/tmp/obdii.7'' (request_bytes OBDIIDaemonRequestOpenSocket engine_key @ []) (int (16 + length ([] :: byte list)))
    (daemon_with []\<lparr>w_heap := \<lparr>blocks = [0 \<mapsto> node (engine_key, 7, 2 ^ 31 - 1) None None], next_addr = 1, grants = (\<lambda>_. True)\<rparr>,
       globals := fresh_globals\<lparr>obdiiSockets := Some 0\<rparr>, history := [(SocketIsotp, returns 7)]\<rparr>) = Inl SignedOverflow" (is "handleMessage _ _ _ _ ?w = _")
proof (rule reference_count_overflows)
  let ?xs = "[(0, engine_key, 7, 2 ^ 31 - 1)]"
  have "holds ?w ?xs" by (simp add: holds_def)
  moreover have "\<forall>(a, k, s, c) \<in> set ?xs. c \<le> int (2 ^ 31)" by simp
  moreover have "opened_fds (history ?w) = closed_fds (history ?w) + mset (map (\<lambda>(a, k, s, c). s) ?xs)"
    by (simp add: opened_fds_def closed_fds_def returns_def)
  ultimately show "represents (2 ^ 31) ?w (entries ?xs)" unfolding represents_def by blast
  show "entries ?xs engine_key = Some (7, 2 ^ 31 - 1)" by (simp add: entries_def)
qed

section \<open>The running daemon\<close>

text \<open>C8. On a kernel that respects the sizes of buffers, and for messages that have no byte of 0x80 or more
  among their last three (their dump then fits its buffer), any number of rounds below 2^31 from the start
  of the program: the daemon does nothing undefined, and there is a list of requests, performed one after the other on an empty table, whose result is the
  daemon's table and whose answers are the daemon's transcript, entry by entry.\<close>

theorem daemon_serves:
  assumes "kernel (respond w)" "tame (respond w)" "booted w" "n < 2 ^ 31"
  shows "\<exists>running w' xs t tr. main n w = Inr (running, w') \<and> length xs \<le> n \<and>
    perform_all perform_request xs Map.empty = (t, tr) \<and> table_of w' = t \<and> list_all2 records (transcript [] (history w')) tr"
proof -
  from main_run [OF assms] obtain b w' xs where *: "main n w = Inr (b, w')" "served n w' xs" by blast
  from *(2) obtain t tr where "perform_all perform_request xs Map.empty = (t, tr)" "length xs \<le> n"
    "list_all2 records (transcript [] (history w')) tr" by (auto simp: served_def)
  with * served_table_of [OF *(2)] show ?thesis by (intro exI [of _ b] exI [of _ w'] exI [of _ xs]) simp
qed

lemma main_served:
  assumes "kernel (respond w)" "tame (respond w)" "booted w" "n < 2 ^ 31" "main n w = Inr (running, w')"
  obtains xs where "served n w' xs"
  using main_run [OF assms(1-4)] assms(5) by auto

text \<open>C2. At every moment of such a run the reference count of a connection is the number of open requests for its
  parameters that were answered with success minus the number of close requests that were, and there
  were never more of the latter: a connection is closed exactly when its last user closed it.\<close>

theorem daemon_counts_references:
  assumes "kernel (respond w)" "tame (respond w)" "booted w" "n < 2 ^ 31" "main n w = Inr (running, w')"
  shows "reference_count_of (table_of w') k =
      occurrences (succeeded OBDIIDaemonRequestOpenSocket k) (transcript [] (history w')) -
      occurrences (succeeded OBDIIDaemonRequestCloseSocket k) (transcript [] (history w')) \<and>
    occurrences (succeeded OBDIIDaemonRequestCloseSocket k) (transcript [] (history w')) \<le>
      occurrences (succeeded OBDIIDaemonRequestOpenSocket k) (transcript [] (history w'))"
  using served_counts served_nonneg main_served [OF assms] by (metis diff_ge_0_iff_ge)

text \<open>C13. In such a run no descriptor leaks and none is closed twice: the CAN sockets opened are those closed together
  with one for each connection in the table.\<close>

theorem daemon_accounts_descriptors:
  assumes "kernel (respond w)" "tame (respond w)" "booted w" "n < 2 ^ 31" "main n w = Inr (running, w')"
  shows "opened_fds (history w') = closed_fds (history w') + descriptors (table_of w')"
proof -
  from main_served [OF assms] obtain xs where "served n w' xs" .
  then show ?thesis by (auto simp: served_def intro: represents_descriptors)
qed

text \<open>C14. After any rounds of such a run the search loop ends for every key, and the list it runs over is a sound doubly linked list
  from \<open>obdiiSockets\<close> in which every node has a positive reference count.\<close>

theorem daemon_search_ends:
  assumes "kernel (respond w)" "tame (respond w)" "booted w" "n < 2 ^ 31" "main n w = Inr (running, w')"
  shows "(\<exists>found. find_from (w_heap w') i t r (obdiiSockets (globals w')) = Some (Inr found) \<and>
      (case found of None \<Rightarrow> table_of w' (i, t, r) = None
       | Some a \<Rightarrow> (\<exists>node. blocks (w_heap w') a = Some node \<and> conn_ifindex node = i \<and> conn_tid node = t \<and>
           conn_rid node = r \<and> table_of w' (i, t, r) = Some (conn_s node, refcount node)))) \<and>
    linked (blocks (w_heap w')) (obdiiSockets (globals w'))"
proof -
  from main_served [OF assms] obtain xs where "served n w' xs" .
  then obtain ys where ys: "holds w' ys" by (auto simp: served_def represents_def)
  note find = found [OF ys, of i t r]
  have "case address ys (i, t, r) of None \<Rightarrow> table_of w' (i, t, r) = None
       | Some a \<Rightarrow> (\<exists>node. blocks (w_heap w') a = Some node \<and> conn_ifindex node = i \<and> conn_tid node = t \<and>
           conn_rid node = r \<and> table_of w' (i, t, r) = Some (conn_s node, refcount node))"
  proof (cases "address ys (i, t, r)")
    case None
    with find show ?thesis by (simp add: table_of_def)
  next
    case (Some a)
    from address_split [OF ys Some] obtain xs s c zs where sp: "ys = xs @ (a, (i, t, r), s, c) # zs" by metis
    from mid_block [OF ys [unfolded sp]] find Some show ?thesis by (simp add: table_of_def)
  qed
  with find holds_linked [OF ys] show ?thesis by blast
qed

text \<open>Three requests are served, then receiving fails.\<close>

lemma open_open_close_hyps:
  "kernel (respond (daemon_with open_open_close))" "tame (respond (daemon_with open_open_close))"
  "booted (daemon_with open_open_close)"
  by (simp_all only: daemon_with_simps delivery_kernel open_open_close_tame daemon_with_booted)

lemma open_open_close_runs: "\<exists>b w'. main 100 (daemon_with open_open_close) = Inr (b, w')"
  using main_run [OF open_open_close_hyps, of 100] by auto

theorem daemon_serves_witness:
  "\<exists>running w' xs t tr. main 100 (daemon_with open_open_close) = Inr (running, w') \<and> length xs \<le> 100 \<and>
    perform_all perform_request xs Map.empty = (t, tr) \<and> table_of w' = t \<and> list_all2 records (transcript [] (history w')) tr"
  by (rule daemon_serves [OF open_open_close_hyps]) simp

theorem daemon_counts_references_witness:
  "\<exists>b w'. main 100 (daemon_with open_open_close) = Inr (b, w') \<and> reference_count_of (table_of w') engine_key =
      occurrences (succeeded OBDIIDaemonRequestOpenSocket engine_key) (transcript [] (history w')) -
      occurrences (succeeded OBDIIDaemonRequestCloseSocket engine_key) (transcript [] (history w'))"
proof -
  obtain b w' where *: "main 100 (daemon_with open_open_close) = Inr (b, w')" using open_open_close_runs by blast
  from daemon_counts_references [OF open_open_close_hyps _ *, of engine_key] * show ?thesis by simp
qed

theorem daemon_accounts_descriptors_witness:
  "\<exists>b w'. main 100 (daemon_with open_open_close) = Inr (b, w') \<and>
    opened_fds (history w') = closed_fds (history w') + descriptors (table_of w')"
proof -
  obtain b w' where *: "main 100 (daemon_with open_open_close) = Inr (b, w')" using open_open_close_runs by blast
  from daemon_accounts_descriptors [OF open_open_close_hyps _ *] * show ?thesis by simp
qed

theorem daemon_search_ends_witness:
  "\<exists>b w'. main 100 (daemon_with open_open_close) = Inr (b, w') \<and> linked (blocks (w_heap w')) (obdiiSockets (globals w'))"
proof -
  obtain b w' where *: "main 100 (daemon_with open_open_close) = Inr (b, w')" using open_open_close_runs by blast
  from daemon_search_ends [OF open_open_close_hyps _ *] * show ?thesis by simp
qed

end
