(* ===== verification/Log_Properties.thy ===== *)
theory Log_Properties
  imports Daemon_Properties
begin

text \<open>
  The daemon's log: what it says of the messages that came in.
\<close>

section \<open>What the log says\<close>

lemma grows_nodes [grows_intros]: "log_grows (load a)" "log_grows (assign a f)"
  "log_grows (socketConnectionMatchingParams i t r)"
  by (auto simp: log_grows_def load_def assign_def socketConnectionMatchingParams_def obind_eq_Inr
      split: option.splits intro!: exI [of _ "[]"] adds_none)

lemma grows_connections [grows_intros]:
  "log_grows (openSocketConnection i t r)" "log_grows (closeSocketConnection conn)" "log_grows (retain a)"
  "log_grows (sendResponseCode s caddr code)" "log_grows (sendFD s caddr fd)"
  unfolding openSocketConnection_def closeSocketConnection_def retain_def sendResponseCode_def sendFD_def
  by (intro grows_intros)+

lemma grows_message: "log_grows (handleMessage s caddr req n)"
  unfolding handleMessage_def handleSocketRequest_def found_or_opened_def pass_socket_def Let_def
  by (intro grows_intros)

text \<open>C30. Every message whose round ends is logged before it is handled: after the time comes the dump, in which every byte
  below \<open>0x80\<close> has its two digits, but every other byte is shown as \<open>ff\<close>. Later lines only follow.\<close>

theorem request_logged:
  assumes "kernel (respond w)" "0 \<le> ret (incoming s w)" "serve s w = Inr (running, w')" "LogFile (globals w) = Some lines"
  shows "\<exists>more. LogFile (globals w') = Some (lines @
    (timestr (globals w) (length lines) @ '' '' @ raw_text (concat (map shown (bytes (incoming s w))))) # more)"
proof -
  let ?r = "incoming s w" and ?v = "after_receive s w"
  have "adds_lines w [raw_text (concat (map shown (bytes ?r)))] ?v"
    using adds_lines_trans [OF adds_none adds_logged, of "run_calls [_] w" w] by (simp add: after_receive_def)
  moreover obtain u where "handleMessage s (peer ?r) (bytes ?r) (int (length (bytes ?r))) ?v = Inr (u, w')"
    using assms(3) by (auto simp: serve_run [OF assms(1,2)] io_bind_def io_return_def obind_eq_Inr split: if_splits)
  then obtain ts where "adds_lines ?v ts w'" using grows_message unfolding log_grows_def by blast
  ultimately show ?thesis using adds_lines_trans [of w _ ?v ts w'] assms(4) by (auto simp: adds_lines_def)
qed

text \<open>A daemon with a log that receives one open request.\<close>

definition logging_daemon :: daemon where
  "logging_daemon = (daemon_with [request_bytes OBDIIDaemonRequestOpenSocket engine_key])
     \<lparr>globals := fresh_globals\<lparr>LogFile := Some []\<rparr>\<rparr>"

theorem request_logged_witness:
  "\<exists>w' more. serve 3 logging_daemon = Inr (True, w') \<and> LogFile (globals w') =
     Some (''2016-07-01 12:00:00 Received raw request: 0100000003000000ff070000ff070000'' # more)"
proof -
  let ?d = "daemon_with [request_bytes OBDIIDaemonRequestOpenSocket engine_key]"
  have k: "kernel (respond logging_daemon)" by (simp add: logging_daemon_def delivery_kernel)
  have i: "incoming 3 logging_daemon = \<lparr>ret = 16, err = 0, bytes = request_bytes OBDIIDaemonRequestOpenSocket engine_key,
      passed_fd = None, peer = ''/tmp/obdii.7''\<rparr>"
    by (simp add: incoming_def logging_daemon_def delivery_def OBDII_DAEMON_REQUEST_MAX_SIZE_def)
  have "served 0 logging_daemon []"
    using served_globals [of "fresh_globals\<lparr>LogFile := Some []\<rparr>" ?d 0 "[]"] booted_served [OF daemon_with_booted(1)]
    by (simp add: logging_daemon_def)
  moreover have "dumpable (bytes (incoming 3 logging_daemon))"
    by (simp add: i dumpable_def request_bytes_def bytes16_def bytes32_def)
  ultimately obtain w' where w': "serve 3 logging_daemon = Inr (True, w')"
    using served_round [of 0 logging_daemon "[]" 3, OF _ _ k] i by auto
  from request_logged [OF k _ w', of "[]"] i obtain more where
    "LogFile (globals w') = Some ((timestr fresh_globals 0 @ '' '' @ raw_text (concat (map shown (request_bytes OBDIIDaemonRequestOpenSocket engine_key)))) # more)"
    by (auto simp: logging_daemon_def)
  moreover have "concat (map shown (request_bytes OBDIIDaemonRequestOpenSocket engine_key)) = ''0100000003000000ff070000ff070000''"
    by (simp add: request_bytes_def bytes16_def bytes32_def shown_def format_02x_def hex_digits.simps)
  ultimately show ?thesis using w' by (simp add: raw_text_def fresh_globals_def)
qed

end
