(* ===== verification/Client.thy ===== *)
theory Client
  imports Query Formats
begin

text \<open>
  The client side of the daemon protocol, \<open>src/OBDIICommunication.c\<close>: connecting to the daemon, the
  requests that open and close a shared socket, and opening and closing a private one. The global of the
  client library is \<open>daemonSocket\<close>.
\<close>

section \<open>The functions\<close>

definition self_path :: "int \<Rightarrow> string" where
  "self_path pid = ''/tmp/obdii.'' @ decimal pid"

definition setupDaemonCommunication :: "int io" where
  "setupDaemonCommunication =
    (let fail = io_bind (set_daemonSocket (- 1)) (\<lambda>_. io_return (- 1)) in
     io_bind get_daemonSocket (\<lambda>daemonSocket.
     if daemonSocket \<noteq> - 1 then io_return 0
     else io_bind (syscall SocketUnix) (\<lambda>s. io_bind (set_daemonSocket (ret s)) (\<lambda>_.
       if ret s < 0 then fail
       else io_bind (syscall Getpid) (\<lambda>pid.
            io_bind (syscall (Unlink (self_path (ret pid)))) (\<lambda>u.
            if ret u < 0 \<and> err u \<noteq> ENOENT then fail
            else io_bind (syscall (BindUnix (ret s) (self_path (ret pid)))) (\<lambda>b.
            if ret b < 0 then fail
            else io_bind (syscall (Connect (ret s) OBDII_DAEMON_SOCKET_PATH)) (\<lambda>c.
            if ret c < 0 then fail else io_return 0))))))))"

text \<open>The second argument and the second result are \<open>*fd\<close>. Without ancillary data \<open>CMSG_FIRSTHDR\<close> is a
  null pointer.\<close>

definition receiveFD :: "int \<Rightarrow> int \<Rightarrow> (int \<times> int) io" where
  "receiveFD s fd = (if s = 0 then io_return (0, fd)
     else io_bind (syscall (RecvMsg s)) (\<lambda>r.
       if ret r < 0 then io_return (- 1, fd)
       else io_bind (io_lift (case passed_fd r of None \<Rightarrow> Inl NullDeref | Some fd \<Rightarrow> Inr fd)) (\<lambda>fd.
         io_return (0, fd))))"

text \<open>The sixteen bytes of \<open>request\<close> before they are written are some list of that length.\<close>

definition marshal :: "u16 \<Rightarrow> u16 \<Rightarrow> OBDIISocket \<Rightarrow> byte list outcome" where
  "marshal apiVersion requestType so =
     obind (pack (bytes16 apiVersion) (replicate 16 0, 0)) (\<lambda>p.
     obind (pack (bytes16 requestType) p) (\<lambda>p.
     obind (pack (bytes32 (ifindex so)) p) (\<lambda>p.
     obind (pack (bytes32 (tid so)) p) (\<lambda>p.
     obind (pack (bytes32 (rid so)) p) (\<lambda>p. Inr (fst p))))))"

definition requestRemoteSocket :: "OBDIISocket \<Rightarrow> bool \<Rightarrow> (int \<times> OBDIISocket) io" where
  "requestRemoteSocket obdiiSocket shouldOpen = (let fail = io_return (- 1, obdiiSocket) in
     io_bind setupDaemonCommunication (\<lambda>ready.
     if ready < 0 then fail
     else let requestType = (if shouldOpen then OBDIIDaemonRequestOpenSocket else OBDIIDaemonRequestCloseSocket) in
       io_bind (io_lift (marshal OBDII_API_VERSION (request_code requestType) obdiiSocket)) (\<lambda>request.
       io_bind get_daemonSocket (\<lambda>daemonSocket.
       io_bind (syscall (Send daemonSocket request)) (\<lambda>n.
       if ret n \<noteq> int (length request) then fail
       else io_bind (syscall (Recv daemonSocket 2)) (\<lambda>n.
       if ret n \<noteq> 2 then fail
       else io_bind (io_lift (asuint16 (bytes n) 0)) (\<lambda>responseCode.
       if responseCode \<noteq> response_code OBDIIDaemonResponseCodeSuccess then fail
       else if shouldOpen then io_bind (receiveFD daemonSocket (sock obdiiSocket)) (\<lambda>(r, fd).
         if r < 0 then io_return (- 1, obdiiSocket\<lparr>sock := fd\<rparr>) else io_return (0, obdiiSocket\<lparr>sock := fd\<rparr>))
       else io_return (0, obdiiSocket))))))))"

text \<open>The field \<open>shared\<close> is a \<open>short\<close>, the argument an \<open>int\<close>.\<close>

definition OBDIIOpenSocket :: "OBDIISocket option \<Rightarrow> string \<Rightarrow> u32 \<Rightarrow> u32 \<Rightarrow> int \<Rightarrow> (int \<times> OBDIISocket option) io" where
  "OBDIIOpenSocket obdiiSocket ifname tx_id rx_id share =
     io_bind (syscall (IfNameToIndex ifname)) (\<lambda>i.
     if word_of_int (ret i) = (0 :: u32) then io_return (- 1, obdiiSocket)
     else case obdiiSocket of None \<Rightarrow> io_lift (Inl NullDeref)
     | Some so \<Rightarrow>
       let so = so\<lparr>ifindex := word_of_int (ret i), tid := tx_id, rid := rx_id, shared := word_of_int share\<rparr> in
       if share \<noteq> 0 then io_bind (requestRemoteSocket so True) (\<lambda>(r, so). io_return (r, Some so))
       else io_bind (syscall SocketIsotp) (\<lambda>s.
            let so = so\<lparr>sock := ret s\<rparr> in
            if ret s < 0 then io_return (- 1, Some so)
            else io_bind (syscall (BindCan (ret s) (ifindex so) tx_id rx_id)) (\<lambda>b.
            if ret b < 0 then io_bind (syscall (Close (ret s))) (\<lambda>_. io_return (- 1, Some so))
            else io_return (0, Some (so\<lparr>shared := 0\<rparr>)))))"

definition OBDIICloseSocket :: "OBDIISocket option \<Rightarrow> (int \<times> OBDIISocket option) io" where
  "OBDIICloseSocket s = (case s of None \<Rightarrow> io_return (0, None)
     | Some so \<Rightarrow> if shared so \<noteq> 0 then io_bind (requestRemoteSocket so False) (\<lambda>(r, so). io_return (r, Some so))
         else io_bind (syscall (Close (sock so))) (\<lambda>r. io_return (ret r, s)))"

section \<open>Marshalling\<close>

abbreviation socket_key :: "OBDIISocket \<Rightarrow> u32 \<times> u32 \<times> u32" where
  "socket_key so \<equiv> (ifindex so, tid so, rid so)"

text \<open>The five fields fill the buffer exactly.\<close>

lemma marshal_request: "marshal OBDII_API_VERSION (request_code ty) so = Inr (request_bytes ty (socket_key so))"
  by (simp add: marshal_def pack_def OBDII_API_VERSION_def request_bytes_def numeral_eq_Suc)

section \<open>Talking to the daemon\<close>

definition reply_after :: "call list \<Rightarrow> call \<Rightarrow> ('b, 'g) world_of \<Rightarrow> reply" where
  "reply_after cs c w = respond w (history (run_calls cs w)) c"

lemma setup_ready: "daemonSocket (globals w) \<noteq> - 1 \<Longrightarrow> setupDaemonCommunication w = Inr (0, w)"
  by (simp add: setupDaemonCommunication_def Let_def io_simps)

text \<open>The socket that \<open>setupDaemonCommunication\<close> opened is never closed, whether or not it succeeds.\<close>

lemma setup_closes_nothing: "makes (\<lambda>c. \<nexists>fd. c = Close fd) setupDaemonCommunication"
  unfolding setupDaemonCommunication_def Let_def by (intro makes_intros) simp_all

lemma setup_result:
  assumes "daemonSocket (globals w) = - 1"
  shows "\<exists>r w'. setupDaemonCommunication w = Inr (r, w') \<and> daemonSocket (globals w') = (if r = 0 then ret (reply_after [] SocketUnix w) else - 1) \<and>
    (r = 0 \<or> r = - 1) \<and> (r = 0 \<longrightarrow> 0 \<le> ret (reply_after [] SocketUnix w)) \<and> w_heap w' = w_heap w \<and> respond w' = respond w \<and>
    take 1 (drop (length (history w)) (history w')) = [(SocketUnix, reply_after [] SocketUnix w)]"
  using assms
  by (auto simp: setupDaemonCommunication_def Let_def io_simps reply_after_def run_calls.simps)

text \<open>A request once the connection is there: what is sent, and what the answers mean.\<close>

definition request_type :: "bool \<Rightarrow> OBDIIDaemonRequestType" where
  "request_type shouldOpen = (if shouldOpen then OBDIIDaemonRequestOpenSocket else OBDIIDaemonRequestCloseSocket)"

lemma success_response: "length b = 2 \<Longrightarrow> \<exists>v. asuint16 b 0 = Inr v \<and>
    (v = response_code OBDIIDaemonResponseCodeSuccess \<longleftrightarrow> b = bytes16 (response_code OBDIIDaemonResponseCodeSuccess))"
  using field16.reads [of 0 b] field16.read_iff [of 0 b] by auto

lemma kernel_recv: "kernel (respond w) \<Longrightarrow> ret (reply_after cs (Recv d n) w) = int k \<Longrightarrow> length (bytes (reply_after cs (Recv d n) w)) = k"
  unfolding kernel_def reply_after_def by (metis insertI1 insertI2 nat_int)

lemma request_run:
  fixes so shouldOpen w
  defines "req \<equiv> request_bytes (request_type shouldOpen) (socket_key so)"
  defines "d \<equiv> daemonSocket (globals w)"
  assumes "daemonSocket (globals w) \<noteq> - 1" "daemonSocket (globals w) \<noteq> 0" "kernel (respond w)"
  shows "requestRemoteSocket so shouldOpen w =
    (if ret (reply_after [] (Send d req) w) \<noteq> 16 then Inr ((- 1, so), run_calls [Send d req] w)
     else if ret (reply_after [Send d req] (Recv d 2) w) \<noteq> 2 \<or>
       bytes (reply_after [Send d req] (Recv d 2) w) \<noteq> bytes16 (response_code OBDIIDaemonResponseCodeSuccess)
     then Inr ((- 1, so), run_calls [Send d req, Recv d 2] w)
     else if \<not> shouldOpen then Inr ((0, so), run_calls [Send d req, Recv d 2] w)
     else if ret (reply_after [Send d req, Recv d 2] (RecvMsg d) w) < 0 then Inr ((- 1, so), run_calls [Send d req, Recv d 2, RecvMsg d] w)
     else case passed_fd (reply_after [Send d req, Recv d 2] (RecvMsg d) w) of None \<Rightarrow> Inl NullDeref
       | Some fd \<Rightarrow> Inr ((0, so\<lparr>sock := fd\<rparr>), run_calls [Send d req, Recv d 2, RecvMsg d] w))"
proof -
  have m: "marshal OBDII_API_VERSION (request_code (if shouldOpen then OBDIIDaemonRequestOpenSocket
      else OBDIIDaemonRequestCloseSocket)) so = Inr req"
    by (simp only: req_def request_type_def marshal_request)
  have l: "length req = 16" by (simp add: req_def)
  show ?thesis
  proof (cases "ret (reply_after [Send d req] (Recv d 2) w) = 2")
    case True
    then have "length (bytes (reply_after [Send d req] (Recv d 2) w)) = 2" using kernel_recv [OF assms(5), of _ d 2 2] by simp
    from success_response [OF this] True assms(3,4) show ?thesis
      by (auto simp: requestRemoteSocket_def Let_def io_simps m l receiveFD_def reply_after_def d_def
          bind_run [where m = setupDaemonCommunication, OF setup_ready] split: option.split)
  next
    case False
    with assms(3) show ?thesis
      by (auto simp: requestRemoteSocket_def Let_def io_simps m l reply_after_def d_def
          bind_run [where m = setupDaemonCommunication, OF setup_ready])
  qed
qed

end
