(* ===== verification/Session.thy ===== *)
theory Session
  imports Client Daemon_Properties
begin

text \<open>
  A client and the daemon together: what the documentation of datagram sockets says of a kernel that
  carries the client's requests to the daemon and the daemon's messages back. Opening and closing
  shared sockets through the daemon, and private ones without it, with the descriptors each side keeps.
\<close>

section \<open>The kernel between a client and the daemon\<close>

text \<open>The client's address, the daemon's server socket, the numbers of the network interfaces, the client's
  number for a descriptor that the daemon passes to it, and the daemon when the client's history
  begins. The daemon has a kernel of its own, about which nothing is said.\<close>

record link =
  own_path :: string
  server_socket :: int
  interface_number :: "string \<Rightarrow> nat"
  duplicate :: "history \<Rightarrow> int \<Rightarrow> int"
  daemon_before :: daemon

text \<open>The daemon after a message, and after all the messages a client's history has sent. A daemon that
  crashes does nothing any more.\<close>

definition datagram :: "string \<Rightarrow> byte list \<Rightarrow> reply" where
  "datagram caddr req = \<lparr>ret = int (length req), err = 0, bytes = req, passed_fd = None, peer = caddr\<rparr>"

definition handled :: "link \<Rightarrow> byte list \<Rightarrow> daemon \<Rightarrow> daemon" where
  "handled l req d = (case handle_received (server_socket l) (datagram (own_path l) req) d of Inl e \<Rightarrow> d | Inr (running, d') \<Rightarrow> d')"

fun daemon_after :: "link \<Rightarrow> history \<Rightarrow> daemon \<Rightarrow> daemon" where
  "daemon_after l [] d = d"
| "daemon_after l ((c, r) # hist) d =
     daemon_after l hist (case c of Send s req \<Rightarrow> if 0 \<le> ret r then handled l req d else d | _ \<Rightarrow> d)"

definition daemon_of :: "link \<Rightarrow> world \<Rightarrow> daemon" where
  "daemon_of l w = daemon_after l (history w) (daemon_before l)"

text \<open>The messages to an address that the daemon's own kernel has accepted, how many messages a client
  has taken, and those that wait for it.\<close>

definition reaches :: "string \<Rightarrow> call \<times> reply \<Rightarrow> bool" where
  "reaches p x \<longleftrightarrow> 0 \<le> ret (snd x) \<and> (case fst x of SendTo s q b \<Rightarrow> q = p | SendMsg s q fd \<Rightarrow> q = p | _ \<Rightarrow> False)"

definition delivered :: "string \<Rightarrow> daemon \<Rightarrow> call list" where
  "delivered p d = map fst (filter (reaches p) (history d))"

fun taken :: "history \<Rightarrow> nat" where
  "taken [] = 0"
| "taken ((c, r) # hist) = (case c of Recv s n \<Rightarrow> if 0 \<le> ret r then 1 else 0 | RecvMsg s \<Rightarrow> if 0 \<le> ret r then 1 else 0
     | _ \<Rightarrow> 0) + taken hist"

definition pending :: "link \<Rightarrow> history \<Rightarrow> call list" where
  "pending l hist = drop (length (delivered (own_path l) (daemon_before l)) + taken hist)
     (delivered (own_path l) (daemon_after l hist (daemon_before l)))"

text \<open>What a receiving call does with the first message that waits: \<open>recv\<close> gives its bytes, \<open>recvmsg\<close> the
  descriptor it carries. The message that passes a descriptor has no bytes, and the client gets a
  duplicate. Where none waits the call fails (it would block until a signal interrupts it).\<close>

definition recv_gives :: "nat \<Rightarrow> call list \<Rightarrow> reply \<Rightarrow> bool" where
  "recv_gives n waiting r = (case waiting of
     SendTo s p b # ms \<Rightarrow> bytes r = take n b \<and> ret r = int (length (take n b))
   | SendMsg s p fd # ms \<Rightarrow> ret r = 0
   | _ \<Rightarrow> ret r < 0)"

definition recvmsg_gives :: "(int \<Rightarrow> int) \<Rightarrow> call list \<Rightarrow> reply \<Rightarrow> bool" where
  "recvmsg_gives dup waiting r = (case waiting of
     SendTo s p b # ms \<Rightarrow> ret r = 0 \<and> passed_fd r = None
   | SendMsg s p fd # ms \<Rightarrow> ret r = 0 \<and> passed_fd r = Some (dup fd)
   | _ \<Rightarrow> ret r < 0)"

text \<open>The documented behaviour of datagram sockets of the Unix domain, which lose nothing and keep the order:
  a message is sent whole or not at all, and what the daemon's kernel accepted for the client comes out
  of the client's receiving calls. The other calls of the client, those that connect it to the daemon
  included, may succeed or fail in any way; only, its standard input is open, so that no socket is
  descriptor \<open>0\<close>, and its process number gives its address.\<close>

definition delivering :: "link \<Rightarrow> (history \<Rightarrow> call \<Rightarrow> reply) \<Rightarrow> bool" where
  "delivering l kern \<longleftrightarrow> kernel kern \<and> (\<forall>hist s n b name.
     ret (kern hist (IfNameToIndex name)) = int (interface_number l name) \<and>
     self_path (ret (kern hist Getpid)) = own_path l \<and>
     ret (kern hist SocketUnix) \<noteq> 0 \<and>
     (ret (kern hist (Send s b)) < 0 \<or> ret (kern hist (Send s b)) = int (length b)) \<and>
     recv_gives n (pending l hist) (kern hist (Recv s n)) \<and>
     recvmsg_gives (duplicate l hist) (pending l hist) (kern hist (RecvMsg s)))"

text \<open>A client between two calls of the library: it has taken all its messages. It may or may not be
  connected to the daemon yet.\<close>

definition attached :: "link \<Rightarrow> world \<Rightarrow> bool" where
  "attached l w \<longleftrightarrow> delivering l (respond w) \<and> daemonSocket (globals w) \<noteq> 0 \<and>
     length (delivered (own_path l) (daemon_of l w)) = length (delivered (own_path l) (daemon_before l)) + taken (history w)"

lemma daemon_after_append: "daemon_after l (hist @ hist') d = daemon_after l hist' (daemon_after l hist d)"
  by (induction hist arbitrary: d) auto

lemma taken_append: "taken (hist @ hist') = taken hist + taken hist'"
  by (induction hist) auto

lemma history_snoc: "history (run_calls (cs @ [c]) w) = history (run_calls cs w) @ [(c, reply_after cs c w)]"
proof -
  have "run_calls (cs @ [c]) w = run_calls [c] (run_calls cs w)" by simp
  also have "history \<dots> = history (run_calls cs w) @ [(c, reply_after cs c w)]"
    by (simp only: run_calls.simps reply_after_def run_calls_frame) simp
  finally show ?thesis .
qed

lemma fds_step:
  "closed_fds ((c, r) # hist) = (case c of Close fd \<Rightarrow> {#fd#} | _ \<Rightarrow> {#}) + closed_fds hist"
  "opened_fds ((c, r) # hist) = (case c of SocketIsotp \<Rightarrow> if 0 \<le> ret r then {#ret r#} else {#} | _ \<Rightarrow> {#}) + opened_fds hist"
  by (simp_all add: closed_fds_def opened_fds_def split: call.split)

lemmas history_calls = history_snoc [of "[]", simplified] history_snoc [of "[_]", simplified] history_snoc [of "[_, _]", simplified]
  history_snoc [of "[_, _, _]", simplified]

section \<open>Calls that do not concern the daemon\<close>

definition aside :: "call \<Rightarrow> bool" where
  "aside c = (case c of Send s b \<Rightarrow> False | Recv s n \<Rightarrow> False | RecvMsg s \<Rightarrow> False | Close fd \<Rightarrow> False | _ \<Rightarrow> True)"

text \<open>Nothing has changed between client and daemon.\<close>

definition unmoved :: "link \<Rightarrow> world \<Rightarrow> world \<Rightarrow> bool" where
  "unmoved l w w' \<longleftrightarrow> respond w' = respond w \<and> daemon_of l w' = daemon_of l w \<and> taken (history w') = taken (history w) \<and>
     closed_fds (history w') = closed_fds (history w)"

lemma unmoved_call: "aside c \<Longrightarrow> unmoved l w (run_calls [c] w)"
  by (auto simp: aside_def unmoved_def daemon_of_def history_calls daemon_after_append taken_append fds_step split: call.splits)

lemma unmoved_trans: "unmoved l w w' \<Longrightarrow> unmoved l w' w'' \<Longrightarrow> unmoved l w w''"
  by (simp add: unmoved_def)

lemma unmoved_calls: "\<forall>c \<in> set cs. aside c \<Longrightarrow> unmoved l w (run_calls cs w)"
proof (induction cs rule: rev_induct)
  case (snoc c cs)
  have "unmoved l (run_calls cs w) (run_calls [c] (run_calls cs w))" using snoc.prems by (intro unmoved_call) simp
  with snoc.IH snoc.prems unmoved_trans show ?case by fastforce
qed (simp add: unmoved_def)

lemma unmoved_attached: "unmoved l w w' \<Longrightarrow> attached l w \<Longrightarrow> daemonSocket (globals w') \<noteq> 0 \<Longrightarrow> attached l w'"
  by (simp add: unmoved_def attached_def)

lemma unmoved_globals: "unmoved l w (v\<lparr>globals := g\<rparr>) \<longleftrightarrow> unmoved l w v"
  by (simp add: unmoved_def daemon_of_def)

lemma run_calls_globals: "run_calls cs (w\<lparr>globals := g\<rparr>) = (run_calls cs w)\<lparr>globals := g\<rparr>"
proof (induction cs arbitrary: w)
  case (Cons c cs)
  have "w\<lparr>globals := g, history := hist\<rparr> = w\<lparr>history := hist, globals := g\<rparr>" for hist by (cases w) simp
  with Cons.IH show ?case by (simp only: run_calls.simps world_of.simps) simp
qed simp

text \<open>Connecting to the daemon changes nothing else, whatever fails.\<close>

definition settles :: "world \<Rightarrow> (int \<times> world) outcome \<Rightarrow> bool" where
  "settles w m \<longleftrightarrow> (\<exists>r cs g. m = Inr (r, (run_calls cs w)\<lparr>globals := g\<rparr>) \<and> (\<forall>c \<in> set cs. aside c) \<and>
     (r = - 1 \<and> daemonSocket g = - 1 \<or> r = 0 \<and> daemonSocket g \<noteq> - 1 \<and> daemonSocket g \<noteq> 0))"

lemma settlesI:
  assumes "\<forall>c \<in> set cs. aside c" "r = - 1 \<and> daemonSocket g = - 1 \<or> r = 0 \<and> daemonSocket g \<noteq> - 1 \<and> daemonSocket g \<noteq> 0"
  shows "settles w (Inr (r, (run_calls cs w)\<lparr>globals := g\<rparr>))"
  using assms unfolding settles_def by blast

lemma setup_settles:
  assumes "daemonSocket (globals w) = - 1" "ret (respond w (history w) SocketUnix) \<noteq> 0"
  shows "settles w (setupDaemonCommunication w)"
  using assms by (auto simp: setupDaemonCommunication_def Let_def io_simps run_calls_globals aside_def intro!: settlesI)

lemma setup_attached:
  assumes "attached l w"
  obtains r w' where "setupDaemonCommunication w = Inr (r, w')" "attached l w'" "unmoved l w w'"
    "r = - 1 \<and> daemonSocket (globals w') = - 1 \<or> r = 0 \<and> daemonSocket (globals w') \<noteq> - 1"
    "daemonSocket (globals w) \<noteq> - 1 \<longrightarrow> w' = w"
proof (cases "daemonSocket (globals w) = - 1")
  case False
  with setup_ready [OF False] assms that show ?thesis by (simp add: unmoved_def)
next
  case True
  have "ret (respond w (history w) SocketUnix) \<noteq> 0" using assms by (simp add: attached_def delivering_def)
  from setup_settles [OF True this] obtain r cs g where
    r: "setupDaemonCommunication w = Inr (r, (run_calls cs w)\<lparr>globals := g\<rparr>)" "\<forall>c \<in> set cs. aside c"
      "r = - 1 \<and> daemonSocket g = - 1 \<or> r = 0 \<and> daemonSocket g \<noteq> - 1 \<and> daemonSocket g \<noteq> 0" unfolding settles_def by blast
  let ?w = "(run_calls cs w)\<lparr>globals := g\<rparr>"
  have u: "unmoved l w ?w" using unmoved_calls [OF r(2)] by (simp add: unmoved_globals)
  moreover have "attached l ?w" using unmoved_attached [OF u assms] r(3) by auto
  ultimately show ?thesis using that [OF r(1)] r(3) True by auto
qed

section \<open>Requests through the daemon\<close>

text \<open>The requests whose dump stays inside its buffer: those without an extended receive identifier, and few
  others. The daemon survives only these.\<close>

definition loggable :: "key \<Rightarrow> bool" where
  "loggable k \<longleftrightarrow> dumpable (request_bytes OBDIIDaemonRequestOpenSocket k)"

lemma loggable: "loggable k \<Longrightarrow> dumpable (request_bytes ty k)"
  by (cases k) (simp add: loggable_def dumpable_def request_bytes_def bytes16_def bytes32_def)

text \<open>A later state of a process: every call it made since was answered by its kernel.\<close>

definition later :: "('b, 'g) world_of \<Rightarrow> ('b, 'g) world_of \<Rightarrow> bool" where
  "later w w' \<longleftrightarrow> respond w' = respond w \<and>
     (\<exists>hist. history w' = history w @ hist \<and> (\<forall>(c, r) \<in> set hist. \<exists>h. r = respond w h c))"

definition goes_on :: "('b, 'g, 'a) io_of \<Rightarrow> bool" where
  "goes_on m \<longleftrightarrow> (\<forall>w a w'. m w = Inr (a, w') \<longrightarrow> later w w')"

named_theorems goes_on_intros "composed programs lead to later states"

lemma later_refl: "respond w' = respond w \<Longrightarrow> history w' = history w \<Longrightarrow> later w w'"
  by (simp add: later_def)

lemma later_trans: "later w w1 \<Longrightarrow> later w1 w2 \<Longrightarrow> later w w2"
  by (fastforce simp: later_def)

lemma goes_on_bind [goes_on_intros]: "goes_on m \<Longrightarrow> (\<And>a. goes_on (f a)) \<Longrightarrow> goes_on (io_bind m f)"
  unfolding goes_on_def io_bind_def by (fastforce simp: obind_eq_Inr intro: later_trans)

lemma goes_on_basic [goes_on_intros]:
  "goes_on (io_return a)" "goes_on (io_lift r)" "goes_on (on_heap g)" "goes_on (Log text)" "goes_on (LogError text errno)"
  "goes_on get_obdiiSockets" "goes_on (set_obdiiSockets h)" "goes_on (load p)" "goes_on (assign p n)"
  "goes_on (socketConnectionMatchingParams i t r')"
  by (auto simp: goes_on_def io_return_def io_lift_def on_heap_def Log_run LogError_def io_bind_def get_globals_def
      get_obdiiSockets_def set_obdiiSockets_def load_def assign_def socketConnectionMatchingParams_def obind_eq_Inr
      split: option.splits intro!: later_refl)

lemma goes_on_syscall [goes_on_intros]: "goes_on (syscall c)"
  by (auto simp: goes_on_def syscall_def Let_def later_def)

lemma goes_on_cases [goes_on_intros]:
  "(b \<Longrightarrow> goes_on m) \<Longrightarrow> (\<not> b \<Longrightarrow> goes_on m') \<Longrightarrow> goes_on (if b then m else m')"
  "goes_on m \<Longrightarrow> (\<And>a. goes_on (f a)) \<Longrightarrow> goes_on (case found of None \<Rightarrow> m | Some a \<Rightarrow> f a)"
  "(\<And>a b. goes_on (g a b)) \<Longrightarrow> goes_on (case x of (a, b) \<Rightarrow> g a b)"
  by (auto split: option.split prod.split)

lemma handleMessage_goes_on: "goes_on (handleMessage s caddr req n)"
  unfolding handleMessage_def handleSocketRequest_def Let_def found_or_opened_def retain_def openSocketConnection_def
    closeSocketConnection_def sendResponseCode_def sendFD_def pass_socket_def
  by (intro goes_on_intros)

lemma handled_request:
  assumes "represents m d t" "int m < 2 ^ 31 - 1" "loggable k" "perform_request (ty, k, new_socket k d) t = (t', answer)"
  shows "represents (Suc m) (handled l (request_bytes ty k) d) t'"
    "sent (handled l (request_bytes ty k) d) = sent d @ messages (server_socket l) (own_path l) answer"
    "later d (handled l (request_bytes ty k) d)"
proof -
  let ?r = "datagram (own_path l) (request_bytes ty k)"
  let ?d = "logged [raw_text (concat (map shown (bytes ?r)))] d"
  have "represents m ?d t" using assms(1) by simp
  from message_run [OF this assms(2), of "server_socket l" "own_path l" ty k "[]"] assms(4) obtain d' where
    d': "handleMessage (server_socket l) (own_path l) (request_bytes ty k) 16 ?d = Inr ((), d')" "represents (Suc m) d' t'"
      "sent d' = sent d @ messages (server_socket l) (own_path l) answer" by auto
  moreover have "later d ?d" by (simp add: later_def)
  with handleMessage_goes_on d'(1) have "later d d'" unfolding goes_on_def using later_trans by blast
  moreover have "handle_received (server_socket l) ?r d = Inr (True, d')"
    using handle_received_run [of ?r "server_socket l" d] loggable [OF assms(3)] d'(1)
    by (simp add: datagram_def io_bind_def io_return_def)
  ultimately show "represents (Suc m) (handled l (request_bytes ty k) d) t'"
    "sent (handled l (request_bytes ty k) d) = sent d @ messages (server_socket l) (own_path l) answer"
    "later d (handled l (request_bytes ty k) d)" by (simp_all add: handled_def)
qed

lemma perform_request_answer:
  assumes "perform_request (ty, k, opened) t = (t', code, fd)"
  shows "(ty = OBDIIDaemonRequestOpenSocket \<and> code = OBDIIDaemonResponseCodeSuccess) = (fd \<noteq> None)"
  using assms by (cases ty) (auto simp: request_open_def request_close_def split: option.splits if_splits)

text \<open>Of the messages of an answer, the daemon's kernel delivers some.\<close>

lemma delivered_messages:
  assumes "history d' = history d @ hist" "sent d' = sent d @ messages s p (code, fd)"
  obtains ms where "delivered p d' = delivered p d @ ms" "ms \<in> {[], [SendTo s p (bytes16 (response_code code))]} \<or>
    (\<exists>f. fd = Some f \<and> ms \<in> {[SendMsg s p f], [SendTo s p (bytes16 (response_code code)), SendMsg s p f]})"
    "(\<forall>(c, r) \<in> set hist. is_message c \<longrightarrow> 0 \<le> ret r) \<longrightarrow> ms = messages s p (code, fd)"
proof -
  let ?h = "filter (is_message \<circ> fst) hist" and ?T = "SendTo s p (bytes16 (response_code code))"
  have "filter (reaches p) hist = filter (reaches p) ?h"
    unfolding filter_filter by (rule filter_cong) (auto simp: reaches_def comp_def split: call.splits)
  then have m: "delivered p d' = delivered p d @ map fst (filter (reaches p) ?h)"
    by (simp add: delivered_def assms(1))
  have h: "map fst ?h = messages s p (code, fd)"
    using assms by (simp add: sent_def calls_def filter_map)
  show ?thesis
  proof (cases fd)
    case None
    with h obtain r where "?h = [(?T, r)]" by (auto simp: messages_def map_eq_Cons_conv)
    moreover from this have "(?T, r) \<in> set ?h" by simp
    then have "(?T, r) \<in> set hist" by simp
    then have "(\<forall>(c, r) \<in> set hist. is_message c \<longrightarrow> 0 \<le> ret r) \<Longrightarrow> 0 \<le> ret r" by fastforce
    ultimately show ?thesis using that [OF m] None by (cases "0 \<le> ret r") (auto simp: reaches_def messages_def)
  next
    case (Some f)
    with h obtain r r' where h': "?h = [(?T, r), (SendMsg s p f, r')]" by (auto simp: messages_def map_eq_Cons_conv)
    moreover from this have "(?T, r) \<in> set ?h" "(SendMsg s p f, r') \<in> set ?h" by simp_all
    then have "(?T, r) \<in> set hist" "(SendMsg s p f, r') \<in> set hist" by simp_all
    then have "(\<forall>(c, r) \<in> set hist. is_message c \<longrightarrow> 0 \<le> ret r) \<Longrightarrow> 0 \<le> ret r \<and> 0 \<le> ret r'" by fastforce
    ultimately show ?thesis using that [OF m] Some
      by (cases "0 \<le> ret r"; cases "0 \<le> ret r'") (auto simp: reaches_def messages_def)
  qed
qed

text \<open>What a request comes to. Either it is not sent, because the client could not connect to the daemon or
  the sending failed; or the daemon performs it. It succeeds for the client exactly when it is granted
  and the whole answer is delivered.\<close>

definition unsent :: "world \<Rightarrow> bool" where
  "unsent w \<longleftrightarrow> daemonSocket (globals w) = - 1 \<or>
     (\<exists>hist s b. history w = hist @ [(Send s b, respond w hist (Send s b))] \<and> ret (respond w hist (Send s b)) < 0)"

definition requested :: "link \<Rightarrow> request \<Rightarrow> nat \<Rightarrow> table \<Rightarrow> int \<Rightarrow> world \<Rightarrow> world \<Rightarrow> bool" where
  "requested l req m t r w w' \<longleftrightarrow> attached l w' \<and> respond w' = respond w \<and> (r = 0 \<or> r = - 1) \<and>
     closed_fds (history w') = closed_fds (history w) \<and>
     (daemonSocket (globals w) \<noteq> - 1 \<longrightarrow> daemonSocket (globals w') \<noteq> - 1) \<and>
     (unsent w' \<and> daemon_of l w' = daemon_of l w \<and> r = - 1 \<or>
      (case perform_request req t of (t', answer) \<Rightarrow> represents (Suc m) (daemon_of l w') t' \<and>
        sent (daemon_of l w') = sent (daemon_of l w) @ messages (server_socket l) (own_path l) answer \<and>
        later (daemon_of l w) (daemon_of l w') \<and>
        (r = 0 \<longleftrightarrow> fst answer = OBDIIDaemonResponseCodeSuccess \<and> delivered (own_path l) (daemon_of l w') =
           delivered (own_path l) (daemon_of l w) @ messages (server_socket l) (own_path l) answer)))"

lemma request_connected:
  fixes so shouldOpen
  defines "k \<equiv> socket_key so" and "ty \<equiv> request_type shouldOpen"
  assumes "attached l w" "daemonSocket (globals w) \<noteq> - 1" "represents m (daemon_of l w) t" "int m < 2 ^ 31 - 1"
    and "perform_request (ty, k, new_socket k (daemon_of l w)) t = (t', code, fd)" "loggable k"
  shows "\<exists>r so' w'. requestRemoteSocket so shouldOpen w = Inr ((r, so'), w') \<and>
    requested l (ty, k, new_socket k (daemon_of l w)) m t r w w' \<and>
    (r = 0 \<and> shouldOpen \<longrightarrow> (\<exists>f hist x. fd = Some f \<and> history w' = hist @ [x] \<and> so' = so\<lparr>sock := duplicate l hist f\<rparr>)) \<and>
    (r \<noteq> 0 \<or> \<not> shouldOpen \<longrightarrow> so' = so)"
proof -
  let ?req = "request_bytes ty k" and ?s = "daemonSocket (globals w)" and ?p = "own_path l"
  let ?d = "daemon_of l w" and ?T = "SendTo (server_socket l) (own_path l) (bytes16 (response_code code))"
  let ?S = "Send ?s ?req" and ?R = "Recv ?s 2" and ?M = "RecvMsg ?s"
  have r: "delivering l (respond w)" "kernel (respond w)" "?s \<noteq> 0"
    and n: "length (delivered ?p ?d) = length (delivered ?p (daemon_before l)) + taken (history w)"
    using assms(3) by (auto simp: attached_def delivering_def)
  note del = r(1) [unfolded delivering_def, THEN conjunct2, rule_format]
  have reply: "reply_after cs c w = respond w (history (run_calls cs w)) c" for cs c by (simp add: reply_after_def)
  note run = request_run [OF assms(4) r(3,2), of so shouldOpen, folded k_def ty_def]
  show ?thesis
  proof (cases "ret (reply_after [] ?S w) = 16")
    case False
    then have f: "ret (reply_after [] ?S w) < 0" using del [where hist = "history w" and s = ?s and b = ?req] by (auto simp: reply)
    have "requested l (ty, k, new_socket k ?d) m t (- 1) w (run_calls [?S] w)"
      using f r n assms(4)
      by (simp add: requested_def attached_def unsent_def daemon_of_def history_calls daemon_after_append taken_append fds_step reply)
    with run False show ?thesis by auto
  next
    case True
    note h = handled_request [OF assms(5-6,8,7), of l]
    obtain hist where hist: "history (handled l ?req ?d) = history ?d @ hist" using h(3) unfolding later_def by blast
    obtain ms where ms: "delivered ?p (handled l ?req ?d) = delivered ?p ?d @ ms" "ms \<in> {[], [?T]} \<or>
        (\<exists>f. fd = Some f \<and> ms \<in> {[SendMsg (server_socket l) ?p f], [?T, SendMsg (server_socket l) ?p f]})"
      using delivered_messages [OF hist h(2)] by metis
    have after: "daemon_of l (run_calls (?S # cs) w) = handled l ?req ?d" if "cs \<in> {[], [?R], [?R, ?M]}" for cs
      using that True by (auto simp: daemon_of_def daemon_after_append history_calls)
    have taken: "taken (history (run_calls [?S] w)) = taken (history w)"
      by (simp add: history_calls taken_append)
    have pending: "pending l (history (run_calls (?S # cs) w)) = drop (taken (history (run_calls (?S # cs) w)) - taken (history w)) ms"
      if "cs \<in> {[], [?R], [?R, ?M]}" for cs
    proof -
      have "taken (history w) \<le> taken (history (run_calls (?S # cs) w))" using that by (auto simp: history_calls taken_append)
      then show ?thesis using after [OF that] ms(1) n by (simp add: pending_def daemon_of_def)
    qed
    let ?q = "(ty, k, new_socket k ?d)" and ?ans = "messages (server_socket l) ?p (code, fd)"
    have finish: "requested l ?q m t r w (run_calls (?S # cs) w)"
      if "cs \<in> {[], [?R], [?R, ?M]}" "taken (history (run_calls (?S # cs) w)) = taken (history w) + length ms"
        "r = 0 \<or> r = - 1" "r = 0 \<longleftrightarrow> code = OBDIIDaemonResponseCodeSuccess \<and> ms = ?ans" for r cs
    proof -
      have "closed_fds (history (run_calls (?S # cs) w)) = closed_fds (history w)"
        using that(1) by (auto simp: history_calls fds_step)
      with that(2-4) r(1,3) n ms(1) h assms(4,7) show ?thesis
        by (simp add: requested_def attached_def after [OF that(1)])
    qed
    let ?rR = "reply_after [?S] ?R w" and ?rM = "reply_after [?S, ?R] ?M w" and ?h = "history (run_calls [?S, ?R] w)"
    have R: "recv_gives 2 ms ?rR" using del [where hist = "history (run_calls [?S] w)" and s = ?s and n = 2] pending [of "[]"] taken by (simp add: reply)
    have tR: "taken ?h = taken (history w) + (if 0 \<le> ret ?rR then 1 else 0)" by (simp add: history_calls taken_append)
    have M: "recvmsg_gives (duplicate l ?h) (drop (if 0 \<le> ret ?rR then 1 else 0) ms) ?rM"
      using del [where hist = ?h and s = ?s] pending [of "[?R]"] tR by (simp add: reply)
    have tM: "taken (history (run_calls [?S, ?R, ?M] w)) = taken ?h + (if 0 \<le> ret ?rM then 1 else 0)"
      by (simp add: history_calls taken_append)
    have codes: "bytes16 (response_code code) = bytes16 (response_code OBDIIDaemonResponseCodeSuccess) \<longleftrightarrow> code = OBDIIDaemonResponseCodeSuccess"
      using response_bytes_inject [of code OBDIIDaemonResponseCodeSuccess] by simp
    have fd: "shouldOpen \<and> code = OBDIIDaemonResponseCodeSuccess \<longleftrightarrow> fd \<noteq> None"
      using perform_request_answer [OF assms(7)] by (simp add: ty_def request_type_def split: if_splits)
    from ms(2) consider (none) "ms = []" | (answer) "ms = [?T]" | f where "fd = Some f" "ms = [SendMsg (server_socket l) ?p f]"
      | (all) f where "fd = Some f" "ms = [?T, SendMsg (server_socket l) ?p f]" by blast
    then show ?thesis
    proof cases
      case none
      then have "ret ?rR < 0" using R by (simp add: recv_gives_def)
      with run True finish [of "[?R]" "- 1"] tR none show ?thesis by (simp add: messages_def)
    next
      case answer
      then have rR: "ret ?rR = 2" "bytes ?rR = bytes16 (response_code code)" using R by (simp_all add: recv_gives_def)
      show ?thesis
      proof (cases fd)
        case None
        then have "requested l ?q m t (if code = OBDIIDaemonResponseCodeSuccess then 0 else - 1) w (run_calls [?S, ?R] w)"
          using finish [of "[?R]"] tR rR answer by (simp add: messages_def)
        with run True rR None fd codes show ?thesis by auto
      next
        case (Some f)
        have "ret ?rM < 0" using M rR answer by (simp add: recvmsg_gives_def)
        with run True rR Some fd finish [of "[?R, ?M]" "- 1"] tR tM answer show ?thesis by (auto simp: messages_def)
      qed
    next
      case 3
      then have "ret ?rR = 0" using R by (simp add: recv_gives_def)
      with run True finish [of "[?R]" "- 1"] tR 3 show ?thesis by (simp add: messages_def)
    next
      case (all f)
      then have rR: "ret ?rR = 2" "bytes ?rR = bytes16 (response_code code)" using R by (simp_all add: recv_gives_def)
      have rM: "ret ?rM = 0" "passed_fd ?rM = Some (duplicate l ?h f)" using M rR all by (simp_all add: recvmsg_gives_def)
      have "requested l ?q m t 0 w (run_calls [?S, ?R, ?M] w)"
        using finish [of "[?R, ?M]" 0] tR tM rR rM all fd by (simp add: messages_def)
      moreover have "history (run_calls [?S, ?R, ?M] w) = ?h @ [(?M, ?rM)]" by (simp add: history_calls)
      ultimately show ?thesis using run True rR rM fd all by auto
    qed
  qed
qed

lemma request_setup:
  assumes "setupDaemonCommunication w = Inr (r, w')" "r = - 1 \<and> daemonSocket (globals w') = - 1 \<or> r = 0 \<and> daemonSocket (globals w') \<noteq> - 1"
  shows "requestRemoteSocket so shouldOpen w = (if r = - 1 then Inr ((- 1, so), w') else requestRemoteSocket so shouldOpen w')"
  using assms(2)
proof
  assume "r = - 1 \<and> daemonSocket (globals w') = - 1"
  then show ?thesis
    by (simp add: requestRemoteSocket_def Let_def io_return_def bind_run [where m = setupDaemonCommunication, OF assms(1)])
next
  assume r: "r = 0 \<and> daemonSocket (globals w') \<noteq> - 1"
  then have "setupDaemonCommunication w' = Inr (0, w')" by (simp add: setup_ready)
  with r show ?thesis
    by (simp add: requestRemoteSocket_def Let_def bind_run [where m = setupDaemonCommunication, OF assms(1)]
        bind_run [where m = setupDaemonCommunication, of w'])
qed

lemma requested_trans:
  assumes "unmoved l w w1" "requested l req m t r w1 w'" "daemonSocket (globals w) \<noteq> - 1 \<longrightarrow> daemonSocket (globals w1) \<noteq> - 1"
  shows "requested l req m t r w w'"
  using assms by (simp add: requested_def unmoved_def)

lemma request_attached:
  fixes so shouldOpen
  defines "k \<equiv> socket_key so" and "ty \<equiv> request_type shouldOpen"
  assumes "attached l w" "represents m (daemon_of l w) t" "int m < 2 ^ 31 - 1"
    and "perform_request (ty, k, new_socket k (daemon_of l w)) t = (t', code, fd)" "loggable k"
  shows "\<exists>r so' w'. requestRemoteSocket so shouldOpen w = Inr ((r, so'), w') \<and>
    requested l (ty, k, new_socket k (daemon_of l w)) m t r w w' \<and>
    (r = 0 \<and> shouldOpen \<longrightarrow> (\<exists>f hist x. fd = Some f \<and> history w' = hist @ [x] \<and> so' = so\<lparr>sock := duplicate l hist f\<rparr>)) \<and>
    (r \<noteq> 0 \<or> \<not> shouldOpen \<longrightarrow> so' = so)"
proof -
  from setup_attached [OF assms(3)] obtain r0 w0 where
    w0: "setupDaemonCommunication w = Inr (r0, w0)" "attached l w0" "unmoved l w w0" "r0 = - 1 \<and> daemonSocket (globals w0) = - 1 \<or> r0 = 0 \<and> daemonSocket (globals w0) \<noteq> - 1"
    "daemonSocket (globals w) \<noteq> - 1 \<longrightarrow> w0 = w" .
  have d: "daemon_of l w0 = daemon_of l w" using w0(3) by (simp add: unmoved_def)
  note run = request_setup [OF w0(1,4), of so shouldOpen]
  show ?thesis
  proof (cases "r0 = - 1")
    case True
    have "requested l (ty, k, new_socket k (daemon_of l w)) m t (- 1) w w0"
      using w0(2-5) True by (auto simp: requested_def unmoved_def unsent_def)
    with run True show ?thesis by auto
  next
    case False
    with w0(4) have s: "daemonSocket (globals w0) \<noteq> - 1" by simp
    from request_connected [OF w0(2) s, of m t shouldOpen so t' code fd, unfolded d, folded k_def ty_def, OF assms(4-7)]
      requested_trans [OF w0(3)] w0(5) run False show ?thesis by (metis (no_types, lifting))
  qed
qed

text \<open>Opening and closing a shared socket.\<close>

abbreviation open_key :: "link \<Rightarrow> string \<Rightarrow> u32 \<Rightarrow> u32 \<Rightarrow> key" where
  "open_key l ifname tx rx \<equiv> (of_nat (interface_number l ifname), tx, rx)"

lemma open_attached:
  fixes l w so ifname tx rx share
  defines "k \<equiv> open_key l ifname tx rx"
  assumes "attached l w" "represents m (daemon_of l w) t" "int m < 2 ^ 31 - 1"
    and "(of_nat (interface_number l ifname) :: u32) \<noteq> 0" "share \<noteq> 0"
    and "perform_request (OBDIIDaemonRequestOpenSocket, k, new_socket k (daemon_of l w)) t = (t', code, fd)" "loggable k"
  shows "\<exists>r so' w'. OBDIIOpenSocket (Some so) ifname tx rx share w = Inr ((r, Some so'), w') \<and>
    requested l (OBDIIDaemonRequestOpenSocket, k, new_socket k (daemon_of l w)) m t r w w' \<and>
    socket_key so' = k \<and> shared so' = word_of_int share \<and>
    (r = 0 \<longrightarrow> (\<exists>f hist x. fd = Some f \<and> history w' = hist @ [x] \<and> sock so' = duplicate l hist f))"
proof -
  let ?so = "so\<lparr>ifindex := of_nat (interface_number l ifname), tid := tx, rid := rx, shared := word_of_int share\<rparr>"
  let ?w = "run_calls [IfNameToIndex ifname] w"
  have u: "unmoved l w ?w" by (rule unmoved_call) (simp add: aside_def)
  have a: "attached l ?w" using unmoved_attached [OF u assms(2)] assms(2) by (simp add: attached_def)
  have d: "daemon_of l ?w = daemon_of l w" using u by (simp add: unmoved_def)
  have k: "socket_key ?so = k" "request_type True = OBDIIDaemonRequestOpenSocket" by (simp_all add: k_def request_type_def)
  from request_attached [of l ?w m t True ?so t' code fd, unfolded k d, OF a assms(3,4,7,8)] obtain r so' w' where
    w': "requestRemoteSocket ?so True ?w = Inr ((r, so'), w')"
      "requested l (OBDIIDaemonRequestOpenSocket, k, new_socket k (daemon_of l w)) m t r ?w w'"
      "r = 0 \<longrightarrow> (\<exists>f hist x. fd = Some f \<and> history w' = hist @ [x] \<and> so' = ?so\<lparr>sock := duplicate l hist f\<rparr>)"
      "r \<noteq> 0 \<longrightarrow> so' = ?so" by blast
  have i: "ret (respond w (history w) (IfNameToIndex ifname)) = int (interface_number l ifname)"
    using assms(2) by (simp add: attached_def delivering_def)
  have "OBDIIOpenSocket (Some so) ifname tx rx share w = Inr ((r, Some so'), w')"
    using assms(5,6) by (simp add: OBDIIOpenSocket_def io_simps i bind_run [where m = "requestRemoteSocket _ _", OF w'(1)])
  moreover have "socket_key so' = k \<and> shared so' = word_of_int share" using w'(3,4) k by (cases "r = 0") auto
  ultimately show ?thesis using requested_trans [OF u w'(2)] w'(3) by fastforce
qed

lemma close_attached:
  assumes "attached l w" "represents m (daemon_of l w) t" "int m < 2 ^ 31 - 1" "shared so \<noteq> 0" "loggable (socket_key so)"
  shows "\<exists>r w'. OBDIICloseSocket (Some so) w = Inr ((r, Some so), w') \<and>
    requested l (OBDIIDaemonRequestCloseSocket, socket_key so, new_socket (socket_key so) (daemon_of l w)) m t r w w'"
proof -
  obtain t' code fd where p: "perform_request (OBDIIDaemonRequestCloseSocket, socket_key so, new_socket (socket_key so) (daemon_of l w)) t =
      (t', code, fd)" by (metis prod_cases3)
  have k: "request_type False = OBDIIDaemonRequestCloseSocket" by (simp add: request_type_def)
  from request_attached [of l w m t False so, unfolded k, OF assms(1-3) p assms(5)] assms(4) show ?thesis
    by (fastforce simp: OBDIICloseSocket_def io_bind_def io_return_def)
qed

section \<open>An example\<close>

text \<open>A kernel that does all this, and on which nothing fails.\<close>

definition ideal :: "link \<Rightarrow> (call \<times> reply) list \<Rightarrow> call \<Rightarrow> reply" where
  "ideal l hist c = (case c of
     IfNameToIndex n \<Rightarrow> returns (int (interface_number l n))
   | Getpid \<Rightarrow> returns 7
   | SocketUnix \<Rightarrow> returns 4
   | Send s b \<Rightarrow> returns (int (length b))
   | Recv s n \<Rightarrow> (case pending l hist of
         SendTo s p b # ms \<Rightarrow> (returns (int (length (take n b))))\<lparr>bytes := take n b\<rparr>
       | SendMsg s p fd # ms \<Rightarrow> returns 0
       | _ \<Rightarrow> returns (- 1))
   | RecvMsg s \<Rightarrow> (case pending l hist of
         SendTo s p b # ms \<Rightarrow> returns 0
       | SendMsg s p fd # ms \<Rightarrow> (returns 0)\<lparr>passed_fd := Some (duplicate l hist fd)\<rparr>
       | _ \<Rightarrow> returns (- 1))
   | _ \<Rightarrow> returns 0)"

lemma ideal_delivering:
  assumes "own_path l = self_path 7"
  shows "delivering l (ideal l)"
proof -
  have "kernel (ideal l)"
    unfolding kernel_def
  proof (intro allI impI)
    fix hist fd n and c :: call assume "c \<in> {Read fd n, Recv fd n, RecvFrom fd n}"
    then show "ret (ideal l hist c) \<le> int n \<and> length (bytes (ideal l hist c)) = nat (ret (ideal l hist c))"
      by (auto simp: ideal_def returns_def split: list.splits call.splits)
  qed
  then show ?thesis
    unfolding delivering_def using assms
    by (auto simp: ideal_def returns_def recv_gives_def recvmsg_gives_def split: list.splits call.splits)
qed

lemma ideal_sends: "respond w = ideal l \<Longrightarrow> daemonSocket (globals w) \<noteq> - 1 \<Longrightarrow> \<not> unsent w"
  by (simp add: unsent_def ideal_def returns_def)

text \<open>A daemon whose kernel accepts every message.\<close>

definition accepting :: "daemon \<Rightarrow> bool" where
  "accepting d \<longleftrightarrow> (\<forall>hist s p b fd. 0 \<le> ret (respond d hist (SendTo s p b)) \<and> 0 \<le> ret (respond d hist (SendMsg s p fd)))"

lemma requested_accepting:
  assumes "requested l req m t r w w'" "\<not> unsent w'" "accepting (daemon_of l w)" "perform_request req t = (t', code, fd)"
  shows "represents (Suc m) (daemon_of l w') t'" "r = 0 \<longleftrightarrow> code = OBDIIDaemonResponseCodeSuccess" "accepting (daemon_of l w')"
    "sent (daemon_of l w') = sent (daemon_of l w) @ messages (server_socket l) (own_path l) (code, fd)"
proof -
  let ?d = "daemon_of l w" and ?d' = "daemon_of l w'"
  have req: "represents (Suc m) ?d' t'" "sent ?d' = sent ?d @ messages (server_socket l) (own_path l) (code, fd)" "later ?d ?d'"
    and r: "r = 0 \<longleftrightarrow> code = OBDIIDaemonResponseCodeSuccess \<and>
      delivered (own_path l) ?d' = delivered (own_path l) ?d @ messages (server_socket l) (own_path l) (code, fd)"
    using assms(1,2,4) by (auto simp: requested_def)
  then obtain hist where hist: "history ?d' = history ?d @ hist" "\<forall>(c, r) \<in> set hist. \<exists>h. r = respond ?d h c"
    unfolding later_def by blast
  have "\<forall>(c, r) \<in> set hist. is_message c \<longrightarrow> 0 \<le> ret r"
  proof (intro ballI, clarify)
    fix c r assume "(c, r) \<in> set hist" "is_message c"
    with hist(2) assms(3) show "0 \<le> ret r" by (cases c) (fastforce simp: accepting_def)+
  qed
  with delivered_messages [OF hist(1) req(2)] have
    "delivered (own_path l) ?d' = delivered (own_path l) ?d @ messages (server_socket l) (own_path l) (code, fd)" by metis
  with r req show "represents (Suc m) ?d' t'" "r = 0 \<longleftrightarrow> code = OBDIIDaemonResponseCodeSuccess" "accepting ?d'"
    "sent ?d' = sent ?d @ messages (server_socket l) (own_path l) (code, fd)"
    using assms(3) by (simp_all add: later_def accepting_def)
qed

text \<open>A client that has just started and a daemon, on a system where interface 3 is the only one and a passed
  descriptor becomes number 5.\<close>

abbreviation link_to :: "daemon \<Rightarrow> link" where
  "link_to d \<equiv> \<lparr>own_path = self_path 7, server_socket = 3, interface_number = (\<lambda>_. 3), duplicate = (\<lambda>hist fd. 5), daemon_before = d\<rparr>"

definition client_of :: "daemon \<Rightarrow> world" where
  "client_of d = \<lparr>w_heap = empty_heap, globals = initial_globals, history = [], respond = ideal (link_to d)\<rparr>"

abbreviation no_socket :: OBDIISocket where
  "no_socket \<equiv> \<lparr>sock = - 1, shared = 0, ifindex = 0, tid = 0, rid = 0\<rparr>"

lemma client_of_simps: "attached (link_to d) (client_of d)" "daemon_of (link_to d) (client_of d) = d"
  "history (client_of d) = []" "respond (client_of d) = ideal (link_to d)" "daemonSocket (globals (client_of d)) = - 1"
  using ideal_delivering [of "link_to d"] by (simp_all add: attached_def client_of_def daemon_of_def)

lemma loggable_engine [simp]: "loggable engine_key"
  by (simp add: loggable_def dumpable_def request_bytes_def bytes16_def bytes32_def)

lemma daemon_with_accepting: "accepting (daemon_with [])"
  by (simp add: accepting_def delivery_def returns_def)

lemma first_open: "new_socket engine_key (daemon_with []) = Some 7"
  "perform_request (OBDIIDaemonRequestOpenSocket, engine_key, new_socket engine_key (daemon_with [])) Map.empty =
    ([engine_key \<mapsto> (7, 1)], OBDIIDaemonResponseCodeSuccess, Some 7)"
  by (simp_all add: new_socket_def can_open_def new_fd_def delivery_def returns_def request_open_def)

lemma requested_connected:
  assumes "requested l req m t r w w'" "respond w = ideal l" "daemonSocket (globals w') \<noteq> - 1"
  shows "\<not> unsent w'" "attached l w'" "respond w' = ideal l" "daemonSocket (globals w') \<noteq> - 1"
  using assms ideal_sends [of w' l] by (auto simp: requested_def)

text \<open>A client of such a kernel is connected after it has opened a socket, and was perhaps not before.\<close>

lemma ideal_setup:
  assumes "respond w = ideal l" "daemonSocket (globals w) = - 1"
  shows "\<exists>cs. setupDaemonCommunication w = Inr (0, (run_calls cs w)\<lparr>globals := (globals w)\<lparr>daemonSocket := 4\<rparr>\<rparr>)"
  using assms by (auto simp: setupDaemonCommunication_def Let_def io_simps ideal_def returns_def run_calls_globals)

lemma request_stays_connected:
  assumes "daemonSocket (globals w) \<noteq> - 1" "daemonSocket (globals w) \<noteq> 0" "kernel (respond w)" "requestRemoteSocket so b w = Inr (x, w')"
  shows "daemonSocket (globals w') \<noteq> - 1"
  using assms(4) request_run [OF assms(1-3), of so b] assms(1) by (auto split: if_splits option.splits)

lemma request_connects:
  assumes "respond w = ideal l" "kernel (respond w)" "daemonSocket (globals w) \<noteq> 0" "requestRemoteSocket so b w = Inr (x, w')"
  shows "daemonSocket (globals w') \<noteq> - 1"
proof (cases "daemonSocket (globals w) = - 1")
  case True
  from ideal_setup [OF assms(1) this] obtain cs where
    c: "setupDaemonCommunication w = Inr (0, (run_calls cs w)\<lparr>globals := (globals w)\<lparr>daemonSocket := 4\<rparr>\<rparr>)" by blast
  let ?v = "(run_calls cs w)\<lparr>globals := (globals w)\<lparr>daemonSocket := 4\<rparr>\<rparr>"
  have "requestRemoteSocket so b ?v = Inr (x, w')" using request_setup [OF c, of so b] assms(4) by simp
  then show ?thesis by (rule request_stays_connected [rotated 3]) (use assms(2) in simp_all)
qed (use request_stays_connected assms in blast)

lemma open_connects:
  assumes "attached l w" "respond w = ideal l" "share \<noteq> 0" "(of_nat (interface_number l ifname) :: u32) \<noteq> 0"
    and "OBDIIOpenSocket (Some so) ifname tx rx share w = Inr (x, w')"
  shows "daemonSocket (globals w') \<noteq> - 1"
proof -
  let ?so = "so\<lparr>ifindex := of_nat (interface_number l ifname), tid := tx, rid := rx, shared := word_of_int share\<rparr>"
  let ?w = "run_calls [IfNameToIndex ifname] w"
  have a: "ret (respond w (history w) (IfNameToIndex ifname)) = int (interface_number l ifname)"
    "kernel (respond ?w)" "daemonSocket (globals ?w) \<noteq> 0" "respond ?w = ideal l"
    using assms(1,2) by (simp_all add: attached_def delivering_def)
  have "\<exists>y. requestRemoteSocket ?so True ?w = Inr (y, w')"
    using assms(3-5) a(1) by (auto simp: OBDIIOpenSocket_def io_simps Let_def io_bind_def io_return_def obind_eq_Inr)
  then show ?thesis using request_connects [OF a(4,2,3)] by blast
qed

lemma ideal_open:
  fixes w :: world
  assumes "attached l w" "respond w = ideal l" "accepting (daemon_of l w)"
    and "represents m (daemon_of l w) t" "int m < 2 ^ 31 - 1" "k = open_key l ifname tx rx" "fst k \<noteq> 0" "share \<noteq> 0" "loggable k"
    and "perform_request (OBDIIDaemonRequestOpenSocket, k, new_socket k (daemon_of l w)) t = (t', OBDIIDaemonResponseCodeSuccess, Some f)"
  obtains so' w' where "OBDIIOpenSocket (Some so) ifname tx rx share w = Inr ((0, Some so'), w')"
    "socket_key so' = k" "shared so' = word_of_int share" "\<exists>hist. sock so' = duplicate l hist f"
    "represents (Suc m) (daemon_of l w') t'" "accepting (daemon_of l w')" "attached l w'" "respond w' = ideal l"
    "daemonSocket (globals w') \<noteq> - 1"
    "sent (daemon_of l w') = sent (daemon_of l w) @ messages (server_socket l) (own_path l) (OBDIIDaemonResponseCodeSuccess, Some f)"
    "closed_fds (history w') = closed_fds (history w)"
proof -
  from open_attached [OF assms(1,4,5), of ifname share tx rx t' OBDIIDaemonResponseCodeSuccess "Some f" so] assms(6-10)
  obtain r so' w' where w': "OBDIIOpenSocket (Some so) ifname tx rx share w = Inr ((r, Some so'), w')"
      "requested l (OBDIIDaemonRequestOpenSocket, k, new_socket k (daemon_of l w)) m t r w w'" "socket_key so' = k"
      "shared so' = word_of_int share" "r = 0 \<longrightarrow> (\<exists>hist. sock so' = duplicate l hist f)" by fastforce
  have "daemonSocket (globals w') \<noteq> - 1" using open_connects [OF assms(1,2,8) _ w'(1)] assms(6,7) by simp
  note c = requested_connected [OF w'(2) assms(2) this]
  note a = requested_accepting [OF w'(2) c(1) assms(3,10)]
  have "closed_fds (history w') = closed_fds (history w)" using w'(2) by (simp add: requested_def)
  with that w' c a show ?thesis by simp
qed

lemma ideal_close:
  fixes w :: world
  assumes "attached l w" "respond w = ideal l" "daemonSocket (globals w) \<noteq> - 1" "accepting (daemon_of l w)"
    and "represents m (daemon_of l w) t" "int m < 2 ^ 31 - 1" "shared so \<noteq> 0" "loggable (socket_key so)"
    and "request_close (socket_key so) t = (t', OBDIIDaemonResponseCodeSuccess, None)"
  obtains w' where "OBDIICloseSocket (Some so) w = Inr ((0, Some so), w')"
    "represents (Suc m) (daemon_of l w') t'" "accepting (daemon_of l w')" "attached l w'" "respond w' = ideal l"
    "daemonSocket (globals w') \<noteq> - 1"
proof -
  have p: "perform_request (OBDIIDaemonRequestCloseSocket, socket_key so, new_socket (socket_key so) (daemon_of l w)) t =
      (t', OBDIIDaemonResponseCodeSuccess, None)" using assms(9) by simp
  from close_attached [OF assms(1,5-8)] obtain r w' where w': "OBDIICloseSocket (Some so) w = Inr ((r, Some so), w')"
      "requested l (OBDIIDaemonRequestCloseSocket, socket_key so, new_socket (socket_key so) (daemon_of l w)) m t r w w'" by blast
  have "daemonSocket (globals w') \<noteq> - 1" using w'(2) assms(3) by (simp add: requested_def)
  note c = requested_connected [OF w'(2) assms(2) this]
  note a = requested_accepting [OF w'(2) c(1) assms(4) p]
  with that w' c show ?thesis by simp
qed

text \<open>The first open of a client.\<close>

lemma client_base: "attached (link_to (daemon_with [])) (client_of (daemon_with []))"
  "represents 0 (daemon_of (link_to (daemon_with [])) (client_of (daemon_with []))) Map.empty" "int 0 < 2 ^ 31 - 1"
  "engine_key = open_key (link_to (daemon_with [])) ''can0'' 0x7E0 0x7E8" "fst engine_key \<noteq> 0"
  "perform_request (OBDIIDaemonRequestOpenSocket, engine_key,
     new_socket engine_key (daemon_of (link_to (daemon_with [])) (client_of (daemon_with [])))) Map.empty =
     ([engine_key \<mapsto> (7, 1)], OBDIIDaemonResponseCodeSuccess, Some 7)"
  using first_open by (simp_all add: client_of_simps daemon_with_booted)

lemma client_opens:
  assumes "share \<noteq> 0"
  obtains so' w' where "OBDIIOpenSocket (Some no_socket) ''can0'' 0x7E0 0x7E8 share (client_of (daemon_with [])) = Inr ((0, Some so'), w')"
    "socket_key so' = engine_key" "shared so' = word_of_int share" "sock so' = 5"
    "represents (Suc 0) (daemon_of (link_to (daemon_with [])) w') [engine_key \<mapsto> (7, 1)]"
    "accepting (daemon_of (link_to (daemon_with [])) w')" "attached (link_to (daemon_with [])) w'"
    "respond w' = ideal (link_to (daemon_with []))" "daemonSocket (globals w') \<noteq> - 1"
    "sent (daemon_of (link_to (daemon_with [])) w') = messages 3 (self_path 7) (OBDIIDaemonResponseCodeSuccess, Some 7)"
proof -
  let ?l = "link_to (daemon_with [])" and ?w = "client_of (daemon_with [])"
  have s: "respond ?w = ideal ?l" "accepting (daemon_of ?l ?w)" "sent (daemon_of ?l ?w) = []"
    by (simp_all add: client_of_simps daemon_with_accepting)
  show thesis
    by (rule ideal_open [OF client_base(1) s(1,2) client_base(2-5) assms loggable_engine client_base(6), of no_socket], rule that)
      (simp_all add: s(3))
qed

section \<open>Shared sockets\<close>

lemma request_open_result:
  assumes "request_open k opened t = (t', code, fd)"
  shows "code = OBDIIDaemonResponseCodeSuccess \<longleftrightarrow> fd \<noteq> None" "fd = Some f \<Longrightarrow> \<exists>c. t' k = Some (f, c)"
proof -
  have "(code = OBDIIDaemonResponseCodeSuccess \<longleftrightarrow> fd \<noteq> None) \<and> (\<forall>f. fd = Some f \<longrightarrow> (\<exists>c. t' k = Some (f, c)))"
  proof (cases "t k")
    case None
    then show ?thesis using assms by (cases opened) (auto simp: request_open_def)
  next
    case (Some p)
    then show ?thesis using assms by (cases p) (auto simp: request_open_def)
  qed
  then show "code = OBDIIDaemonResponseCodeSuccess \<longleftrightarrow> fd \<noteq> None" "fd = Some f \<Longrightarrow> \<exists>c. t' k = Some (f, c)"
    by blast+
qed

text \<open>C6. Client and daemon agree, from the first call of a client on. On any kernels between which datagrams
  behave as documented, opening a shared socket either sends no request, because the client could not
  connect or send; or it makes the daemon perform one open request for exactly the interface, transfer and
  receive identifier the caller gave, and then the call succeeds exactly when the daemon granted the
  request and both messages of its answer were delivered. The socket then has these parameters and the
  client's duplicate of the descriptor in the daemon's table. The interface must exist, and the request
  be one that the daemon survives logging.\<close>

theorem shared_open_agrees:
  assumes "attached l w" "represents m (daemon_of l w) t" "int m < 2 ^ 31 - 1"
    and "k = (of_nat (interface_number l ifname), tx, rx)" "fst k \<noteq> 0" "share \<noteq> 0" "loggable k"
    and "perform_request (OBDIIDaemonRequestOpenSocket, k, new_socket k (daemon_of l w)) t = (t', code, fd)"
  shows "\<exists>r so' w'. OBDIIOpenSocket (Some so) ifname tx rx share w = Inr ((r, Some so'), w') \<and> attached l w' \<and>
    (unsent w' \<and> daemon_of l w' = daemon_of l w \<and> r = - 1 \<or>
     represents (Suc m) (daemon_of l w') t' \<and> (r = 0 \<or> r = - 1) \<and>
     (r = 0 \<longleftrightarrow> code = OBDIIDaemonResponseCodeSuccess \<and> delivered (own_path l) (daemon_of l w') =
        delivered (own_path l) (daemon_of l w) @ messages (server_socket l) (own_path l) (code, fd))) \<and>
    (r = 0 \<longrightarrow> socket_key so' = k \<and> (\<exists>f c hist x. t' k = Some (f, c) \<and> history w' = hist @ [x] \<and> sock so' = duplicate l hist f))"
proof -
  from open_attached [OF assms(1-3), of ifname share tx rx t' code fd so] assms(4-8) obtain r so' w' where
    w': "OBDIIOpenSocket (Some so) ifname tx rx share w = Inr ((r, Some so'), w')"
      "requested l (OBDIIDaemonRequestOpenSocket, k, new_socket k (daemon_of l w)) m t r w w'" "socket_key so' = k"
      "r = 0 \<longrightarrow> (\<exists>f hist x. fd = Some f \<and> history w' = hist @ [x] \<and> sock so' = duplicate l hist f)" by fastforce
  have "\<exists>c. t' k = Some (f, c)" if "fd = Some f" for f
    using request_open_result(2) [of k _ t t' code fd f] assms(8) that by simp
  with w' assms(8) show ?thesis by (fastforce simp: requested_def)
qed

theorem shared_open_agrees_witness:
  "\<exists>so' w'. OBDIIOpenSocket (Some no_socket) ''can0'' 0x7E0 0x7E8 1 (client_of (daemon_with [])) = Inr ((0, Some so'), w') \<and>
    represents (Suc 0) (daemon_of (link_to (daemon_with [])) w') [engine_key \<mapsto> (7, 1)] \<and> socket_key so' = engine_key \<and> sock so' = 5"
proof -
  obtain so w where
    w: "OBDIIOpenSocket (Some no_socket) ''can0'' 0x7E0 0x7E8 1 (client_of (daemon_with [])) = Inr ((0, Some so), w)"
      "represents (Suc 0) (daemon_of (link_to (daemon_with [])) w) [engine_key \<mapsto> (7, 1)]"
    by (rule client_opens [of 1]) simp_all
  from shared_open_agrees [OF client_base(1-5) _ loggable_engine client_base(6), of 1 no_socket] w show ?thesis by auto
qed

text \<open>C10. Opening a shared socket and closing it again leaves the daemon's table as it was: a connection
  opened for this call is closed, one that others use keeps its count. This is so whenever the open
  succeeds and the request of the close is sent, for a share flag that is true in sixteen bits and
  parameters that the daemon survives logging. (An open that fails because the daemon could not send its
  answer leaves the count raised; the theory \<open>Community\<close> is about such connections.) The client's own copy of the descriptor
  is closed by neither call.\<close>

theorem shared_open_close:
  assumes "attached l w" "represents m (daemon_of l w) t" "int m + 1 < 2 ^ 31 - 1"
    and "k = (of_nat (interface_number l ifname), tx, rx)" "fst k \<noteq> 0" "(word_of_int share :: u16) \<noteq> 0" "loggable k"
  shows "\<exists>r so' w'. OBDIIOpenSocket (Some so) ifname tx rx share w = Inr ((r, Some so'), w') \<and>
    (r = 0 \<longrightarrow> (\<exists>r' w''. OBDIICloseSocket (Some so') w' = Inr ((r', Some so'), w'') \<and>
      (unsent w'' \<and> r' = - 1 \<or> represents (m + 2) (daemon_of l w'') t) \<and>
      closed_fds (history w'') = closed_fds (history w)))"
proof -
  let ?q = "(OBDIIDaemonRequestOpenSocket, k, new_socket k (daemon_of l w))"
  obtain t' code fd where p: "perform_request ?q t = (t', code, fd)" by (metis prod_cases3)
  have t: "counted t" using assms(2) by (rule represents_counted)
  have share: "share \<noteq> 0" using assms(6) by auto
  from assms(3) have m: "int m < 2 ^ 31 - 1" "int (Suc m) < 2 ^ 31 - 1" by simp_all
  from open_attached [OF assms(1,2) m(1), of ifname share tx rx t' code fd so] p share assms(4,5,7) obtain r so' w' where
    w': "OBDIIOpenSocket (Some so) ifname tx rx share w = Inr ((r, Some so'), w')" "requested l ?q m t r w w'"
      "socket_key so' = k" "shared so' = word_of_int share" by fastforce
  have "\<exists>r' w''. OBDIICloseSocket (Some so') w' = Inr ((r', Some so'), w'') \<and>
      (unsent w'' \<and> r' = - 1 \<or> represents (m + 2) (daemon_of l w'') t) \<and> closed_fds (history w'') = closed_fds (history w)"
    if r: "r = 0"
  proof -
    have w: "attached l w'" "represents (Suc m) (daemon_of l w') t'" "code = OBDIIDaemonResponseCodeSuccess"
        "closed_fds (history w') = closed_fds (history w)" using w'(2) r p by (simp_all add: requested_def)
    have undo: "request_close k t' = (t, OBDIIDaemonResponseCodeSuccess, None)"
    proof (cases "t k")
      case None
      with p w(3) show ?thesis by (auto simp: request_open_def request_close_def fun_upd_idem split: option.splits)
    next
      case (Some x)
      obtain f c where x: "t k = Some (f, c)" using Some by (cases x) simp
      with p countedD [OF t x] show ?thesis by (auto simp: request_open_def request_close_def fun_upd_idem)
    qed
    from close_attached [OF w(1,2) m(2), of so'] w'(3,4) assms(6,7) obtain r' w'' where
      w'': "OBDIICloseSocket (Some so') w' = Inr ((r', Some so'), w'')"
        "requested l (OBDIIDaemonRequestCloseSocket, k, new_socket k (daemon_of l w')) (Suc m) t' r' w' w''" by auto
    with undo w(4) show ?thesis by (auto simp: requested_def)
  qed
  with w' show ?thesis by blast
qed

theorem shared_open_close_witness:
  "\<exists>so' w' r' w''. OBDIIOpenSocket (Some no_socket) ''can0'' 0x7E0 0x7E8 1 (client_of (daemon_with [])) = Inr ((0, Some so'), w') \<and>
    OBDIICloseSocket (Some so') w' = Inr ((r', Some so'), w'') \<and>
    (unsent w'' \<and> r' = - 1 \<or> represents (0 + 2) (daemon_of (link_to (daemon_with [])) w'') Map.empty)"
proof -
  obtain so w where
    w: "OBDIIOpenSocket (Some no_socket) ''can0'' 0x7E0 0x7E8 1 (client_of (daemon_with [])) = Inr ((0, Some so), w)"
    by (rule client_opens [of 1]) simp_all
  from shared_open_close [OF client_base(1,2) _ client_base(4,5) _ loggable_engine, of 1 no_socket] w show ?thesis by auto
qed

text \<open>The field \<open>shared\<close> keeps only sixteen bits of the caller's \<open>int\<close>. A caller that passes 65536 as
  true gets a socket that the daemon opened and that is marked private: closing it closes only the
  caller's copy, and the daemon goes on counting a user that is gone.\<close>

theorem shared_flag_truncated:
  assumes "attached l w" "represents m (daemon_of l w) t" "int m < 2 ^ 31 - 1"
    and "k = (of_nat (interface_number l ifname), tx, rx)" "fst k \<noteq> 0" "share \<noteq> 0" "65536 dvd share" "loggable k"
    and "OBDIIOpenSocket (Some so) ifname tx rx share w = Inr ((0, Some so'), w')"
  shows "\<exists>r w'' c. OBDIICloseSocket (Some so') w' = Inr ((r, Some so'), w'') \<and> calls w'' = calls w' @ [Close (sock so')] \<and>
    represents (Suc m) (daemon_of l w'') (t(k \<mapsto> c)) \<and> snd c = reference_count_of t k + 1"
proof -
  let ?q = "(OBDIIDaemonRequestOpenSocket, k, new_socket k (daemon_of l w))"
  obtain t' code fd where p: "perform_request ?q t = (t', code, fd)" by (metis prod_cases3)
  have z: "(word_of_int share :: u16) = 0" using assms(7) by (simp add: word_of_int_eq_0_iff)
  from open_attached [OF assms(1-3), of ifname share tx rx t' code fd so] p assms(4-6,8,9) have
    req: "requested l ?q m t 0 w w'" "shared so' = word_of_int share" by fastforce+
  then have t': "represents (Suc m) (daemon_of l w') t'" "code = OBDIIDaemonResponseCodeSuccess"
    using p by (simp_all add: requested_def)
  have "\<exists>c. t' = t(k \<mapsto> c) \<and> snd c = reference_count_of t k + 1"
    using p t'(2) by (auto simp: request_open_def reference_count_of_def split: option.splits)
  moreover have "OBDIICloseSocket (Some so') w' = Inr ((ret (respond w' (history w') (Close (sock so'))), Some so'), run_calls [Close (sock so')] w')"
    using req(2) z by (simp add: OBDIICloseSocket_def io_simps)
  moreover have "daemon_of l (run_calls [Close (sock so')] w') = daemon_of l w'"
    by (simp add: daemon_of_def history_calls daemon_after_append)
  ultimately show ?thesis using t'(1) by auto
qed

theorem shared_flag_truncated_witness:
  "\<exists>so' w' r w'' c. OBDIIOpenSocket (Some no_socket) ''can0'' 0x7E0 0x7E8 65536 (client_of (daemon_with [])) = Inr ((0, Some so'), w') \<and>
    OBDIICloseSocket (Some so') w' = Inr ((r, Some so'), w'') \<and> calls w'' = calls w' @ [Close (sock so')] \<and>
    represents (Suc 0) (daemon_of (link_to (daemon_with [])) w'') [engine_key \<mapsto> c] \<and> snd c = 1"
proof -
  obtain so w where
    w: "OBDIIOpenSocket (Some no_socket) ''can0'' 0x7E0 0x7E8 65536 (client_of (daemon_with [])) = Inr ((0, Some so), w)"
    by (rule client_opens [of 65536]) simp_all
  from shared_flag_truncated [OF client_base(1-5) _ _ loggable_engine w] w show ?thesis by (auto simp: reference_count_of_def)
qed

section \<open>Private sockets\<close>

lemma private_open:
  "\<exists>r so' w'. OBDIIOpenSocket (Some so) ifname tx rx 0 w = Inr ((r, Some so'), w') \<and> (r = 0 \<or> r = - 1) \<and>
    respond w' = respond w \<and> w_heap w' = w_heap w \<and> opened_fds (history w') + closed_fds (history w) =
      closed_fds (history w') + opened_fds (history w) + (if r = 0 then {#sock so'#} else {#}) \<and>
    (r = 0 \<longrightarrow> BindCan (sock so') (ifindex so') tx rx \<in> set (calls w') \<and> ifindex so' \<noteq> 0 \<and> shared so' = 0 \<and> 0 \<le> sock so' \<and>
      (\<exists>hist. sock so' = ret (respond w hist SocketIsotp)))"
  by (auto simp: OBDIIOpenSocket_def io_simps Let_def history_calls fds_step calls_def reply_after_def)

lemma private_close:
  assumes "shared so = 0"
  shows "\<exists>s w'. OBDIICloseSocket (Some so) w = Inr ((s, Some so), w') \<and>
    opened_fds (history w') = opened_fds (history w) \<and> closed_fds (history w') = closed_fds (history w) + {#sock so#}"
  using assms by (auto simp: OBDIICloseSocket_def io_simps history_calls fds_step)

text \<open>C20. Opening a private socket never fails in an undefined way, and keeps exactly one descriptor when
  it succeeds, bound to the interface and the identifiers asked for, and none when it fails. Closing
  the socket releases it.\<close>

theorem private_socket:
  "\<exists>r so' w'. OBDIIOpenSocket (Some so) ifname tx rx 0 w = Inr ((r, Some so'), w') \<and> (r = 0 \<or> r = - 1) \<and>
    opened_fds (history w') + closed_fds (history w) =
      closed_fds (history w') + opened_fds (history w) + (if r = 0 then {#sock so'#} else {#}) \<and>
    (r = 0 \<longrightarrow> BindCan (sock so') (ifindex so') tx rx \<in> set (calls w') \<and> ifindex so' \<noteq> 0 \<and>
      (\<exists>s w''. OBDIICloseSocket (Some so') w' = Inr ((s, Some so'), w'') \<and>
        opened_fds (history w'') + closed_fds (history w) = closed_fds (history w'') + opened_fds (history w)))"
proof -
  from private_open [of so ifname tx rx w] obtain r so' w' where
    run: "OBDIIOpenSocket (Some so) ifname tx rx 0 w = Inr ((r, Some so'), w')" "r = 0 \<or> r = - 1"
      "opened_fds (history w') + closed_fds (history w) =
        closed_fds (history w') + opened_fds (history w) + (if r = 0 then {#sock so'#} else {#})"
      "r = 0 \<longrightarrow> BindCan (sock so') (ifindex so') tx rx \<in> set (calls w') \<and> ifindex so' \<noteq> 0 \<and> shared so' = 0" by blast
  moreover have "\<exists>s w''. OBDIICloseSocket (Some so') w' = Inr ((s, Some so'), w'') \<and>
        opened_fds (history w'') + closed_fds (history w) = closed_fds (history w'') + opened_fds (history w)" if "r = 0"
    using private_close [of so' w'] run(3,4) that by (auto simp: ac_simps)
  ultimately show ?thesis by blast
qed

theorem private_socket_witness:
  "\<exists>r so' w'. OBDIIOpenSocket (Some no_socket) ''can0'' 0x7E0 0x7E8 0 (client_of (daemon_with [])) = Inr ((r, Some so'), w') \<and>
    opened_fds (history w') = closed_fds (history w') + (if r = 0 then {#sock so'#} else {#})"
  using private_socket [of no_socket "''can0''" "0x7E0" "0x7E8" "client_of (daemon_with [])"]
  by (simp only: client_of_simps add.commute) (elim exE conjE, intro exI conjI, assumption, simp add: add.commute client_of_simps fds_single)

text \<open>A failure while connecting to the daemon forgets the socket that was made for it: it stays open,
  nothing refers to it, and the next call makes another one.\<close>

theorem setup_failure_leaks:
  assumes "daemonSocket (globals w) = - 1" "setupDaemonCommunication w = Inr (- 1, w')"
  shows "daemonSocket (globals w') = - 1 \<and> (\<exists>cs. calls w' = calls w @ SocketUnix # cs \<and> (\<forall>fd. Close fd \<notin> set cs))"
proof -
  from setup_result [OF assms(1)] assms(2) have g: "daemonSocket (globals w') = - 1"
    and first: "take 1 (drop (length (history w)) (history w')) = [(SocketUnix, reply_after [] SocketUnix w)]" by auto
  from setup_closes_nothing assms(2) obtain hist where
    hist: "history w' = history w @ hist" "\<forall>(c, r) \<in> set hist. \<nexists>fd. c = Close fd" unfolding makes_def by blast
  from first obtain rest where "hist = (SocketUnix, reply_after [] SocketUnix w) # rest"
    by (cases hist) (auto simp: hist(1))
  with hist g show ?thesis by (fastforce simp: calls_def)
qed

text \<open>A system on which nothing can be bound.\<close>

theorem setup_failure_leaks_witness:
  "\<exists>w' cs. setupDaemonCommunication \<lparr>w_heap = empty_heap, globals = initial_globals, history = [], respond =
      (\<lambda>hist c. case c of BindUnix s p \<Rightarrow> returns (- 1) | _ \<Rightarrow> returns 5)\<rparr> = Inr (- 1, w') \<and>
    calls w' = SocketUnix # cs \<and> (\<forall>fd. Close fd \<notin> set cs)" (is "\<exists>w' cs. setupDaemonCommunication ?w = _ \<and> _")
proof -
  have "\<exists>w'. setupDaemonCommunication ?w = Inr (- 1, w')"
    by (simp add: setupDaemonCommunication_def Let_def io_simps returns_def)
  then obtain w' where *: "setupDaemonCommunication ?w = Inr (- 1, w')" ..
  have "daemonSocket (globals ?w) = - 1" by simp
  from setup_failure_leaks [OF this *] * show ?thesis by (auto simp: calls_def)
qed

end
