(* ===== verification/Community.thy ===== *)
theory Community
  imports Session
begin

text \<open>
  Any number of clients and one daemon: clients open shared sockets, close them, or exit without closing
  them, in any order. As long as a client closes only what it has opened, and only once, the daemon's
  reference counts are the sockets its clients have and those that were lost; what a second close does
  is the last property.
\<close>

section \<open>Clients and the daemon\<close>

text \<open>The daemon; the shared sockets that clients have open, each with the daemon's descriptor that was passed
  for it; and, by parameters and descriptor, what the daemon counts for nobody any more: the sockets of
  clients that exited without closing them, and those that the daemon granted without its answer
  arriving.

  A step is one call of the library by one client, and begins with the history of a client of which only
  the daemon's present state matters. Each client has a link of its own to the daemon, so that it only
  gets the answers to its own requests; only the numbers of the interfaces are those of the system.
  Everything that the documentation of datagram sockets leaves open may fail in every step. Requests that
  the daemon does not survive are left out.\<close>

record community =
  the_daemon :: daemon
  users :: "(OBDIISocket \<times> int) multiset"
  lost :: "(key \<times> int) multiset"

text \<open>The descriptor that the daemon sent while it came from one state to the other.\<close>

definition passed :: "daemon \<Rightarrow> daemon \<Rightarrow> int option" where
  "passed d d' = (case drop (length (sent d)) (sent d') of [SendTo s p b, SendMsg s' p' fd] \<Rightarrow> Some fd | _ \<Rightarrow> None)"

text \<open>An open that succeeds gives the client a socket; one that fails although the daemon granted it loses
  one. A close ends the use of a socket once the daemon has answered it; until then it can be tried again.\<close>

inductive community_step :: "(string \<Rightarrow> nat) \<Rightarrow> community \<Rightarrow> community \<Rightarrow> bool" for interfaces where
  opens: "attached l w \<Longrightarrow> daemon_of l w = the_daemon s \<Longrightarrow> interface_number l = interfaces \<Longrightarrow>
    k = open_key l ifname tx rx \<Longrightarrow> fst k \<noteq> 0 \<Longrightarrow> (word_of_int share :: u16) \<noteq> 0 \<Longrightarrow> loggable k \<Longrightarrow>
    OBDIIOpenSocket (Some so) ifname tx rx share w = Inr ((r, Some so'), w') \<Longrightarrow>
    fd = passed (the_daemon s) (daemon_of l w') \<Longrightarrow>
    community_step interfaces s (s\<lparr>the_daemon := daemon_of l w',
      users := users s + (if r = 0 then {#(so', the fd)#} else {#}),
      lost := lost s + (if r \<noteq> 0 \<and> fd \<noteq> None then {#(k, the fd)#} else {#})\<rparr>)"
| closes: "attached l w \<Longrightarrow> daemon_of l w = the_daemon s \<Longrightarrow> interface_number l = interfaces \<Longrightarrow>
    (so, fd) \<in># users s \<Longrightarrow> OBDIICloseSocket (Some so) w = Inr ((r, so'), w') \<Longrightarrow>
    community_step interfaces s (s\<lparr>the_daemon := daemon_of l w',
      users := users s - (if sent (daemon_of l w') = sent (the_daemon s) then {#} else {#(so, fd)#})\<rparr>)"
| exits: "(so, fd) \<in># users s \<Longrightarrow>
    community_step interfaces s (s\<lparr>users := users s - {#(so, fd)#}, lost := add_mset (socket_key so, fd) (lost s)\<rparr>)"

definition founded :: "community \<Rightarrow> bool" where
  "founded s \<longleftrightarrow> represents 0 (the_daemon s) Map.empty \<and> users s = {#} \<and> lost s = {#}"

section \<open>The table and the sockets\<close>

text \<open>What the daemon should count: parameters and descriptor of every socket in use, and what was lost.\<close>

definition uses :: "community \<Rightarrow> (key \<times> int) multiset" where
  "uses s = image_mset (\<lambda>(so, fd). (socket_key so, fd)) (users s) + lost s"

definition tallies :: "table \<Rightarrow> (key \<times> int) multiset \<Rightarrow> bool" where
  "tallies t U \<longleftrightarrow> (\<forall>k. reference_count_of t k = int (count (image_mset fst U) k)) \<and>
     (\<forall>k fd. (k, fd) \<in># U \<longrightarrow> (\<exists>c. t k = Some (fd, c)))"

lemma talliesD: "tallies t U \<Longrightarrow> (k, fd) \<in># U \<Longrightarrow> \<exists>c. t k = Some (fd, c)"
  unfolding tallies_def by blast

lemma tallies_count: "tallies t U \<Longrightarrow> reference_count_of t k = int (count (image_mset fst U) k)"
  unfolding tallies_def by blast

lemma talliesI:
  assumes "\<And>k. reference_count_of t k = int (count (image_mset fst U) k)" "\<And>k fd. (k, fd) \<in># U \<Longrightarrow> \<exists>c. t k = Some (fd, c)"
  shows "tallies t U"
  using assms unfolding tallies_def by blast

lemma tallies_open:
  assumes "tallies t U" "request_open k opened t = (t', code, Some fd)"
  shows "tallies t' (add_mset (k, fd) U)"
proof -
  obtain c where t': "t' = t(k \<mapsto> (fd, c))" "c = reference_count_of t k + 1" "\<forall>f n. t k = Some (f, n) \<longrightarrow> f = fd"
    using assms(2) by (auto simp: request_open_def reference_count_of_def split: option.splits)
  have "reference_count_of t' j = (if j = k then reference_count_of t j + 1 else reference_count_of t j)" for j
    using t'(2) by (simp add: t'(1) reference_count_of_def)
  then have "reference_count_of t' j = int (count (image_mset fst (add_mset (k, fd) U)) j)" for j
    using tallies_count [OF assms(1), of j] by (cases "j = k") simp_all
  moreover have "\<exists>c. t' j = Some (f, c)" if "(j, f) \<in># add_mset (k, fd) U" for j f
  proof (cases "j = k")
    case True
    then have "f = fd" using that talliesD [OF assms(1), of k f] t'(3) by auto
    with True show ?thesis by (simp add: t'(1))
  next
    case False
    then have "(j, f) \<in># U" using that by simp
    from talliesD [OF assms(1) this] False show ?thesis by (simp add: t'(1))
  qed
  ultimately show ?thesis by (rule talliesI)
qed

lemma tallies_close:
  assumes "tallies t (add_mset (k, fd) U)"
  obtains t' where "request_close k t = (t', OBDIIDaemonResponseCodeSuccess, None)" "tallies t' U"
proof -
  from assms obtain c where c: "t k = Some (fd, c)" using talliesD [of t "add_mset (k, fd) U" k fd] by auto
  let ?t = "if c = 1 then t(k := None) else t(k \<mapsto> (fd, c - 1))"
  have count: "reference_count_of t j = of_bool (j = k) + int (count (image_mset fst U) j)" for j
    using tallies_count [OF assms, of j] by simp
  have "reference_count_of ?t j = int (count (image_mset fst U) j)" for j
    using count [of j] c by (auto simp: reference_count_of_def)
  moreover have "\<exists>n. ?t j = Some (f, n)" if "(j, f) \<in># U" for j f
  proof -
    have v: "\<exists>n. t j = Some (f, n)" using talliesD [OF assms, of j f] that by simp
    have "c \<noteq> 1" if "j = k"
    proof -
      have "fst (j, f) \<in># image_mset fst U" using \<open>(j, f) \<in># U\<close> unfolding set_image_mset by (rule imageI)
      then have "0 < count (image_mset fst U) k" unfolding that by (simp only: fst_conv count_greater_zero_iff)
      then show ?thesis using count [of k] c by (auto simp: reference_count_of_def)
    qed
    with v c show ?thesis by (cases "j = k") auto
  qed
  ultimately have "tallies ?t U" by (rule talliesI)
  moreover have "request_close k t = (?t, OBDIIDaemonResponseCodeSuccess, None)" using c by (simp add: request_close_def)
  ultimately show ?thesis using that by blast
qed

section \<open>Reachable states\<close>

definition accounted :: "nat \<Rightarrow> community \<Rightarrow> bool" where
  "accounted n s \<longleftrightarrow> (\<exists>t. represents n (the_daemon s) t \<and> tallies t (uses s)) \<and>
     (\<forall>(so, fd) \<in># users s. shared so \<noteq> 0 \<and> loggable (socket_key so))"

lemma passed_messages: "sent d' = sent d @ messages s p (code, fd) \<Longrightarrow> passed d d' = fd"
  by (auto simp: passed_def messages_def split: option.split)

lemma passed_none: "passed d d = None"
  by (simp add: passed_def)

lemma uses_user: "(so, fd) \<in># users s \<Longrightarrow>
    uses s = add_mset (socket_key so, fd) (image_mset (\<lambda>(so, fd). (socket_key so, fd)) (users s - {#(so, fd)#}) + lost s)"
  using multi_member_split [of "(so, fd)" "users s"] by (auto simp: uses_def)

text \<open>A close by one who has the socket open: the daemon grants the request if it gets it.\<close>

lemma user_closes:
  assumes "accounted n s" "int n < 2 ^ 31 - 1" "(so, fd) \<in># users s" "attached l w" "daemon_of l w = the_daemon s"
  obtains r w' where "OBDIICloseSocket (Some so) w = Inr ((r, Some so), w')"
    "unsent w' \<and> daemon_of l w' = the_daemon s \<and> r = - 1 \<or>
     accounted (Suc n) (s\<lparr>the_daemon := daemon_of l w', users := users s - {#(so, fd)#}\<rparr>) \<and>
     sent (daemon_of l w') = sent (the_daemon s) @ messages (server_socket l) (own_path l) (OBDIIDaemonResponseCodeSuccess, None)"
    "respond w' = respond w" "daemonSocket (globals w) \<noteq> - 1 \<longrightarrow> daemonSocket (globals w') \<noteq> - 1"
proof -
  from assms(1) obtain t where t: "represents n (the_daemon s) t" "tallies t (uses s)"
    and u: "\<forall>(so, fd) \<in># users s. shared so \<noteq> 0 \<and> loggable (socket_key so)"
    unfolding accounted_def by blast
  have so: "shared so \<noteq> 0" "loggable (socket_key so)" using u assms(3) by auto
  let ?s = "\<lambda>d. s\<lparr>the_daemon := d, users := users s - {#(so, fd)#}\<rparr>"
  let ?U = "image_mset (\<lambda>(so, fd). (socket_key so, fd)) (users s - {#(so, fd)#}) + lost s"
  from t(2) obtain t' where t': "request_close (socket_key so) t = (t', OBDIIDaemonResponseCodeSuccess, None)" "tallies t' ?U"
    unfolding uses_user [OF assms(3)] by (rule tallies_close)
  from close_attached [OF assms(4), of n t so] t(1) assms(2,5) so obtain r w' where
    w': "OBDIICloseSocket (Some so) w = Inr ((r, Some so), w')"
      "requested l (OBDIIDaemonRequestCloseSocket, socket_key so, new_socket (socket_key so) (the_daemon s)) n t r w w'" by auto
  moreover have "accounted (Suc n) (?s d)" if "represents (Suc n) d t'" for d
    using that t'(2) u unfolding accounted_def uses_def by (auto dest: in_diffD)
  ultimately show ?thesis using that [OF w'(1)] t'(1) assms(5) by (auto simp: requested_def)
qed

lemma accounted_step:
  assumes "community_step interfaces s s'" "accounted n s" "int n < 2 ^ 31 - 1"
  shows "accounted (Suc n) s'"
  using assms(1)
proof cases
  case (opens l w k ifname tx rx share so r so' w' fd)
  from assms(2) obtain t where t: "represents n (the_daemon s) t" "tallies t (uses s)"
    and u: "\<forall>(so, fd) \<in># users s. shared so \<noteq> 0 \<and> loggable (socket_key so)"
    unfolding accounted_def by blast
  let ?q = "(OBDIIDaemonRequestOpenSocket, k, new_socket k (the_daemon s))"
  obtain t' code f where p: "perform_request ?q t = (t', code, f)" by (metis prod_cases3)
  have share: "share \<noteq> 0" using opens(7) by auto
  from open_attached [OF opens(2), of n t ifname share tx rx t' code f so] opens(3,5,6,8) t(1) assms(3) share p
  have q: "requested l ?q n t r w w'" "socket_key so' = k" "shared so' = word_of_int share"
    by (auto simp: opens(9))
  from q(1) opens(3) p consider (no) "daemon_of l w' = the_daemon s" "r = - 1"
    | (yes) "represents (Suc n) (daemon_of l w') t'" "sent (daemon_of l w') = sent (the_daemon s) @ messages (server_socket l) (own_path l) (code, f)"
        "r = 0 \<longrightarrow> code = OBDIIDaemonResponseCodeSuccess"
    by (auto simp: requested_def)
  then show ?thesis
  proof cases
    case no
    then have "fd = None" using opens(10) passed_none by simp
    with no t u represents_mono [OF t(1), of "Suc n"] show ?thesis
      unfolding opens(1) accounted_def uses_def by auto
  next
    case yes
    have fd: "fd = f" using passed_messages [OF yes(2)] opens(10) by simp
    show ?thesis
    proof (cases f)
      case None
      then have "t' = t" "r \<noteq> 0" using p yes(3) by (auto simp: request_open_def split: option.splits)
      with None yes(1) t u fd show ?thesis unfolding opens(1) accounted_def uses_def by auto
    next
      case (Some g)
      have "tallies t' (add_mset (k, g) (uses s))" using tallies_open [OF t(2)] p Some by simp
      with Some fd yes(1) u q(2,3) opens(7,8) show ?thesis unfolding opens(1) accounted_def uses_def by auto
    qed
  qed
next
  case (closes l w so fd r so' w')
  from user_closes [OF assms(2,3) closes(5,2,3)] obtain r' v where
    v: "OBDIICloseSocket (Some so) w = Inr ((r', Some so), v)"
      "unsent v \<and> daemon_of l v = the_daemon s \<and> r' = - 1 \<or>
       accounted (Suc n) (s\<lparr>the_daemon := daemon_of l v, users := users s - {#(so, fd)#}\<rparr>) \<and>
       sent (daemon_of l v) = sent (the_daemon s) @ messages (server_socket l) (own_path l) (OBDIIDaemonResponseCodeSuccess, None)" .
  have "v = w'" using v(1) closes(6) by simp
  from v(2) show ?thesis
  proof (elim disjE conjE)
    assume "daemon_of l v = the_daemon s"
    moreover from assms(2) represents_mono [of n _ _ "Suc n"] have "accounted (Suc n) s" unfolding accounted_def by auto
    ultimately show ?thesis unfolding closes(1) \<open>v = w'\<close> by (simp add: accounted_def uses_def)
  next
    assume "accounted (Suc n) (s\<lparr>the_daemon := daemon_of l v, users := users s - {#(so, fd)#}\<rparr>)"
      "sent (daemon_of l v) = sent (the_daemon s) @ messages (server_socket l) (own_path l) (OBDIIDaemonResponseCodeSuccess, None)"
    then show ?thesis unfolding closes(1) \<open>v = w'\<close> by (simp add: messages_def)
  qed
next
  case (exits so fd)
  have "uses s = uses s'" using uses_user [OF exits(2)] by (simp add: exits(1) uses_def)
  with assms(2) represents_mono [of n _ _ "Suc n"] show ?thesis
    unfolding accounted_def by (auto simp: exits(1) dest: in_diffD)
qed

lemma accounted_steps:
  assumes "(community_step interfaces ^^ n) s s'" "accounted m s" "int (m + n) < 2 ^ 31"
  shows "accounted (m + n) s'"
  using assms
proof (induction n arbitrary: s')
  case (Suc n)
  then obtain v where v: "(community_step interfaces ^^ n) s v" "community_step interfaces v s'" by auto
  from accounted_step [OF v(2) Suc.IH [OF v(1) Suc.prems(2)]] Suc.prems(3) show ?case by simp
qed simp

lemma founded_accounted: "founded s \<Longrightarrow> accounted 0 s"
  by (auto simp: founded_def accounted_def uses_def tallies_def reference_count_of_def)

lemma lost_grows: "community_step interfaces s s' \<Longrightarrow> lost s \<subseteq># lost s'"
  by (cases rule: community_step.cases) auto

lemma lost_grow: "(community_step interfaces ^^ n) s s' \<Longrightarrow> lost s \<subseteq># lost s'"
  by (induction n arbitrary: s') (auto dest: lost_grows intro: subset_mset.trans)

text \<open>What a state that is accounted for says of the daemon.\<close>

lemma represents_table: "represents m w t \<Longrightarrow> table_of w = t"
  by (auto simp: represents_def holds_table_of)

lemma represents_finite: "represents m w t \<Longrightarrow> finite (dom t)"
  by (auto simp: represents_def entries_def finite_dom_map_of)

lemma accounted_table: "accounted n s \<Longrightarrow> represents n (the_daemon s) (table_of (the_daemon s)) \<and>
    tallies (table_of (the_daemon s)) (uses s)"
  using represents_table by (auto simp: accounted_def)

lemma table_descriptor:
  assumes "represents n d t" "t k = Some (fd, c)"
  shows "1 \<le> c" "fd \<in># opened_fds (history d) - closed_fds (history d)"
proof -
  show "1 \<le> c" using countedD [OF represents_counted [OF assms(1)] assms(2)] .
  have "k \<in># mset_set (dom t)" using represents_finite [OF assms(1)] assms(2) by auto
  then have "(\<lambda>k. fst (the (t k))) k \<in># descriptors t" unfolding descriptors_def by (rule imageI [of _ "set_mset _", folded set_image_mset])
  with assms(2) represents_descriptors [OF assms(1)] represents_table [OF assms(1)] show "fd \<in># opened_fds (history d) - closed_fds (history d)" by simp
qed

lemma accounted_use:
  assumes "accounted n s" "(k, fd) \<in># uses s"
  shows "\<exists>c. table_of (the_daemon s) k = Some (fd, c) \<and> 1 \<le> c"
    and "fd \<in># opened_fds (history (the_daemon s)) - closed_fds (history (the_daemon s))"
proof -
  note t = accounted_table [OF assms(1)]
  from talliesD [OF conjunct2 [OF t] assms(2)] obtain c where c: "table_of (the_daemon s) k = Some (fd, c)" ..
  with table_descriptor [OF conjunct1 [OF t] c] show "\<exists>c. table_of (the_daemon s) k = Some (fd, c) \<and> 1 \<le> c"
    "fd \<in># opened_fds (history (the_daemon s)) - closed_fds (history (the_daemon s))" by blast+
qed

lemma accounted_empty:
  assumes "accounted n s" "users s = {#}" "lost s = {#}"
  shows "table_of (the_daemon s) = Map.empty \<and> obdiiSockets (globals (the_daemon s)) = None \<and>
    opened_fds (history (the_daemon s)) = closed_fds (history (the_daemon s))"
proof -
  let ?d = "the_daemon s" and ?t = "table_of (the_daemon s)"
  have t: "represents n ?d ?t" "tallies ?t {#}" using accounted_table [OF assms(1)] assms(2,3) by (auto simp: uses_def)
  have "?t k = None" for k
  proof (rule ccontr)
    assume "?t k \<noteq> None"
    then obtain fd c where "?t k = Some (fd, c)" by (metis not_Some_eq prod.exhaust)
    moreover from table_descriptor(1) [OF t(1) this] have "1 \<le> c" .
    ultimately show False using tallies_count [OF t(2), of k] by (simp add: reference_count_of_def)
  qed
  then have e: "?t = Map.empty" by blast
  moreover have "opened_fds (history ?d) = closed_fds (history ?d)"
    using represents_descriptors [OF t(1)] by (simp add: e descriptors_def)
  moreover from t(1) e obtain xs where "holds ?d xs" "entries xs = Map.empty" by (auto simp: represents_def)
  then have "obdiiSockets (globals ?d) = None" using empty_eq_map_of_iff [of "map snd xs"] by (simp add: holds_def entries_def)
  ultimately show ?thesis by blast
qed

text \<open>All sockets in use can be closed, one after the other: by a client on a kernel on which nothing fails.\<close>

definition visitor :: "(string \<Rightarrow> nat) \<Rightarrow> daemon \<Rightarrow> link" where
  "visitor interfaces d = (link_to d)\<lparr>interface_number := interfaces\<rparr>"

definition visiting :: "link \<Rightarrow> world" where
  "visiting l = \<lparr>w_heap = empty_heap, globals = initial_globals\<lparr>daemonSocket := 4\<rparr>, history = [], respond = ideal l\<rparr>"

lemma visitor_attached: "attached (visitor interfaces d) (visiting (visitor interfaces d))"
  "daemon_of (visitor interfaces d) (visiting (visitor interfaces d)) = d" "interface_number (visitor interfaces d) = interfaces"
  "respond (visiting l) = ideal l" "daemonSocket (globals (visiting l)) \<noteq> - 1"
  using ideal_delivering [of "visitor interfaces d"] by (simp_all add: attached_def visitor_def visiting_def daemon_of_def)

lemma users_close:
  assumes "accounted n s" "int (n + size (users s)) < 2 ^ 31"
  shows "\<exists>s'. (community_step interfaces ^^ size (users s)) s s' \<and> users s' = {#} \<and> lost s' = lost s"
  using assms
proof (induction "size (users s)" arbitrary: n s)
  case 0
  then show ?case by (intro exI [of _ s]) simp
next
  case (Suc m)
  then obtain so fd where so: "(so, fd) \<in># users s" by (metis Zero_not_Suc multiset_nonemptyE size_empty surj_pair)
  have n: "int n < 2 ^ 31 - 1" using Suc.hyps(2) Suc.prems(2) by simp
  let ?l = "visitor interfaces (the_daemon s)"
  let ?s = "\<lambda>w. s\<lparr>the_daemon := daemon_of ?l w, users := users s - {#(so, fd)#}\<rparr>"
  from user_closes [OF Suc.prems(1) n so visitor_attached(1,2)] obtain r w' where
    w': "OBDIICloseSocket (Some so) (visiting ?l) = Inr ((r, Some so), w')"
      "unsent w' \<and> daemon_of ?l w' = the_daemon s \<and> r = - 1 \<or> accounted (Suc n) (?s w') \<and>
       sent (daemon_of ?l w') = sent (the_daemon s) @ messages (server_socket ?l) (own_path ?l) (OBDIIDaemonResponseCodeSuccess, None)"
      "respond w' = ideal ?l" "daemonSocket (globals w') \<noteq> - 1" using visitor_attached(4,5) by metis
  from w'(2) ideal_sends [OF w'(3,4)] have a: "accounted (Suc n) (?s w')" "sent (daemon_of ?l w') \<noteq> sent (the_daemon s)"
    by (auto simp: messages_def)
  have step: "community_step interfaces s (?s w')"
    using community_step.closes [OF visitor_attached(1-3) so w'(1)] a(2) by simp
  have m: "m = size (users (?s w'))" using Suc.hyps(2) so by (simp add: size_Diff_singleton)
  from Suc.hyps(1) [OF m a(1)] m Suc.hyps(2) Suc.prems(2) obtain s' where
    "(community_step interfaces ^^ m) (?s w') s'" "users s' = {#}" "lost s' = lost s" by auto
  moreover from this(1) step have "(community_step interfaces ^^ Suc m) s s'" by (rule relpowp_Suc_I2 [rotated])
  ultimately show ?case unfolding Suc.hyps(2) [symmetric] by blast
qed

section \<open>Properties\<close>


text \<open>C12. As long as no socket was lost: when the last client has closed its last socket, the daemon has no
  connection left and has closed every CAN socket it opened; and there is always a way there, on which the
  sockets in use are closed one by one.\<close>

theorem community_releases:
  assumes "founded s\<^sub>0" "(community_step interfaces ^^ n) s\<^sub>0 s" "int (n + size (users s)) < 2 ^ 31" "lost s = {#}"
  shows "(users s = {#} \<longrightarrow> table_of (the_daemon s) = Map.empty \<and> obdiiSockets (globals (the_daemon s)) = None \<and>
      opened_fds (history (the_daemon s)) = closed_fds (history (the_daemon s))) \<and>
    (\<exists>s'. (community_step interfaces ^^ size (users s)) s s' \<and> users s' = {#} \<and>
      table_of (the_daemon s') = Map.empty \<and> obdiiSockets (globals (the_daemon s')) = None \<and>
      opened_fds (history (the_daemon s')) = closed_fds (history (the_daemon s')))"
proof -
  have a: "accounted n s" using accounted_steps [OF assms(2) founded_accounted [OF assms(1)]] assms(3) by simp
  from users_close [OF a assms(3), of interfaces] obtain s' where
    s': "(community_step interfaces ^^ size (users s)) s s'" "users s' = {#}" "lost s' = {#}" using assms(4) by auto
  with accounted_empty [OF accounted_steps [OF s'(1) a assms(3)]] accounted_empty [OF a] assms(4) show ?thesis by blast
qed

text \<open>C28. What is lost is never found: when a client exits without closing a shared socket, by a crash or a
  signal, or when the daemon grants an open whose answer does not arrive, then, as long as the clients
  close only what they have opened, each once, the connection stays in the daemon's table with a count of
  at least one, and the daemon keeps its CAN socket open, whatever else happens.\<close>

theorem lost_socket_stays:
  assumes "founded s\<^sub>0" "(community_step interfaces ^^ n) s\<^sub>0 s" "(k, fd) \<in># lost s"
    and "(community_step interfaces ^^ m) s s'" "int (n + m) < 2 ^ 31"
  shows "\<exists>c. table_of (the_daemon s') k = Some (fd, c) \<and> 1 \<le> c \<and>
    fd \<in># opened_fds (history (the_daemon s')) - closed_fds (history (the_daemon s'))"
proof -
  have "accounted n s" using accounted_steps [OF assms(2) founded_accounted [OF assms(1)]] assms(5) by simp
  from accounted_steps [OF assms(4) this assms(5)] have "accounted (n + m) s'" .
  moreover have "(k, fd) \<in># uses s'" using mset_subset_eqD [OF lost_grow [OF assms(4)] assms(3)] by (simp add: uses_def)
  ultimately show ?thesis using accounted_use by blast
qed

lemma descriptors_remove:
  assumes "finite (dom t)" "t k = Some (fd, c)"
  shows "descriptors t = add_mset fd (descriptors (t(k := None)))"
proof -
  have "mset_set (dom t) = add_mset k (mset_set (dom t - {k}))" using assms by (intro mset_set.remove) auto
  moreover have "image_mset (\<lambda>j. fst (the ((t(k := None)) j))) (mset_set (dom t - {k})) =
      image_mset (\<lambda>j. fst (the (t j))) (mset_set (dom t - {k}))" using assms(1) by (intro image_mset_cong) auto
  ultimately show ?thesis using assms(2) by (simp add: descriptors_def del: fun_upd_apply)
qed

text \<open>C29. \<open>OBDIICloseSocket\<close> leaves the socket as it is, so nothing keeps a client from closing it twice, and the
  daemon takes the second close for that of another client: with two clients on a connection, both closes
  of the one succeed, the daemon forgets the connection and closes its CAN socket while the other
  client still has it open, and the other's own close is refused.\<close>

theorem second_close_disconnects:
  assumes "founded s\<^sub>0" "(community_step interfaces ^^ n) s\<^sub>0 s" "int (n + 2) < 2 ^ 31 - 1"
    and "{#(so, fd), (other, fd')#} \<subseteq># users s" "socket_key other = socket_key so"
    and "reference_count_of (table_of (the_daemon s)) (socket_key so) = 2"
    and "attached l w" "daemon_of l w = the_daemon s"
    and "OBDIICloseSocket (Some so) w = Inr ((0, so'), w')" "OBDIICloseSocket so' w' = Inr ((0, so''), w'')"
  shows "table_of (daemon_of l w'') (socket_key other) = None \<and>
    opened_fds (history (the_daemon s)) - closed_fds (history (the_daemon s)) =
      add_mset fd' (opened_fds (history (daemon_of l w'')) - closed_fds (history (daemon_of l w''))) \<and>
    (\<forall>l' v. attached l' v \<and> daemon_of l' v = daemon_of l w'' \<longrightarrow>
       (\<exists>v'. OBDIICloseSocket (Some other) v = Inr ((- 1, Some other), v')))"
proof -
  let ?d = "the_daemon s" and ?t = "table_of (the_daemon s)" and ?k = "socket_key so"
  have a: "accounted n s" using accounted_steps [OF assms(2) founded_accounted [OF assms(1)]] assms(3) by simp
  note t = accounted_table [OF a]
  have in_use: "(so, fd) \<in># users s" "(other, fd') \<in># users s" using assms(4) by (auto dest: mset_subset_eqD)
  then have ok: "shared so \<noteq> 0" "loggable (socket_key so)" "shared other \<noteq> 0"
    using a unfolding accounted_def by fastforce+
  have "(?k, fd') \<in># uses s" using uses_user [OF in_use(2)] assms(5) by simp
  from talliesD [OF conjunct2 [OF t] this] obtain c where c: "?t ?k = Some (fd', c)" ..
  with assms(6) have c2: "?t ?k = Some (fd', 2)" by (simp add: reference_count_of_def)
  let ?t1 = "?t(?k \<mapsto> (fd', 1))" and ?t2 = "?t(?k := None)"
  have close1: "request_close ?k ?t = (?t1, OBDIIDaemonResponseCodeSuccess, None)"
    "request_close ?k ?t1 = (?t2, OBDIIDaemonResponseCodeSuccess, None)" using c2 by (simp_all add: request_close_def)
  have n: "int n < 2 ^ 31 - 1" "int (Suc n) < 2 ^ 31 - 1" "int (Suc (Suc n)) < 2 ^ 31 - 1" using assms(3) by simp_all
  from close_attached [OF assms(7) _ n(1) ok(1,2), of ?t] t assms(8,9) close1(1) have
    w': "so' = Some so" "attached l w'" "represents (Suc n) (daemon_of l w') ?t1" by (auto simp: requested_def)
  from close_attached [OF w'(2,3) n(2) ok(1,2)] assms(10) close1(2) have
    w'': "represents (Suc (Suc n)) (daemon_of l w'') ?t2" by (auto simp: w'(1) requested_def)
  have "\<exists>v'. OBDIICloseSocket (Some other) v = Inr ((- 1, Some other), v')"
    if v: "attached l' v" "daemon_of l' v = daemon_of l w''" for l' v
  proof -
    have "request_close (socket_key other) ?t2 = (?t2, OBDIIDaemonResponseCodeNoSuchSocket, None)"
      using assms(5) by (simp add: request_close_def)
    with close_attached [OF v(1) _ n(3) ok(3), of ?t2] v(2) w'' ok(2) assms(5) show ?thesis by (auto simp: requested_def)
  qed
  moreover have "opened_fds (history ?d) = closed_fds (history ?d) + descriptors ?t"
    "opened_fds (history (daemon_of l w'')) = closed_fds (history (daemon_of l w'')) + descriptors ?t2"
    using represents_descriptors t w'' represents_table [OF w''] by metis+
  moreover have "descriptors ?t = add_mset fd' (descriptors ?t2)"
    using descriptors_remove [OF represents_finite [OF conjunct1 [OF t]] c2] .
  ultimately show ?thesis using represents_table [OF w''] assms(5) by simp blast
qed

section \<open>Examples\<close>

definition first_community :: community where
  "first_community = \<lparr>the_daemon = daemon_with [], users = {#}, lost = {#}\<rparr>"

lemma first_founded: "founded first_community"
  by (simp add: founded_def first_community_def daemon_with_booted)

text \<open>A client opens the engine's socket on a kernel on which nothing fails.\<close>

lemma opens_step:
  assumes "accepting (the_daemon s)" "represents m (the_daemon s) t" "int m < 2 ^ 31 - 1"
    and "perform_request (OBDIIDaemonRequestOpenSocket, engine_key, new_socket engine_key (the_daemon s)) t =
      (t', OBDIIDaemonResponseCodeSuccess, Some f)"
  obtains so s' where "community_step (\<lambda>_. 3) s s'" "users s' = add_mset (so, f) (users s)" "lost s' = lost s"
    "socket_key so = engine_key" "accepting (the_daemon s')" "represents (Suc m) (the_daemon s') t'"
proof -
  let ?l = "visitor (\<lambda>_. 3) (the_daemon s)"
  have k: "engine_key = open_key ?l ''can0'' 0x7E0 0x7E8" "fst engine_key \<noteq> 0" "(1 :: int) \<noteq> 0" by (simp_all add: visitor_def)
  note v = visitor_attached(1-3) [of "\<lambda>_. 3" "the_daemon s"]
  have now: "accepting (daemon_of ?l (visiting ?l))" "represents m (daemon_of ?l (visiting ?l)) t"
    "perform_request (OBDIIDaemonRequestOpenSocket, engine_key, new_socket engine_key (daemon_of ?l (visiting ?l))) t =
      (t', OBDIIDaemonResponseCodeSuccess, Some f)" using assms by (simp_all only: v(2))
  obtain so w where w: "OBDIIOpenSocket (Some no_socket) ''can0'' 0x7E0 0x7E8 1 (visiting ?l) = Inr ((0, Some so), w)"
    "socket_key so = engine_key" "represents (Suc m) (daemon_of ?l w) t'" "accepting (daemon_of ?l w)"
    "sent (daemon_of ?l w) = sent (the_daemon s) @ messages (server_socket ?l) (own_path ?l) (OBDIIDaemonResponseCodeSuccess, Some f)"
    by (rule ideal_open [OF v(1) visitor_attached(4) now(1,2) assms(3) k loggable_engine now(3), of no_socket], rule that)
      (simp_all add: v(2))
  have "passed (the_daemon s) (daemon_of ?l w) = Some f" by (rule passed_messages [OF w(5)])
  with community_step.opens [OF v(1-3) k(1,2) _ loggable_engine w(1) refl] that w(2-4) show thesis by simp
qed

lemma one_user:
  obtains s so where "(community_step (\<lambda>_. 3) ^^ 1) first_community s" "users s = {#(so, 7)#}" "lost s = {#}"
    "socket_key so = engine_key" "accepting (the_daemon s)" "represents (Suc 0) (the_daemon s) [engine_key \<mapsto> (7, 1)]"
proof -
  have d: "the_daemon first_community = daemon_with []" "users first_community = {#}" "lost first_community = {#}"
    by (simp_all add: first_community_def)
  show thesis
    by (rule opens_step [of first_community 0 Map.empty "[engine_key \<mapsto> (7, 1)]" 7])
      (use d first_open daemon_with_booted(2) daemon_with_accepting that in \<open>auto simp: eq_OO\<close>)
qed

lemma two_users:
  obtains s so other where "(community_step (\<lambda>_. 3) ^^ 2) first_community s" "users s = {#(so, 7), (other, 7)#}" "lost s = {#}"
    "socket_key so = engine_key" "socket_key other = engine_key" "accepting (the_daemon s)"
    "represents (Suc (Suc 0)) (the_daemon s) [engine_key \<mapsto> (7, 2)]"
proof -
  obtain s so where s: "(community_step (\<lambda>_. 3) ^^ 1) first_community s" "users s = {#(so, 7)#}" "lost s = {#}"
    "socket_key so = engine_key" "accepting (the_daemon s)" "represents (Suc 0) (the_daemon s) [engine_key \<mapsto> (7, 1)]" by (rule one_user)
  have p: "perform_request (OBDIIDaemonRequestOpenSocket, engine_key, new_socket engine_key (the_daemon s)) [engine_key \<mapsto> (7, 1)] =
      ([engine_key \<mapsto> (7, 2)], OBDIIDaemonResponseCodeSuccess, Some 7)" by (simp add: request_open_def)
  have "int (Suc 0) < 2 ^ 31 - 1" by simp
  from opens_step [OF s(5,6) this p] obtain other s' where s': "community_step (\<lambda>_. 3) s s'" "users s' = add_mset (other, 7) (users s)"
    "lost s' = lost s" "socket_key other = engine_key" "accepting (the_daemon s')" "represents (Suc (Suc 0)) (the_daemon s') [engine_key \<mapsto> (7, 2)]" .
  have "(community_step (\<lambda>_. 3) ^^ 2) first_community s'" using s(1) s'(1) by (auto simp: numeral_2_eq_2 eq_OO)
  with that s s' show thesis by (simp add: add_mset_commute)
qed


theorem community_releases_witness:
  "\<exists>s s'. (community_step (\<lambda>_. 3) ^^ 1) first_community s \<and> users s \<noteq> {#} \<and> (community_step (\<lambda>_. 3) ^^ 1) s s' \<and>
    table_of (the_daemon s') = Map.empty \<and> opened_fds (history (the_daemon s')) = closed_fds (history (the_daemon s'))"
proof -
  obtain s so where s: "(community_step (\<lambda>_. 3) ^^ 1) first_community s" "users s = {#(so, 7)#}" "lost s = {#}" "socket_key so = engine_key"
    by (rule one_user)
  have "users s \<noteq> {#}" "int (1 + size (users s)) < 2 ^ 31" "size (users s) = 1" using s(2) by simp_all
  with community_releases [OF first_founded s(1) _ s(3)] s(1) show ?thesis by auto
qed

theorem lost_socket_stays_witness:
  "\<exists>s. (community_step (\<lambda>_. 3) ^^ 2) first_community s \<and> users s = {#} \<and>
    (\<exists>c. table_of (the_daemon s) engine_key = Some (7, c) \<and> 1 \<le> c)"
proof -
  obtain s so where s: "(community_step (\<lambda>_. 3) ^^ 1) first_community s" "users s = {#(so, 7)#}" "lost s = {#}" "socket_key so = engine_key"
    by (rule one_user)
  let ?s = "s\<lparr>users := users s - {#(so, 7)#}, lost := add_mset (socket_key so, 7) (lost s)\<rparr>"
  have "community_step (\<lambda>_. 3) s ?s" by (rule community_step.exits) (simp add: s(2))
  with s(1) have steps: "(community_step (\<lambda>_. 3) ^^ 2) first_community ?s" by (auto simp: numeral_2_eq_2 eq_OO)
  have lost: "(engine_key, 7) \<in># lost ?s" using s(4) by simp
  have stay: "(community_step (\<lambda>_. 3) ^^ 0) ?s ?s" by simp
  from lost_socket_stays [OF first_founded steps lost stay] have
    "\<exists>c. table_of (the_daemon ?s) engine_key = Some (7, c) \<and> 1 \<le> c" by auto
  with steps show ?thesis by (intro exI [of _ ?s]) (simp add: s(2))
qed

theorem second_close_disconnects_witness:
  "\<exists>s so other w' w''. (community_step (\<lambda>_. 3) ^^ 2) first_community s \<and> users s = {#(so, 7), (other, 7)#} \<and>
    OBDIICloseSocket (Some so) (visiting (visitor (\<lambda>_. 3) (the_daemon s))) = Inr ((0, Some so), w') \<and>
    OBDIICloseSocket (Some so) w' = Inr ((0, Some so), w'') \<and>
    table_of (daemon_of (visitor (\<lambda>_. 3) (the_daemon s)) w'') (socket_key other) = None"
proof -
  obtain s so other where s: "(community_step (\<lambda>_. 3) ^^ 2) first_community s" "users s = {#(so, 7), (other, 7)#}" "lost s = {#}"
    "socket_key so = engine_key" "socket_key other = engine_key" "accepting (the_daemon s)"
    "represents (Suc (Suc 0)) (the_daemon s) [engine_key \<mapsto> (7, 2)]" by (rule two_users)
  let ?l = "visitor (\<lambda>_. 3) (the_daemon s)"
  note v = visitor_attached(1-3) [of "\<lambda>_. 3" "the_daemon s"]
  have ok: "shared so \<noteq> 0" "loggable (socket_key so)"
    using accounted_steps [OF s(1) founded_accounted [OF first_founded]] s(2) unfolding accounted_def by simp_all
  have c: "request_close (socket_key so) [engine_key \<mapsto> (7, 2)] = ([engine_key \<mapsto> (7, 1)], OBDIIDaemonResponseCodeSuccess, None)"
    "request_close (socket_key so) [engine_key \<mapsto> (7, 1)] = (Map.empty, OBDIIDaemonResponseCodeSuccess, None)"
    by (simp_all add: s(4) request_close_def del: Pair_inject)
  have n: "int (Suc (Suc 0)) < 2 ^ 31 - 1" "int (Suc (Suc (Suc 0))) < 2 ^ 31 - 1" by simp_all
  have now: "accepting (daemon_of ?l (visiting ?l))" "represents (Suc (Suc 0)) (daemon_of ?l (visiting ?l)) [engine_key \<mapsto> (7, 2)]"
    using s(6,7) by (simp_all only: v(2))
  obtain w' where w': "OBDIICloseSocket (Some so) (visiting ?l) = Inr ((0, Some so), w')"
    "represents (Suc (Suc (Suc 0))) (daemon_of ?l w') [engine_key \<mapsto> (7, 1)]" "accepting (daemon_of ?l w')" "attached ?l w'" "respond w' = ideal ?l"
    "daemonSocket (globals w') \<noteq> - 1"
    by (rule ideal_close [OF v(1) visitor_attached(4,5) now n(1) ok c(1)], rule that)
  obtain w'' where w'': "OBDIICloseSocket (Some so) w' = Inr ((0, Some so), w'')"
    by (rule ideal_close [OF w'(4,5,6,3,2) n(2) ok c(2)], rule that)
  have r: "reference_count_of (table_of (the_daemon s)) (socket_key so) = 2"
    using represents_table [OF s(7)] by (simp add: s(4) reference_count_of_def)
  have u: "{#(so, 7), (other, 7)#} \<subseteq># users s" "socket_key other = socket_key so" "int (2 + 2) < 2 ^ 31 - 1"
    using s(2,4,5) by simp_all
  from second_close_disconnects [OF first_founded s(1) u(3) u(1,2) r v(1,2) w'(1) w''] s(1,2) w'(1) w'' show ?thesis by blast
qed

end
