(* ===== verification/Interleaving.thy ===== *)
theory Interleaving
  imports Query
begin

text \<open>
  A query as a process that offers one system call at a time, for the interleaving with other processes:
  the next call of a program after given answers, and, for \<open>OBDIIPerformQuery\<close> on a shared socket, which
  call that is in each phase.
\<close>

section \<open>A program as a process\<close>

text \<open>The kernel that repeats recorded answers, and returns \<open>0\<close> after them.\<close>

definition replay :: "history \<Rightarrow> history \<Rightarrow> call \<Rightarrow> reply" where
  "replay past hist c = (if length hist < length past then snd (past ! length hist) else returns 0)"

definition resumed :: "heap \<Rightarrow> history \<Rightarrow> world" where
  "resumed h past = \<lparr>w_heap = h, globals = initial_globals, history = [], respond = replay past\<rparr>"

definition next_call :: "'a io \<Rightarrow> heap \<Rightarrow> history \<Rightarrow> call option" where
  "next_call m h past = (case m (resumed h past) of Inl e \<Rightarrow> None
     | Inr (a, w) \<Rightarrow> if length past < length (history w) then Some (fst (history w ! length past)) else None)"

section \<open>The calls of a query on a shared socket\<close>

fun query_phase :: "OBDIISocket \<Rightarrow> OBDIICommand \<Rightarrow> history \<Rightarrow> call option" where
  "query_phase so c [] = Some (Flock (sock so) LOCK_EX)"
| "query_phase so c [l] = Some (Write (sock so) (c_payload c))"
| "query_phase so c [l, w] = Some (if ret (snd w) = int (length (c_payload c))
     then Select (sock so + 1) (sock so) 1 0 else Flock (sock so) LOCK_UN)"
| "query_phase so c [l, w, s] = (if ret (snd w) = int (length (c_payload c))
     then Some (if 0 < ret (snd s) then Read (sock so) (buffer_size c) else Flock (sock so) LOCK_UN) else None)"
| "query_phase so c [l, w, s, r] = (if ret (snd w) = int (length (c_payload c)) \<and> 0 < ret (snd s)
     then Some (Flock (sock so) LOCK_UN) else None)"
| "query_phase so c past = None"

text \<open>The commands that can be queried on an open shared socket.\<close>

definition can_query :: "OBDIISocket \<Rightarrow> command_ref \<Rightarrow> heap \<Rightarrow> bool" where
  "can_query so ref h \<longleftrightarrow> shared so \<noteq> 0 \<and> 0 \<le> sock so \<and> sock so < 1024 \<and> defined (deref ref) \<and> ref \<noteq> Mode9Command 1 \<and>
     (ref = Mode3Command \<longrightarrow> grants h (next_addr h))"

text \<open>The reads of a history stored as many bytes as they returned.\<close>

definition stored :: "call \<times> reply \<Rightarrow> bool" where
  "stored x \<longleftrightarrow> (case fst x of Read fd n \<Rightarrow> ret (snd x) \<le> int n \<and> length (bytes (snd x)) = nat (ret (snd x)) | _ \<Rightarrow> True)"

text \<open>A past of a query: each call is the one the query makes after the answers before it.\<close>

definition follows :: "OBDIISocket \<Rightarrow> OBDIICommand \<Rightarrow> history \<Rightarrow> bool" where
  "follows so c past \<longleftrightarrow> (\<forall>n < length past. query_phase so c (take n past) = Some (fst (past ! n)) \<and> stored (past ! n))"

lemma follows_snoc [simp]:
  "follows so c (past @ [x]) \<longleftrightarrow> follows so c past \<and> query_phase so c past = Some (fst x) \<and> stored x"
  by (auto simp: follows_def nth_append less_Suc_eq)

lemma follows_Nil [simp]: "follows so c []"
  by (simp add: follows_def)

lemma phase_end: "length past = 5 \<Longrightarrow> query_phase so c past = None"
  by (auto simp: length_Suc_conv numeral_eq_Suc)

lemma follows_short: "follows so c past \<Longrightarrow> length past \<le> 5"
proof (rule ccontr)
  assume f: "follows so c past" and "\<not> length past \<le> 5"
  then have n: "5 < length past" by simp
  with f have "query_phase so c (take 5 past) \<noteq> None" unfolding follows_def by fastforce
  then show False using phase_end [of "take 5 past"] n by simp
qed

text \<open>The request was sent, and the socket became readable.\<close>

abbreviation sent_ok :: "OBDIICommand \<Rightarrow> reply \<Rightarrow> bool" where
  "sent_ok c w \<equiv> ret w = int (length (c_payload c))"

lemma follows_cases:
  assumes "follows so c past"
  obtains (idle) "past = []"
    | (locked) l where "past = [(Flock (sock so) LOCK_EX, l)]"
    | (written) l w where "past = [(Flock (sock so) LOCK_EX, l), (Write (sock so) (c_payload c), w)]"
    | (unsent) l w u where "past = [(Flock (sock so) LOCK_EX, l), (Write (sock so) (c_payload c), w), (Flock (sock so) LOCK_UN, u)]"
        "\<not> sent_ok c w"
    | (selected) l w s where "past = [(Flock (sock so) LOCK_EX, l), (Write (sock so) (c_payload c), w), (Select (sock so + 1) (sock so) 1 0, s)]"
        "sent_ok c w"
    | (unready) l w s u where "past = [(Flock (sock so) LOCK_EX, l), (Write (sock so) (c_payload c), w), (Select (sock so + 1) (sock so) 1 0, s),
          (Flock (sock so) LOCK_UN, u)]" "sent_ok c w" "\<not> 0 < ret s"
    | (reads) l w s r where "past = [(Flock (sock so) LOCK_EX, l), (Write (sock so) (c_payload c), w), (Select (sock so + 1) (sock so) 1 0, s),
          (Read (sock so) (buffer_size c), r)]" "sent_ok c w" "0 < ret s" "ret r \<le> int (buffer_size c)" "length (bytes r) = nat (ret r)"
    | (ended) l w s r u where "past = [(Flock (sock so) LOCK_EX, l), (Write (sock so) (c_payload c), w), (Select (sock so + 1) (sock so) 1 0, s),
          (Read (sock so) (buffer_size c), r), (Flock (sock so) LOCK_UN, u)]" "sent_ok c w" "0 < ret s"
          "ret r \<le> int (buffer_size c)" "length (bytes r) = nat (ret r)"
proof -
  from follows_short [OF assms] consider "past = []" | a where "past = [a]" | a b where "past = [a, b]"
    | a b d where "past = [a, b, d]" | a b d e where "past = [a, b, d, e]" | a b d e f where "past = [a, b, d, e, f]"
    by (auto simp: le_Suc_eq numeral_eq_Suc length_Suc_conv)
  then show ?thesis using assms that
    by cases (auto simp: follows_def All_less_Suc2 stored_def prod_eq_iff split: if_splits)
qed

lemma resumed_simps [simp]: "w_heap (resumed h past) = h" "history (resumed h past) = []"
  "respond (resumed h past) = replay past" "globals (resumed h past) = initial_globals"
  by (simp_all add: resumed_def)

lemma can_query_cases:
  assumes "can_query so ref h" "deref ref = Inr c" "ret r \<le> int (buffer_size c)" "length (bytes r) = nat (ret r)"
  obtains a h' where "OBDIIDecodeResponseForCommand (Some ref) (Some (bytes r)) (ret r) h = Inr (a, h')"
proof -
  have "ret r \<le> int (length (bytes r))" "ret r < 2 ^ 31"
    using assms(3,4) buffer_size_bound [OF assms(2)] by simp_all
  from decode_total [OF assms(2) _ this] assms(1) that show ?thesis unfolding can_query_def by blast
qed

lemma payload_pos: "deref ref = Inr c \<Longrightarrow> 0 < length (c_payload c)"
  by (erule deref_cases) (simp_all add: mode1_payload mode3_entry OBDIIMode9Commands_def)

text \<open>After any past, the next call of the query is the one of its phase; when there is none, the query has
  returned and the past is its whole history.\<close>

lemma query_resumed:
  assumes "can_query so ref h" "deref ref = Inr c" "follows so c past"
  shows "next_call (OBDIIPerformQuery (Some so) (Some ref)) h past = query_phase so c past \<and>
    (query_phase so c past = None \<longrightarrow>
       (\<exists>a w. OBDIIPerformQuery (Some so) (Some ref) (resumed h past) = Inr (a, w) \<and> history w = past))"
proof -
  have so: "shared so \<noteq> 0" "0 \<le> sock so" "sock so < 1024" using assms(1) by (simp_all add: can_query_def)
  note d = can_query_cases [OF assms(1,2)]
  obtain a h' where none: "OBDIIDecodeResponseForCommand (Some ref) (Some []) 0 h = Inr (a, h')"
    using d [of "returns 0"] by (auto simp: returns_def)
  note defs = next_call_def OBDIIPerformQuery_def Let_def io_simps FD_SET_def run_calls.simps replay_def lock_calls_def unlock_calls_def
    buffer_size_def VARIABLE_RESPONSE_LENGTH_def MAX_ISOTP_PAYLOAD_def assms(2) returns_def on_heap_def
  note simps = so payload_pos [OF assms(2)] defs
  show ?thesis
    using assms(3)
  proof (cases rule: follows_cases)
    case (selected l w s)
    then show ?thesis using none by (simp add: simps)
  next
    case (reads l w s r)
    obtain b k where "OBDIIDecodeResponseForCommand (Some ref) (Some (bytes r)) (ret r) h = Inr (b, k)" 
      using d [OF reads(4,5)] by blast
    with reads show ?thesis by (simp add: simps)
  next
    case (ended l w s r u)
    obtain b k where "OBDIIDecodeResponseForCommand (Some ref) (Some (bytes r)) (ret r) h = Inr (b, k)" 
      using d [OF ended(4,5)] by blast
    with ended show ?thesis by (simp add: simps)
  qed (simp_all add: simps)
qed

end
