(* ===== verification/Exclusion.thy ===== *)
theory Exclusion
  imports Interleaving
begin

text \<open>
  Any number of processes that query one vehicle through shared sockets, their calls interleaved in any
  order, and what happens when they share an open file description, as they do when the daemon passes
  them its descriptor.
\<close>

section \<open>Clients and the kernel\<close>

text \<open>A process that queries one command after the other: the socket, the open file description behind
  its descriptor, the command of the current query, the heap it runs on, and its calls so far.\<close>

record client =
  cl_socket :: OBDIISocket
  cl_description :: nat
  cl_command :: command_ref
  cl_heap :: heap
  cl_past :: history

definition client_call :: "client \<Rightarrow> call option" where
  "client_call p = next_call (OBDIIPerformQuery (Some (cl_socket p)) (Some (cl_command p))) (cl_heap p) (cl_past p)"

definition client_ok :: "client \<Rightarrow> bool" where
  "client_ok p \<longleftrightarrow> can_query (cl_socket p) (cl_command p) (cl_heap p)"

text \<open>The kernel: for each file, here a socket, the open file description that holds its lock, and the
  messages that wait on it.\<close>

record kernel_state =
  holder :: "nat \<Rightarrow> nat option"
  inbox :: "nat \<Rightarrow> byte list list"

text \<open>Calls that do not return at once, on the description \<open>d\<close>; \<open>file_of\<close> gives the file that a
  description refers to.\<close>

definition blocked :: "(nat \<Rightarrow> nat) \<Rightarrow> nat \<Rightarrow> call \<Rightarrow> kernel_state \<Rightarrow> bool" where
  "blocked file_of d c k = (case c of
     Flock fd LOCK_EX \<Rightarrow> holder k (file_of d) \<noteq> None \<and> holder k (file_of d) \<noteq> Some d
   | Read fd n \<Rightarrow> inbox k (file_of d) = []
   | _ \<Rightarrow> False)"

text \<open>The documented behaviour of \<open>flock(2)\<close>, whose locks are on files and belong to open file descriptions,
  and of datagram sockets. Waiting for the lock can be interrupted, \<open>write\<close> and \<open>select\<close> can fail, and
  \<open>select\<close> only reports a socket readable on which a message waits.\<close>

inductive documented_call :: "(nat \<Rightarrow> nat) \<Rightarrow> nat \<Rightarrow> call \<Rightarrow> kernel_state \<Rightarrow> reply \<Rightarrow> kernel_state \<Rightarrow> bool" for file_of d where
  lock: "\<not> blocked file_of d (Flock fd LOCK_EX) k \<Longrightarrow>
    documented_call file_of d (Flock fd LOCK_EX) k (returns 0) (k\<lparr>holder := (holder k)(file_of d := Some d)\<rparr>)"
| lock_interrupted: "documented_call file_of d (Flock fd LOCK_EX) k (returns (- 1)) k"
| unlock: "documented_call file_of d (Flock fd LOCK_UN) k (returns 0)
    (k\<lparr>holder := if holder k (file_of d) = Some d then (holder k)(file_of d := None) else holder k\<rparr>)"
| written: "n \<le> int (length p) \<Longrightarrow> documented_call file_of d (Write fd p) k (returns n) k"
| readable: "inbox k (file_of d) \<noteq> [] \<Longrightarrow> documented_call file_of d (Select n fd sec usec) k (returns 1) k"
| timeout: "r \<le> 0 \<Longrightarrow> documented_call file_of d (Select n fd sec usec) k (returns r) k"
| taken: "inbox k (file_of d) = p # ps \<Longrightarrow> documented_call file_of d (Read fd n) k
    ((returns (int (length (take n p))))\<lparr>bytes := take n p\<rparr>) (k\<lparr>inbox := (inbox k)(file_of d := ps)\<rparr>)"
| read_fails: "documented_call file_of d (Read fd n) k (returns (- 1)) k"

inductive_simps call_simps: "documented_call file_of d (Flock fd LOCK_EX) k r k'" "documented_call file_of d (Flock fd LOCK_UN) k r k'"
  "documented_call file_of d (Write fd p) k r k'" "documented_call file_of d (Select n fd sec usec) k r k'"
  "documented_call file_of d (Read fd n) k r k'"

section \<open>Steps\<close>

record system =
  clients :: "client list"
  kern :: kernel_state

text \<open>A client makes its next call, a client whose query has returned starts another, or a message
  arrives.\<close>

inductive client_step :: "(nat \<Rightarrow> nat) \<Rightarrow> system \<Rightarrow> system \<Rightarrow> bool" for file_of where
  call: "i < length (clients s) \<Longrightarrow> p = clients s ! i \<Longrightarrow> client_call p = Some c \<Longrightarrow>
     documented_call file_of (cl_description p) c (kern s) r k \<Longrightarrow>
     client_step file_of s \<lparr>clients = (clients s)[i := p\<lparr>cl_past := cl_past p @ [(c, r)]\<rparr>], kern = k\<rparr>"
| again: "i < length (clients s) \<Longrightarrow> p = clients s ! i \<Longrightarrow> client_call p = None \<Longrightarrow> can_query (cl_socket p) ref h \<Longrightarrow>
     client_step file_of s (s\<lparr>clients := (clients s)[i := p\<lparr>cl_command := ref, cl_heap := h, cl_past := []\<rparr>]\<rparr>)"
| arrival: "client_step file_of s (s\<lparr>kern := (kern s)\<lparr>inbox := (inbox (kern s))(f := inbox (kern s) f @ [p])\<rparr>\<rparr>)"

definition idle_kernel :: kernel_state where
  "idle_kernel = \<lparr>holder = (\<lambda>f. None), inbox = (\<lambda>f. [])\<rparr>"

inductive reachable :: "(nat \<Rightarrow> nat) \<Rightarrow> client list \<Rightarrow> system \<Rightarrow> bool" for file_of ps where
  start: "\<forall>p \<in> set ps. client_ok p \<and> cl_past p = [] \<Longrightarrow> reachable file_of ps \<lparr>clients = ps, kern = idle_kernel\<rparr>"
| more: "reachable file_of ps s \<Longrightarrow> client_step file_of s s' \<Longrightarrow> reachable file_of ps s'"

text \<open>Between a lock that was granted and the unlock.\<close>

definition inside :: "client \<Rightarrow> bool" where
  "inside p \<longleftrightarrow> (\<exists>fd r. (Flock fd LOCK_EX, r) \<in> set (cl_past p) \<and> ret r = 0) \<and> (\<forall>fd r. (Flock fd LOCK_UN, r) \<notin> set (cl_past p))"

section \<open>One client\<close>

text \<open>The client's calls are those of its query.\<close>

definition proper :: "client \<Rightarrow> bool" where
  "proper p \<longleftrightarrow> client_ok p \<and> (\<exists>c. deref (cl_command p) = Inr c \<and> follows (cl_socket p) c (cl_past p))"

lemma properE:
  assumes "proper p"
  obtains c where "deref (cl_command p) = Inr c" "follows (cl_socket p) c (cl_past p)"
    "client_call p = query_phase (cl_socket p) c (cl_past p)"
  using assms query_resumed unfolding proper_def client_ok_def client_call_def by metis

lemma proper_call:
  assumes "proper p" "client_call p = Some c" "documented_call file_of d c k r k'"
  shows "proper (p\<lparr>cl_past := cl_past p @ [(c, r)]\<rparr>)"
proof -
  have "stored (c, r)" using assms(3) by cases (auto simp: stored_def returns_def)
  with assms(1,2) show ?thesis using query_resumed
    by (auto simp: proper_def client_ok_def client_call_def)
qed

lemma client_fresh:
  assumes "can_query (cl_socket p) ref h"
  shows "proper (p\<lparr>cl_command := ref, cl_heap := h, cl_past := []\<rparr>)"
    "client_call (p\<lparr>cl_command := ref, cl_heap := h, cl_past := []\<rparr>) = Some (Flock (sock (cl_socket p)) LOCK_EX)"
proof -
  obtain c where c: "deref ref = Inr c" using assms by (auto simp: can_query_def defined_iff)
  then show "proper (p\<lparr>cl_command := ref, cl_heap := h, cl_past := []\<rparr>)"
    using assms by (simp add: proper_def client_ok_def)
  show "client_call (p\<lparr>cl_command := ref, cl_heap := h, cl_past := []\<rparr>) = Some (Flock (sock (cl_socket p)) LOCK_EX)"
    using query_resumed [OF assms c, of "[]"] by (simp add: client_call_def)
qed

lemma step_proper: "client_step file_of s s' \<Longrightarrow> \<forall>p \<in> set (clients s). proper p \<Longrightarrow> \<forall>p \<in> set (clients s'). proper p"
proof (induction rule: client_step.induct)
  case (call i s p c r k)
  then have "proper (p\<lparr>cl_past := cl_past p @ [(c, r)]\<rparr>)" by (intro proper_call) auto
  then show ?case using call.prems by (auto dest: subsetD [OF set_update_subset_insert])
next
  case (again i s p ref h)
  from client_fresh(1) [OF again.hyps(4)] again.prems show ?case
    by (auto dest: subsetD [OF set_update_subset_insert])
qed simp

lemma reachable_proper: "reachable file_of ps s \<Longrightarrow> p \<in> set (clients s) \<Longrightarrow> proper p"
proof (induction arbitrary: p rule: reachable.induct)
  case start
  then show ?case by (auto simp: proper_def client_ok_def can_query_def defined_iff)
next
  case (more s s')
  then show ?case using step_proper by blast
qed

lemma reach_call:
  assumes "reachable file_of ps s" "i < length (clients s)" "clients s ! i = p" "deref (cl_command p) = Inr c"
    and "query_phase (cl_socket p) c (cl_past p) = Some x" "documented_call file_of (cl_description p) x (kern s) r k"
    and "s' = \<lparr>clients = (clients s)[i := p\<lparr>cl_past := cl_past p @ [(x, r)]\<rparr>], kern = k\<rparr>"
  shows "reachable file_of ps s'"
proof -
  have "proper p" using reachable_proper [OF assms(1)] assms(2,3) by auto
  then have "client_call p = Some x" using assms(4,5) by (auto elim!: properE)
  from reachable.more [OF assms(1) client_step.call [OF assms(2) assms(3)[symmetric] this assms(6)]] assms(7) show ?thesis by simp
qed

section \<open>Two clients with one description\<close>

definition querying :: "nat \<Rightarrow> history \<Rightarrow> client" where
  "querying pid past = \<lparr>cl_socket = shared_socket, cl_description = 0, cl_command = Mode1Command pid, cl_heap = empty_heap,
     cl_past = past\<rparr>"

lemma querying_simps [simp]: "cl_socket (querying pid past) = shared_socket" "cl_description (querying pid past) = 0"
  "cl_command (querying pid past) = Mode1Command pid" "cl_heap (querying pid past) = empty_heap"
  "cl_past (querying pid past) = past" "querying a past = querying b past' \<longleftrightarrow> a = b \<and> past = past'" "(querying pid past)\<lparr>cl_past := past'\<rparr> = querying pid past'"
  by (simp_all add: querying_def)

lemma speed_command: "deref (Mode1Command 13) = Inr (OBDIIMode1Commands ! 13)" "c_payload (OBDIIMode1Commands ! 13) = [1, 13]"
  "buffer_size (OBDIIMode1Commands ! 13) = 3" "deref (Mode1Command 12) = Inr (OBDIIMode1Commands ! 12)" "c_payload (OBDIIMode1Commands ! 12) = [1, 12]"
  "buffer_size (OBDIIMode1Commands ! 12) = 4"
  by (simp_all add: mode1_deref mode1_payload) (simp_all add: buffer_size_def OBDIIMode1Commands_def)

definition rpm_past :: history where
  "rpm_past = [(Flock 5 LOCK_EX, returns 0), (Write 5 [1, 12], returns 2), (Select 6 5 1 0, returns 1)]"

definition speed_past :: history where
  "speed_past = [(Flock 5 LOCK_EX, returns 0), (Write 5 [1, 13], returns 2), (Select 6 5 1 0, returns 1),
     (Read 5 3, (returns 3)\<lparr>bytes := [0x41, 0x0C, 0x1A]\<rparr>), (Flock 5 LOCK_UN, returns 0)]"

lemma returns_eq: "returns a = returns b \<longleftrightarrow> a = b" "ret (returns a) = a"
  by (simp_all add: returns_def)

lemma querying_call:
  assumes "reachable file_of ps \<lparr>clients = cs, kern = k\<rparr>" "i < length cs" "cs ! i = querying pid past" "pid \<in> {12, 13}"
    and "query_phase shared_socket (OBDIIMode1Commands ! pid) past = Some x" "documented_call file_of 0 x k r k'"
  shows "reachable file_of ps \<lparr>clients = cs[i := querying pid (past @ [(x, r)])], kern = k'\<rparr>"
  using assms by (intro reach_call [OF assms(1), of i "querying pid past" "OBDIIMode1Commands ! pid" x r k']) (auto simp: mode1_deref)

lemma crossed_run:
  "reachable file_of [querying 12 [], querying 13 []] \<lparr>clients = [querying 12 rpm_past, querying 13 speed_past], kern = idle_kernel\<rparr>"
    (is "reachable file_of ?ps _")
proof -
  let ?r = "[[0x41, 0x0C, 0x1A, 0xF8]] :: byte list list"
  let ?k = "\<lambda>l i. \<lparr>holder = (\<lambda>f. None)(file_of 0 := l), inbox = (\<lambda>f. [])(file_of 0 := i)\<rparr>"
  let ?s = "\<lambda>n m l i. \<lparr>clients = [querying 12 (take n rpm_past), querying 13 (take m speed_past)], kern = ?k l i\<rparr>"
  note simps = rpm_past_def speed_past_def call_simps speed_command blocked_def returns_eq
  have "reachable file_of ?ps (?s 0 0 None [])"
    using reachable.start [of ?ps file_of] by (auto simp: idle_kernel_def client_ok_def can_query_def mode1_deref fun_upd_idem)
  from querying_call [OF this, of 0 12 "take 0 rpm_past" _ "returns 0" "?k (Some 0) []"]
  have "reachable file_of ?ps (?s 1 0 (Some 0) [])" by (simp add: simps)
  from querying_call [OF this, of 1 13 "take 0 speed_past" _ "returns 0" "?k (Some 0) []"]
  have "reachable file_of ?ps (?s 1 1 (Some 0) [])" by (simp add: simps)
  from querying_call [OF this, of 0 12 "take 1 rpm_past" _ "returns 2" "?k (Some 0) []"]
  have "reachable file_of ?ps (?s 2 1 (Some 0) [])" by (simp add: simps)
  from querying_call [OF this, of 1 13 "take 1 speed_past" _ "returns 2" "?k (Some 0) []"]
  have "reachable file_of ?ps (?s 2 2 (Some 0) [])" by (simp add: simps)
  from reachable.more [OF this client_step.arrival [of file_of _ "file_of 0" "?r ! 0"]]
  have "reachable file_of ?ps (?s 2 2 (Some 0) ?r)" by simp
  from querying_call [OF this, of 0 12 "take 2 rpm_past" _ "returns 1" "?k (Some 0) ?r"]
  have "reachable file_of ?ps (?s 3 2 (Some 0) ?r)" by (simp add: simps)
  from querying_call [OF this, of 1 13 "take 2 speed_past" _ "returns 1" "?k (Some 0) ?r"]
  have "reachable file_of ?ps (?s 3 3 (Some 0) ?r)" by (simp add: simps)
  from querying_call [OF this, of 1 13 "take 3 speed_past" _ "(returns 3)\<lparr>bytes := [0x41, 0x0C, 0x1A]\<rparr>" "?k (Some 0) []"]
  have "reachable file_of ?ps (?s 3 4 (Some 0) [])" by (simp add: simps)
  from querying_call [OF this, of 1 13 "take 4 speed_past" _ "returns 0" "?k None []"]
  have "reachable file_of ?ps (?s 3 5 None [])" by (simp add: simps)
  then show ?thesis by (simp add: rpm_past_def speed_past_def idle_kernel_def fun_upd_def)
qed

text \<open>C16. The daemon passes every client of a connection a duplicate of one descriptor, so they share one
  open file description, on which \<open>flock\<close> never makes a client wait. Two clients can then both be
  inside: one takes the answer to the other's request and reports a failure, its unlock releases the
  lock of the other, and the other waits without a timeout in a read for a message that is gone.\<close>

theorem shared_description_interferes:
  "\<exists>s p q w. reachable file_of [querying 12 [], querying 13 []] s \<and> clients s = [p, q] \<and>
    inside p \<and> holder (kern s) = (\<lambda>f. None) \<and> client_call p = Some (Read 5 4) \<and> blocked file_of (cl_description p) (Read 5 4) (kern s) \<and>
    OBDIIPerformQuery (Some (cl_socket q)) (Some (cl_command q)) (resumed (cl_heap q) (cl_past q)) =
      Inr (\<lparr>r_success = 0, r_command = Some (Mode1Command 13), r_value = ZeroBytes\<rparr>, w) \<and> history w = cl_past q"
proof -
  let ?s = "\<lparr>clients = [querying 12 rpm_past, querying 13 speed_past], kern = idle_kernel\<rparr>"
  note proper = reachable_proper [OF crossed_run]
  obtain w where w: "OBDIIPerformQuery (Some shared_socket) (Some (Mode1Command 13)) (resumed empty_heap speed_past) =
      Inr (failed (Mode1Command 13), w)" "history w = speed_past"
  proof -
    let ?w = "resumed empty_heap speed_past" and ?c = "OBDIIMode1Commands ! 13"
    note simps = speed_past_def exchange_def lock_calls_def replay_def speed_command run_calls.simps received_def returns_def numeral_2_eq_2
    have c: "c_expectedResponseLength ?c = 3" "OBDIICommandGetPID ?c = 13"
      by (simp_all add: OBDIIMode1Commands_def OBDIICommandGetPID_def)
    have r: "received shared_socket ?c ?w = (returns 3)\<lparr>bytes := [0x41, 0x0C, 0x1A]\<rparr>" by (simp add: simps)
    have "exchanged shared_socket ?c ?w" by (simp add: exchanged_def r c) (simp add: simps)
    from query_exchanged [OF speed_command(1) _ _ this] reject [OF speed_command(1), of 3 "[0x41, 0x0C, 0x1A]"] that r show ?thesis
      by (simp add: returns_def answers_def c OBDIICommandGetMode_def speed_command on_heap_def) (simp add: simps unlock_calls_def)
  qed
  have "client_call (querying 12 rpm_past) = Some (Read 5 4)"
    using proper [of "querying 12 rpm_past"] by (auto elim!: properE simp: speed_command rpm_past_def returns_def)
  moreover have "inside (querying 12 rpm_past)" by (auto simp: inside_def rpm_past_def returns_def)
  ultimately show ?thesis using crossed_run w
    by (intro exI [of _ ?s] exI conjI) (auto simp: idle_kernel_def blocked_def)
qed

end
