(* ===== verification/Getopt.thy ===== *)
theory Getopt
  imports Formats
begin

text \<open>
  \<open>getopt(argc, argv, "r:t:d")\<close> and \<open>basename\<close> of the C library, as the command line tool uses them.
\<close>

section \<open>Options\<close>

text \<open>The characters of one option word after its dash, and the words that follow it: the options with their
  arguments, \<open>?\<close> for an unknown option or a missing argument, and the words that are left.\<close>

fun short_options :: "string \<Rightarrow> string list \<Rightarrow> (char \<times> string) list \<times> string list" where
  "short_options [] rest = ([], rest)"
| "short_options (c # s) rest =
    (if c = CHR ''d'' then (case short_options s rest of (opts, rest) \<Rightarrow> ((c, '''') # opts, rest))
     else if c = CHR ''r'' \<or> c = CHR ''t'' then
       (if s \<noteq> [] then ([(c, s)], rest)
        else (case rest of [] \<Rightarrow> ([(CHR ''?'', '''')], []) | a # rest \<Rightarrow> ([(c, a)], rest)))
     else (case short_options s rest of (opts, rest) \<Rightarrow> ((CHR ''?'', '''') # opts, rest)))"

lemma short_options_left: "short_options s rest = (opts, rest') \<Longrightarrow> length rest' \<le> length rest"
  by (induction s rest arbitrary: opts rest' rule: short_options.induct) (auto split: if_splits list.splits prod.splits)

fun is_option :: "string \<Rightarrow> bool" where
  "is_option (c # d # s) \<longleftrightarrow> c = CHR ''-''"
| "is_option s \<longleftrightarrow> False"

text \<open>All calls of \<open>getopt\<close> on the words after the program's name: the options in their order, and the operands,
  which are moved behind the options. The word \<open>--\<close> ends the options.\<close>

function getopt :: "string list \<Rightarrow> (char \<times> string) list \<times> string list" where
  "getopt [] = ([], [])"
| "getopt (a # rest) =
    (if a = ''--'' then ([], rest)
     else if is_option a then
       (case short_options (tl a) rest of (opts, rest') \<Rightarrow> (case getopt rest' of (opts', operands) \<Rightarrow> (opts @ opts', operands)))
     else (case getopt rest of (opts, operands) \<Rightarrow> (opts, a # operands)))"
  by pat_completeness auto

termination
  by (relation "measure length") (auto dest!: short_options_left [OF sym])

section \<open>The name of the program\<close>

definition basename :: "string \<Rightarrow> string" where
  "basename path = (if path = '''' then ''.'' else
     let s = rev (dropWhile (\<lambda>c. c = CHR ''/'') (rev path)) in
     if s = '''' then ''/'' else rev (takeWhile (\<lambda>c. c \<noteq> CHR ''/'') (rev s)))"

end
