(* ===== verification/Cli.thy ===== *)
theory Cli
  imports Client Supported Getopt "HOL-Library.Signed_Division"
begin

text \<open>
  The command line tool, \<open>src/cli.c\<close>: options, the list of supported commands, and the prompt at which the
  user selects the command to query, once or until interrupted. Terminal input and output and \<open>nanosleep\<close>
  are calls of the world. So is the arrival of signals: where the flag \<open>interrupted\<close> is read, after a pause, the
  world says whether \<open>SIGINT\<close> came since the last time, and then the handler has run. Nothing else reads the flag.
\<close>

section \<open>Options\<close>

definition NO_CAN_ID :: u32 where "NO_CAN_ID = 0xFFFFFFFF"
definition CAN_EFF_FLAG :: u32 where "CAN_EFF_FLAG = 0x80000000"

definition can_id :: "string \<Rightarrow> u32" where
  "can_id optarg = (let i = ucast (strtoul16 optarg) in
     if 7 < length optarg then i OR CAN_EFF_FLAG else i)"

text \<open>The loop over the options, with \<open>tx_id\<close>, \<open>rx_id\<close> and \<open>use_daemon\<close>; \<open>Inl\<close> for an unknown option.\<close>

fun parse_options :: "(char \<times> string) list \<Rightarrow> u32 \<Rightarrow> u32 \<Rightarrow> int \<Rightarrow> char + u32 \<times> u32 \<times> int" where
  "parse_options [] tx_id rx_id use_daemon = Inr (tx_id, rx_id, use_daemon)"
| "parse_options ((opt, optarg) # opts) tx_id rx_id use_daemon =
    (if opt = CHR ''t'' then parse_options opts (can_id optarg) rx_id use_daemon
     else if opt = CHR ''r'' then parse_options opts tx_id (can_id optarg) use_daemon
     else if opt = CHR ''d'' then parse_options opts tx_id rx_id 1
     else Inl opt)"

section \<open>Output\<close>

abbreviation newline :: string where "newline \<equiv> [CHR 0x0A]"

definition put :: "string \<Rightarrow> unit io" where
  "put s = io_bind (syscall (Print s)) (\<lambda>_. io_return ())"

text \<open>Reading \<open>commands[i]\<close>, and a string on the heap.\<close>

definition read_pointer :: "addr option \<Rightarrow> nat \<Rightarrow> heap \<Rightarrow> command_ref outcome" where
  "read_pointer p i h = (case p of None \<Rightarrow> Inl NullDeref | Some a \<Rightarrow>
     (case blocks h a of
        Some (PointerBlock ps) \<Rightarrow> if i < length ps then (case ps ! i of None \<Rightarrow> Inl Uninitialised | Some r \<Rightarrow> Inr r)
          else Inl OutOfBounds
      | _ \<Rightarrow> Inl DanglingPointer))"

definition read_string :: "addr option \<Rightarrow> heap \<Rightarrow> string outcome" where
  "read_string p h = (case p of None \<Rightarrow> Inl NullDeref | Some a \<Rightarrow>
     (case blocks h a of Some (ByteBlock bs) \<Rightarrow> obind (c_string bs) (\<lambda>s. Inr (map (char_of \<circ> unat) s)) | _ \<Rightarrow> Inl DanglingPointer))"

definition nth_command :: "OBDIICommandSet \<Rightarrow> nat \<Rightarrow> command_ref io" where
  "nth_command cs i = on_heap (\<lambda>h. obind (read_pointer (commands cs) i h) (\<lambda>r. Inr (r, h)))"

definition command_line :: "nat \<Rightarrow> OBDIICommand \<Rightarrow> string" where
  "command_line i c = decimal (int i) @ '': mode '' @ format_02x (ucast (OBDIICommandGetMode c)) @
     '', PID '' @ format_02x (ucast (OBDIICommandGetPID c)) @ '': '' @ c_name c @ newline"

text \<open>The loop that lists the commands from index \<open>i\<close> on; \<open>n\<close> counts the iterations left.\<close>

fun list_commands :: "OBDIICommandSet \<Rightarrow> nat \<Rightarrow> nat \<Rightarrow> unit io" where
  "list_commands cs i 0 = io_return ()"
| "list_commands cs i (Suc n) = io_bind (nth_command cs i) (\<lambda>ref. io_bind (io_lift (deref ref)) (\<lambda>c.
     io_bind (put (command_line i c)) (\<lambda>_. list_commands cs (Suc i) n)))"

section \<open>One query\<close>

definition print_value :: "OBDIICommand \<Rightarrow> OBDIIResponse \<Rightarrow> unit io" where
  "print_value c response = (case c_responseType c of
     OBDIIResponseTypeNumeric \<Rightarrow> (case numericValue (r_value response) of None \<Rightarrow> io_lift (Inl InactiveMember)
       | Some x \<Rightarrow> put (format_2f x))
   | OBDIIResponseTypeBitfield \<Rightarrow> (case bitfieldValue (r_value response) of None \<Rightarrow> io_lift (Inl InactiveMember)
       | Some x \<Rightarrow> put (format_08x x))
   | OBDIIResponseTypeString \<Rightarrow> (case stringValue (r_value response) of None \<Rightarrow> io_lift (Inl InactiveMember)
       | Some p \<Rightarrow> io_bind (on_heap (\<lambda>h. obind (read_string p h) (\<lambda>s. Inr (s, h)))) put)
   | OBDIIResponseTypeOther \<Rightarrow> put ''Unimplemented!'')"

definition query_once :: "OBDIISocket \<Rightarrow> command_ref \<Rightarrow> unit io" where
  "query_once s command =
     io_bind (OBDIIPerformQuery (Some s) (Some command)) (\<lambda>response.
     io_bind (if r_success response \<noteq> 0
        then io_bind (put ''Retrieved: '') (\<lambda>_. io_bind (io_lift (deref command)) (\<lambda>c.
             io_bind (print_value c response) (\<lambda>_. put newline)))
        else put (''Error retrieving data. Please try again!'' @ newline)) (\<lambda>_.
     on_heap (\<lambda>h. obind (OBDIIResponseFree (Some response) h) (\<lambda>h. Inr ((), h)))))"

text \<open>The handler, and its runs for the signals that arrived.\<close>

definition handleInterrupted :: "unit io" where
  "handleInterrupted = set_interrupted 1"

definition take_signals :: "unit io" where
  "take_signals = io_bind (syscall Sigint) (\<lambda>r. if ret r \<noteq> 0 then handleInterrupted else io_return ())"

text \<open>The pause between two queries, and whether the flag \<open>interrupted\<close> was set; it is cleared then.\<close>

definition pause :: "int \<Rightarrow> bool io" where
  "pause repeatInterval =
     io_bind (syscall (Nanosleep (repeatInterval sdiv 1000) (repeatInterval smod 1000 * 1000000))) (\<lambda>_.
     io_bind take_signals (\<lambda>_. io_bind get_interrupted (\<lambda>interrupted.
     if interrupted \<noteq> 0 then io_bind (set_interrupted 0) (\<lambda>_. io_return True) else io_return False)))"

text \<open>The loop around a query, which may go on for ever.\<close>

partial_function (option) query_loop ::
  "OBDIISocket \<Rightarrow> command_ref \<Rightarrow> bool \<Rightarrow> int \<Rightarrow> world \<Rightarrow> (unit \<times> world) outcome option" where
  "query_loop s command repeatQuery repeatInterval w = (case query_once s command w of
       Inl e \<Rightarrow> Some (Inl e)
     | Inr (u, w) \<Rightarrow> if repeatQuery then (case pause repeatInterval w of
             Inl e \<Rightarrow> Some (Inl e)
           | Inr (stop, w) \<Rightarrow> if stop then Some (Inr ((), w)) else query_loop s command repeatQuery repeatInterval w)
         else Some (Inr ((), w)))"

definition run_queries :: "OBDIISocket \<Rightarrow> command_ref \<Rightarrow> bool \<Rightarrow> int \<Rightarrow> unit io" where
  "run_queries s command repeatQuery repeatInterval w =
     (case query_loop s command repeatQuery repeatInterval w of None \<Rightarrow> Inl Diverges | Some r \<Rightarrow> r)"

section \<open>The prompt\<close>

text \<open>\<open>sscanf(line, "%d %2s %10s", ...)\<close>: the number of items and the items, empty where not assigned.\<close>

definition scan_line :: "string \<Rightarrow> (nat \<times> int \<times> string \<times> string) outcome" where
  "scan_line line = obind (scan_int line) (\<lambda>r. case r of None \<Rightarrow> Inr (0, 0, [], [])
     | Some (selection, s) \<Rightarrow> (case scan_word 2 s of None \<Rightarrow> Inr (1, selection, [], [])
        | Some (opt, s) \<Rightarrow> (case scan_word 10 s of None \<Rightarrow> Inr (2, selection, opt, [])
            | Some (optarg, s) \<Rightarrow> Inr (3, selection, opt, optarg))))"

definition atoi :: "string \<Rightarrow> int outcome" where
  "atoi s = obind (scan_int s) (\<lambda>r. Inr (case r of None \<Rightarrow> 0 | Some (i, s) \<Rightarrow> i))"

definition handle_line :: "OBDIISocket \<Rightarrow> OBDIICommandSet \<Rightarrow> string \<Rightarrow> unit io" where
  "handle_line s supportedCommands line =
     io_bind (io_lift (scan_line line)) (\<lambda>(numScanned, selection, opt, optionArg).
     if 0 < numScanned then
       let repeatQuery = (numScanned = 2 \<and> opt = ''-p'') in
       io_bind (io_lift (if repeatQuery \<and> numScanned = 3 then atoi optionArg else Inr 1000)) (\<lambda>repeatInterval.
       if 0 \<le> selection \<and> selection < numCommands supportedCommands then
         io_bind (nth_command supportedCommands (nat selection)) (\<lambda>command.
         io_bind (io_lift (deref command)) (\<lambda>c.
         io_bind (put (''Querying mode '' @ format_02x (ucast (OBDIICommandGetMode c)) @ '' PID '' @
             format_02x (ucast (OBDIICommandGetPID c)) @ ''...'' @ newline)) (\<lambda>_.
         run_queries s command repeatQuery repeatInterval)))
       else put (decimal selection @ '' is not a valid command!'' @ newline))
     else put (''Invalid input!'' @ newline))"

text \<open>The line read is a C string: it ends at the first NUL byte.\<close>

partial_function (option) prompt_loop ::
  "OBDIISocket \<Rightarrow> OBDIICommandSet \<Rightarrow> world \<Rightarrow> (unit \<times> world) outcome option" where
  "prompt_loop s supportedCommands w = (case io_bind (put ''> '') (\<lambda>_. syscall (Fgets 20)) w of
       Inl e \<Rightarrow> Some (Inl e)
     | Inr (r, w) \<Rightarrow> if ret r \<le> 0 then Some (Inr ((), w))
         else (case handle_line s supportedCommands (map (char_of \<circ> unat) (takeWhile (\<lambda>b. b \<noteq> 0) (bytes r))) w of
             Inl e \<Rightarrow> Some (Inl e)
           | Inr (u, w) \<Rightarrow> prompt_loop s supportedCommands w))"

definition prompt :: "OBDIISocket \<Rightarrow> OBDIICommandSet \<Rightarrow> unit io" where
  "prompt s supportedCommands w = (case prompt_loop s supportedCommands w of None \<Rightarrow> Inl Diverges | Some r \<Rightarrow> r)"

section \<open>The program\<close>

definition usage :: "string \<Rightarrow> string" where
  "usage program_name = ''Usage: '' @ program_name @
     '' -t <transfer CAN ID> -r <receive CAN ID> [-d] <CAN interface>'' @ newline @ [CHR 0x09] @
     ''<transfer CAN ID>: The CAN ID that will be used for sending the diagnostic requests. For 11-bit identifiers, this can be either the broadcast ID, 0x7DF, or an ID in the range 0x7E0 to 0x7E7, indicating a particular ECU.'' @ newline @ [CHR 0x09] @
     ''<receive CAN ID>: The CAN ID that the ECU will be using to respond to the diagnostic requests that are sent. For 11-bit identifiers, this is an ID in the range 0x7E8 to 0x7EF (i.e. <transfer CAN ID> + 8)'' @ newline @ [CHR 0x09] @
     ''-d: Use a shared socket to allow other programs to access the ECU (the obdiid daemon must be running for this to work)'' @ newline"

definition print_usage :: "string \<Rightarrow> unit io" where
  "print_usage program_name = put (usage program_name)"

text \<open>With an open socket: list the commands, serve the prompt, release everything.\<close>

definition cli_connected :: "OBDIISocket \<Rightarrow> int io" where
  "cli_connected s =
     io_bind (put (''Supported commands:'' @ newline)) (\<lambda>_.
     io_bind (OBDIIGetSupportedCommands (Some s)) (\<lambda>supportedCommands.
     io_bind (list_commands supportedCommands 0 (nat (numCommands supportedCommands))) (\<lambda>_.
     io_bind (prompt s supportedCommands) (\<lambda>_.
     io_bind (on_heap (\<lambda>h. obind (OBDIICommandSetFree (Some supportedCommands) h) (\<lambda>h. Inr ((), h)))) (\<lambda>_.
     io_bind (OBDIICloseSocket (Some s)) (\<lambda>_. io_return 0))))))"

text \<open>The result is the exit status. After the options: the usage, or the signal handler and the socket. The
  socket structure on the stack holds anything at first; \<open>error\<close> is the text \<open>strerror\<close> gives for the error
  of the call that failed.\<close>

definition cli_run :: "string \<Rightarrow> u32 \<Rightarrow> u32 \<Rightarrow> int \<Rightarrow> string list \<Rightarrow> string \<Rightarrow> OBDIISocket \<Rightarrow> int io" where
  "cli_run program tx_id rx_id use_daemon operands error s =
    (if length operands \<noteq> 1 \<or> tx_id = NO_CAN_ID \<or> rx_id = NO_CAN_ID
     then io_bind (print_usage program) (\<lambda>_. io_return 1)
     else io_bind (syscall Sigaction) (\<lambda>_.
          io_bind (OBDIIOpenSocket (Some s) (operands ! 0) tx_id rx_id use_daemon) (\<lambda>(r, opened).
          if r < 0 then io_bind (put (''Error connecting to vehicle: '' @ error @ newline)) (\<lambda>_. io_return 1)
          else case opened of None \<Rightarrow> io_lift (Inl NullDeref) | Some s \<Rightarrow> cli_connected s)))"

definition cli_main :: "string list \<Rightarrow> string \<Rightarrow> OBDIISocket \<Rightarrow> int io" where
  "cli_main argv error s = (let program = (case argv of [] \<Rightarrow> ''.'' | name # _ \<Rightarrow> basename name) in
     case getopt (tl argv) of (opts, operands) \<Rightarrow>
     (case parse_options opts NO_CAN_ID NO_CAN_ID 0 of
        Inl opt \<Rightarrow> io_bind (put (''Unknown option '' @ [opt] @ newline)) (\<lambda>_.
          io_bind (print_usage program) (\<lambda>_. io_return 1))
      | Inr (tx_id, rx_id, use_daemon) \<Rightarrow> cli_run program tx_id rx_id use_daemon operands error s))"

end
