(* ===== verification/Cli_Properties.thy ===== *)
theory Cli_Properties
  imports Cli
begin

text \<open>
  What the command line tool does with a vehicle: the list it prints, one query, the repeated query, and
  the options of a line.
\<close>

section \<open>Printing\<close>

lemma run_put [io_simps]: "put s w = Inr ((), run_calls [Print s] w)"
  "io_bind (put s) f w = f () (run_calls [Print s] w)"
  by (simp_all add: put_def io_bind_def run_syscall io_return_def)

text \<open>A response whose value prints as one string, in any world with this heap.\<close>

definition printable :: "OBDIICommand \<Rightarrow> OBDIIResponse \<Rightarrow> heap \<Rightarrow> bool" where
  "printable c r h \<longleftrightarrow> (\<exists>s. \<forall>w. w_heap w = h \<longrightarrow> print_value c r w = Inr ((), run_calls [Print s] w))"

lemma heap_same: "w\<lparr>w_heap := w_heap w\<rparr> = w" for w :: world
  by (cases w) simp

lemma calls_heap [simp]: "calls (w\<lparr>w_heap := h\<rparr>) = calls w"
  by (simp add: calls_def)

lemma printable_type:
  "c_responseType c = OBDIIResponseTypeOther \<Longrightarrow> printable c r h"
  "c_responseType c = OBDIIResponseTypeNumeric \<Longrightarrow> numericValue (r_value r) = Some x \<Longrightarrow> printable c r h"
  "c_responseType c = OBDIIResponseTypeBitfield \<Longrightarrow> bitfieldValue (r_value r) = Some y \<Longrightarrow> printable c r h"
  "c_responseType c = OBDIIResponseTypeString \<Longrightarrow> stringValue (r_value r) = Some p \<Longrightarrow> read_string p h = Inr s \<Longrightarrow> printable c r h"
  by (auto simp: printable_def print_value_def io_simps heap_same)

section \<open>One query\<close>

text \<open>The heap is as before up to where the next block will be.\<close>

definition restored :: "heap \<Rightarrow> heap \<Rightarrow> bool" where
  "restored h h' \<longleftrightarrow> blocks h' = blocks h \<and> next_addr h \<le> next_addr h' \<and> grants h' = grants h"

lemma restored_ok: "restored h h' \<Longrightarrow> heap_ok h \<Longrightarrow> heap_ok h'"
  by (auto simp: restored_def heap_ok_def intro: less_le_trans)

lemma restored_refl [simp]: "restored h h"
  by (simp add: restored_def)

lemma free_restored:
  assumes "heap_ok h" "grants h (next_addr h)"
  shows "\<exists>h'. mfree (next_addr h) (h\<lparr>blocks := (blocks h)(next_addr h := Some b), next_addr := Suc (next_addr h)\<rparr>) = Inr h' \<and>
    restored h h'"
  using free_fresh [OF assms, of "h\<lparr>blocks := (blocks h)(next_addr h := Some b), next_addr := Suc (next_addr h)\<rparr>" b]
  by (auto simp: mfree_def restored_def)

text \<open>Decoding goes wrong in two ways: the VIN message count has no decoder to call, and codes are stored
  where there is no memory for them. A VIN without memory for it is decoded, but cannot be printed.\<close>

definition trouble :: "command_ref \<Rightarrow> heap \<Rightarrow> int \<Rightarrow> bool" where
  "trouble ref h len \<longleftrightarrow> ref = Mode9Command 1 \<or> \<not> grants h (next_addr h) \<and>
     (ref = Mode9Command 2 \<or> ref = Mode3Command \<and> 4 \<le> len \<and> even len)"

definition well_coded :: "command_ref \<Rightarrow> int \<Rightarrow> bool" where
  "well_coded ref len \<longleftrightarrow> (ref = Mode3Command \<longrightarrow> 2 \<le> len \<and> even len)"

lemma decode_vin_count:
  assumes "len \<le> int (length p)" "answers (OBDIIMode9Commands ! 1) p len"
  shows "OBDIIDecodeResponseForCommand (Some (Mode9Command 1)) (Some p) len h = Inl NullCall"
proof -
  have "0 < len" using assms(2) by (simp add: answers_def)
  with assms show ?thesis
    by (simp add: OBDIIDecodeResponseForCommand_def successful_iff_answers [OF assms(1)] mode9_entries [unfolded One_nat_def])
qed

lemma decode_no_code:
  assumes "2 \<le> len" "even len" "\<not> 4 \<le> len" "len \<le> int (length p)" "answers OBDIIMode3Command p len" "\<not> grants h (next_addr h)"
  shows "OBDIIDecodeResponseForCommand (Some Mode3Command) (Some p) len h =
    Inr (decoded Mode3Command (DTCsValue None 0), h\<lparr>next_addr := Suc (next_addr h)\<rparr>)"
proof -
  have len: "len = 2" using assms(1-3) by presburger
  show ?thesis
    unfolding accept_dtcs [OF assms(4,5)] using assms(6) by (simp add: len OBDIIDecodeDTCs_def malloc_def Let_def)
qed

lemma decode_in_trouble:
  assumes "deref ref = Inr c" "answers c p len" "trouble ref h len" "len \<le> int (length p)" "len < 2 ^ 31"
  shows "OBDIIDecodeResponseForCommand (Some ref) (Some p) len h = Inl (if ref = Mode9Command 1 then NullCall else NullDeref) \<or>
    ref = Mode9Command 2 \<and> (\<exists>h'. OBDIIDecodeResponseForCommand (Some ref) (Some p) len h = Inr (decoded ref (StringValue None), h'))"
proof (cases "ref = Mode9Command 1")
  case True
  with assms(1,2,4) decode_vin_count show ?thesis by simp
next
  case False
  with assms(3) have g: "\<not> grants h (next_addr h)"
    and "ref = Mode9Command 2 \<or> ref = Mode3Command \<and> 4 \<le> len \<and> len mod 2 = 0"
    by (auto simp: trouble_def even_iff_mod_2_eq_zero)
  then consider "ref = Mode9Command 2" | "ref = Mode3Command" "4 \<le> len" "len mod 2 = 0" by blast
  then show ?thesis
  proof cases
    case 1
    with accept_vin(1) [OF assms(1) 1 assms(4,2)] decode_vin_no_memory [OF g] show ?thesis by simp
  next
    case 2
    with assms(1,2) accept_dtcs [OF assms(4)] decode_dtcs_no_memory [OF 2(2,3) assms(4) g] show ?thesis by simp
  qed
qed

lemma decode_printed:
  assumes "deref ref = Inr c" "len \<le> int (length p)" "len < 2 ^ 31" "heap_ok h" "\<not> (answers c p len \<and> trouble ref h len)"
  shows "\<exists>r h1 h2. OBDIIDecodeResponseForCommand (Some ref) (Some p) len h = Inr (r, h1) \<and>
    OBDIIResponseFree (Some r) h1 = Inr h2 \<and> restored h h2 \<and> (r_success r \<noteq> 0 \<longleftrightarrow> answers c p len \<and> well_coded ref len) \<and>
    (r_success r \<noteq> 0 \<longrightarrow> printable c r h1)"
proof (cases "answers c p len")
  case False
  then show ?thesis using reject [OF assms(1,2) False] free_failed [OF assms(1)] by simp
next
  case ans: True
  then have easy: "ref \<noteq> Mode9Command 1" using assms(5) by (auto simp: trouble_def)
  show ?thesis
  proof (cases "ref = Mode3Command \<and> \<not> grants h (next_addr h)")
    case True
    then have ref: "ref = Mode3Command" "c = OBDIIMode3Command" "\<not> grants h (next_addr h)" using assms(1) by simp_all
    show ?thesis
    proof (cases "well_coded ref len")
      case True
      then have len: "2 \<le> len" "even len" "\<not> 4 \<le> len" using assms(5) ans ref by (auto simp: well_coded_def trouble_def)
      have "OBDIIResponseFree (Some (decoded Mode3Command (DTCsValue None 0))) h' = Inr h'" for h'
        by (simp add: OBDIIResponseFree_def OBDIICommands_def free_member_def mode3_entry)
      then show ?thesis
        using decode_no_code [OF len assms(2) ans [unfolded ref(2)] ref(3)] ref(1,2) True ans printable_type(1)
        by (simp add: mode3_entry restored_def)
    next
      case False
      then have "len < 2 \<or> len mod 2 \<noteq> 0" by (auto simp: well_coded_def even_iff_mod_2_eq_zero)
      with False ref ans accept_dtcs [OF assms(2)] decode_dtcs_malformed free_failed [OF assms(1)]
      show ?thesis by simp
    qed
  next
    case False
    then have "ref = Mode3Command \<longrightarrow> grants h (next_addr h)" by blast
    with assms(1) easy assms(2,3) show ?thesis
    proof (cases rule: decode_outcome)
      case rejected
      then show ?thesis using ans by simp
    next
      case (plain m v)
      have "member_matches (meaning_type m) v" "meaning_type m \<noteq> OBDIIResponseTypeString"
        using value_ok_member [OF plain(4)] by simp_all
      then have "printable c (decoded ref v) h"
        using meets_type [OF plain(3)] by (cases "meaning_type m") (auto intro: printable_type)
      then show ?thesis using plain free_plain [OF assms(1)] by (auto simp: meets_type well_coded_def)
    next
      case malformed
      then have "\<not> well_coded ref len" by (auto simp: well_coded_def even_iff_mod_2_eq_zero)
      then show ?thesis using malformed free_failed [OF assms(1)] by simp
    next
      case (codes n)
      have "c_responseType c = OBDIIResponseTypeOther" using assms(1) codes(1) by (simp add: mode3_entry)
      moreover have "well_coded ref len" using codes(3,4) by (auto simp: well_coded_def even_iff_mod_2_eq_zero)
      moreover have "grants h (next_addr h)" using False codes(1) by blast
      ultimately show ?thesis using codes free_restored [OF assms(4)] printable_type(1) by (fastforce simp: free_codes)
    next
      case (vin b)
      have "c_responseType c = OBDIIResponseTypeString" using assms(1) vin(1) by (auto simp: mode9_entries)
      with vin have "printable c (decoded ref (StringValue (Some (next_addr h))))
          (h\<lparr>blocks := (blocks h)(next_addr h := Some (ByteBlock b)), next_addr := Suc (next_addr h)\<rparr>)"
        by (intro printable_type(4)) (auto simp: read_string_def)
      with vin show ?thesis using free_restored [OF assms(4)] by (fastforce simp: free_vin well_coded_def)
    next
      case no_vin
      then show ?thesis using assms(5) by (simp add: trouble_def)
    qed
  qed
qed

text \<open>What a query prints after the response came.\<close>

lemma print_response:
  assumes "deref ref = Inr c" "r_success r \<noteq> 0 \<longrightarrow> printable c r (w_heap w)"
    "OBDIIResponseFree (Some r) (w_heap w) = Inr h" "OBDIIPerformQuery (Some so) (Some ref) v = Inr (r, w)"
  shows "\<exists>ps. query_once so ref v = Inr ((), (run_calls (map Print ps) w)\<lparr>w_heap := h\<rparr>) \<and>
    (ps = [''Error retrieving data. Please try again!'' @ newline] \<and> r_success r = 0 \<or>
     (\<exists>s. ps = [''Retrieved: '', s, newline]) \<and> r_success r \<noteq> 0)"
proof (cases "r_success r = 0")
  case True
  then show ?thesis using assms(3)
    by (intro exI [of _ "[''Error retrieving data. Please try again!'' @ newline]"])
      (simp add: query_once_def bind_run [where m = "OBDIIPerformQuery _ _", OF assms(4)] io_simps on_heap_def)
next
  case False
  with assms(2) obtain s where s: "\<And>w'. w_heap w' = w_heap w \<Longrightarrow> print_value c r w' = Inr ((), run_calls [Print s] w')"
    unfolding printable_def by blast
  show ?thesis using False assms(1,3)
    by (intro exI [of _ "[''Retrieved: '', s, newline]"])
      (simp add: query_once_def bind_run [where m = "OBDIIPerformQuery _ _", OF assms(4)] io_simps on_heap_def
        io_bind_def [of "print_value _ _"] s)
qed

text \<open>What comes of a query: the positive answer that arrived in time, if one did.\<close>

definition answered :: "OBDIISocket \<Rightarrow> OBDIICommand \<Rightarrow> world \<Rightarrow> bool" where
  "answered so c w \<longleftrightarrow> exchanged so c w \<and> answers c (bytes (received so c w)) (ret (received so c w))"

lemma query_troubled:
  assumes "deref ref = Inr c" "0 \<le> sock so" "sock so < 1024" "kernel (respond w)"
    and "answered so c w" "trouble ref (w_heap w) (ret (received so c w))"
  shows "query_once so ref w = Inl (if ref = Mode9Command 1 then NullCall else NullDeref)"
proof -
  have x: "exchanged so c w" "answers c (bytes (received so c w)) (ret (received so c w))" using assms(5) by (simp_all add: answered_def)
  note b = received_bounds [OF assms(1,4) x(1)]
  note q = query_exchanged [OF assms(1-3) x(1)]
  from decode_in_trouble [OF assms(1) x(2) assms(6) b(2,3)] show ?thesis
  proof
    assume "OBDIIDecodeResponseForCommand (Some ref) (Some (bytes (received so c w))) (ret (received so c w)) (w_heap w) =
      Inl (if ref = Mode9Command 1 then NullCall else NullDeref)"
    then show ?thesis by (simp add: query_once_def io_bind_def [of "OBDIIPerformQuery _ _"] q on_heap_def)
  next
    assume "ref = Mode9Command 2 \<and> (\<exists>h'. OBDIIDecodeResponseForCommand (Some ref) (Some (bytes (received so c w)))
      (ret (received so c w)) (w_heap w) = Inr (decoded ref (StringValue None), h'))"
    then obtain h' where r: "ref = Mode9Command 2" "OBDIIDecodeResponseForCommand (Some ref) (Some (bytes (received so c w)))
      (ret (received so c w)) (w_heap w) = Inr (decoded ref (StringValue None), h')" by blast
    have "c_responseType c = OBDIIResponseTypeString" using assms(1) r(1) by (auto simp: mode9_entries)
    then have "print_value c (decoded ref (StringValue None)) v = Inl NullDeref" for v
      by (simp add: print_value_def io_simps read_string_def)
    moreover have "OBDIIPerformQuery (Some so) (Some ref) w = Inr (decoded ref (StringValue None),
        (run_calls (lock_calls so @ exchange so c @ unlock_calls so) w)\<lparr>w_heap := h'\<rparr>)"
      unfolding q by (simp add: on_heap_def r(2))
    ultimately show ?thesis using r(1) assms(1)
      by (simp add: query_once_def bind_run [where m = "OBDIIPerformQuery _ _"] io_simps io_bind_def [of "print_value _ _"])
  qed
qed

lemma query_untroubled:
  assumes "deref ref = Inr c" "0 \<le> sock so" "sock so < 1024" "kernel (respond w)" "heap_ok (w_heap w)"
    and "\<not> (answered so c w \<and> trouble ref (w_heap w) (ret (received so c w)))"
  shows "\<exists>w' cs ps. query_once so ref w = Inr ((), w') \<and> restored (w_heap w) (w_heap w') \<and> calls w' = calls w @ cs @ map Print ps \<and>
    (if answered so c w \<and> well_coded ref (ret (received so c w)) then \<exists>s. ps = [''Retrieved: '', s, newline]
     else ps = [''Error retrieving data. Please try again!'' @ newline])"
proof -
  have "\<exists>r w1 h cs. OBDIIPerformQuery (Some so) (Some ref) w = Inr (r, w1) \<and> calls w1 = calls w @ cs \<and>
    OBDIIResponseFree (Some r) (w_heap w1) = Inr h \<and> restored (w_heap w) h \<and> (r_success r \<noteq> 0 \<longrightarrow> printable c r (w_heap w1)) \<and>
    (r_success r \<noteq> 0 \<longleftrightarrow> answered so c w \<and> well_coded ref (ret (received so c w)))"
  proof (cases "exchanged so c w")
    case True
    note b = received_bounds [OF assms(1,4) True]
    from decode_printed [OF assms(1) b(2,3) assms(5)] assms(6) True show ?thesis
      by (fastforce simp: query_exchanged [OF assms(1-3) True] on_heap_def answered_def)
  next
    case False
    with query_gave_up [OF assms(1-3) False] free_failed [OF assms(1)] show ?thesis by (fastforce simp: answered_def)
  qed
  then obtain r w1 h cs where q: "OBDIIPerformQuery (Some so) (Some ref) w = Inr (r, w1)" "calls w1 = calls w @ cs"
    "OBDIIResponseFree (Some r) (w_heap w1) = Inr h" "restored (w_heap w) h" "r_success r \<noteq> 0 \<longrightarrow> printable c r (w_heap w1)"
    "r_success r \<noteq> 0 \<longleftrightarrow> answered so c w \<and> well_coded ref (ret (received so c w))" by blast
  from print_response [OF assms(1) q(5,3,1)] obtain ps where
    ps: "query_once so ref w = Inr ((), (run_calls (map Print ps) w1)\<lparr>w_heap := h\<rparr>)"
    "ps = [''Error retrieving data. Please try again!'' @ newline] \<and> r_success r = 0 \<or> (\<exists>s. ps = [''Retrieved: '', s, newline]) \<and> r_success r \<noteq> 0" by blast
  show ?thesis
    by (rule exI, rule exI [of _ cs], rule exI [of _ ps], intro conjI, rule ps(1)) (use q(2,4,6) ps(2) in auto)
qed

lemma query_once_run:
  assumes "deref ref = Inr c" "ref \<noteq> Mode9Command 1" "0 \<le> sock so" "sock so < 1024" "kernel (respond w)"
    and "heap_ok (w_heap w)" "grants (w_heap w) (next_addr (w_heap w))"
  shows "\<exists>w'. query_once so ref w = Inr ((), w') \<and> restored (w_heap w) (w_heap w')"
proof -
  have "\<not> trouble ref (w_heap w) len" for len using assms(2,7) by (simp add: trouble_def)
  then show ?thesis using query_untroubled [OF assms(1,3-6)] by blast
qed

section \<open>The list of commands\<close>

text \<open>The array of a command set as it is after discovery: pointers to commands, then unwritten slots.\<close>

definition offers :: "world \<Rightarrow> OBDIICommandSet \<Rightarrow> command_ref list \<Rightarrow> nat \<Rightarrow> bool" where
  "offers w cs refs k \<longleftrightarrow> (\<exists>a. commands cs = Some a \<and> blocks (w_heap w) a = Some (PointerBlock (map Some refs @ replicate k None))) \<and>
     numCommands cs = int (length refs + k) \<and> (\<forall>ref \<in> set refs. \<exists>c. deref ref = Inr c)"

lemma nth_command_run:
  assumes "offers w cs refs k"
  shows "i < length refs \<Longrightarrow> nth_command cs i w = Inr (refs ! i, w)"
    "length refs \<le> i \<Longrightarrow> i < length refs + k \<Longrightarrow> nth_command cs i w = Inl Uninitialised"
  using assms by (auto simp: offers_def nth_command_def on_heap_def read_pointer_def nth_append heap_same)

lemma offers_calls [simp]: "offers (run_calls ps w) = offers w"
  by (simp add: offers_def fun_eq_iff)

definition command_of :: "command_ref \<Rightarrow> OBDIICommand" where
  "command_of ref = (case deref ref of Inl e \<Rightarrow> OBDIIMode3Command | Inr c \<Rightarrow> c)"

lemma offers_deref: "offers w cs refs k \<Longrightarrow> i < length refs \<Longrightarrow> deref (refs ! i) = Inr (command_of (refs ! i))"
proof -
  assume "offers w cs refs k" "i < length refs"
  then obtain c where "deref (refs ! i) = Inr c" unfolding offers_def using nth_mem by blast
  then show ?thesis by (simp add: command_of_def)
qed

text \<open>The lines of the list, from index \<open>i\<close> on.\<close>

definition listing :: "command_ref list \<Rightarrow> nat \<Rightarrow> call list" where
  "listing refs i = map (\<lambda>j. Print (command_line j (command_of (refs ! j)))) [i..<length refs]"

lemma list_commands_run:
  "offers w cs refs k \<Longrightarrow> i + n = length refs + k \<Longrightarrow> i \<le> length refs \<Longrightarrow>
     list_commands cs i n w = (if k = 0 then Inr ((), run_calls (listing refs i) w) else Inl Uninitialised)"
proof (induction n arbitrary: i w)
  case 0
  then show ?case by (simp add: io_return_def listing_def)
next
  case (Suc n)
  show ?case
  proof (cases "i < length refs")
    case True
    have "list_commands cs i (Suc n) w = list_commands cs (Suc i) n (run_calls [Print (command_line i (command_of (refs ! i)))] w)"
      by (simp add: bind_run [where m = "nth_command cs i", OF nth_command_run(1) [OF Suc.prems(1) True]] io_simps
          offers_deref [OF Suc.prems(1) True])
    moreover have "listing refs i = Print (command_line i (command_of (refs ! i))) # listing refs (Suc i)"
      using True by (simp add: listing_def upt_conv_Cons)
    ultimately show ?thesis using Suc.IH [of "run_calls [Print (command_line i (command_of (refs ! i)))] w" "Suc i"] Suc.prems True
      by simp
  next
    case False
    then have k: "k \<noteq> 0" and hole: "nth_command cs i w = Inl Uninitialised"
      using Suc.prems nth_command_run(2) [OF Suc.prems(1), of i] by simp_all
    have "list_commands cs i (Suc n) w = Inl Uninitialised"
      by (simp only: list_commands.simps io_bind_def hole obind_Inl)
    with k show ?thesis by simp
  qed
qed

lemma library_deref: "ref \<in> set (listed cs) \<Longrightarrow> \<exists>c. deref ref = Inr c"
  by (auto simp: listed_def library_def length_mode1 length_mode9)

text \<open>C22. After asking the vehicle, and with memory for the array, the tool prints one line for each command in the array, in order, with
  its mode, PID and name; but when the vehicle reports PID 3 of mode 9 it then follows a pointer that
  was never written.\<close>

theorem cli_lists_commands:
  assumes "0 \<le> sock so" "sock so < 1024" "kernel (respond w)" "grants (w_heap w) (next_addr (w_heap w))"
  shows "\<exists>cs w'. OBDIIGetSupportedCommands (Some so) w = Inr (cs, w') \<and> offers w' cs (listed cs) (unfilled cs) \<and>
    list_commands cs 0 (nat (numCommands cs)) w' = (if bit (mode9_pids cs) 29 then Inl Uninitialised
      else Inr ((), run_calls (listing (listed cs) 0) w'))"
proof -
  from supported_result [OF assms(1-3)] assms(4) obtain cs w' where
    r: "OBDIIGetSupportedCommands (Some so) w = Inr (cs, w')" "commands cs = Some (next_addr (w_heap w))"
      "blocks (w_heap w') = (blocks (w_heap w))(next_addr (w_heap w) :=
         Some (PointerBlock (map Some (listed cs) @ replicate (unfilled cs) None)))"
      "numCommands cs = int (length (listed cs) + unfilled cs)" by auto
  then have "offers w' cs (listed cs) (unfilled cs)" using library_deref by (auto simp: offers_def)
  moreover have "list_commands cs 0 (nat (numCommands cs)) w' =
      (if unfilled cs = 0 then Inr ((), run_calls (listing (listed cs) 0) w') else Inl Uninitialised)"
    unfolding r(4) nat_int by (rule list_commands_run [OF calculation]) simp_all
  moreover have "unfilled cs = 0 \<longleftrightarrow> \<not> bit (mode9_pids cs) 29" by (simp add: unfilled_def)
  ultimately show ?thesis using r(1) by (intro exI [of _ cs] exI [of _ w']) simp
qed

theorem cli_lists_commands_witness:
  "\<exists>cs w'. OBDIIGetSupportedCommands (Some shared_socket) (rpm_vehicle 0) = Inr (cs, w') \<and> offers w' cs (listed cs) (unfilled cs)"
proof -
  have k: "kernel (respond (rpm_vehicle 0))" unfolding rpm_vehicle_def by (rule vehicle_kernel)
  from cli_lists_commands [OF _ _ k, of shared_socket] show ?thesis by auto
qed

section \<open>A line of input\<close>

lemma line_dispatched:
  assumes "offers w cs refs k" "scan_line line = Inr (n, selection, opt, arg)"
  shows "handle_line so cs line w =
    (if n = 0 then Inr ((), run_calls [Print (''Invalid input!'' @ newline)] w)
     else if selection < 0 \<or> int (length refs + k) \<le> selection
     then Inr ((), run_calls [Print (decimal selection @ '' is not a valid command!'' @ newline)] w)
     else if int (length refs) \<le> selection then Inl Uninitialised
     else let ref = refs ! nat selection; c = command_of ref in
       run_queries so ref (n = 2 \<and> opt = ''-p'') 1000 (run_calls [Print (''Querying mode '' @
         format_02x (ucast (OBDIICommandGetMode c)) @ '' PID '' @ format_02x (ucast (OBDIICommandGetPID c)) @ ''...'' @ newline)] w))"
proof -
  have "numCommands cs = int (length refs + k)" using assms(1) by (simp add: offers_def)
  moreover have "nth_command cs (nat selection) w = Inr (refs ! nat selection, w)"
      "deref (refs ! nat selection) = Inr (command_of (refs ! nat selection))" if "0 \<le> selection" "selection < int (length refs)"
    using that nth_command_run(1) [OF assms(1)] offers_deref [OF assms(1)] by simp_all
  moreover have "nth_command cs (nat selection) w = Inl Uninitialised" if "int (length refs) \<le> selection" "selection < int (length refs + k)"
    using that nth_command_run(2) [OF assms(1), of "nat selection"] by simp
  ultimately show ?thesis
    by (cases "n = 3") (simp_all add: handle_line_def assms(2) io_simps Let_def io_bind_def [of "nth_command _ _"])
qed

text \<open>C23. What a line does, whatever its words: without a number it is invalid; a number outside the list is
  refused; otherwise the command with that number is queried, again and again exactly when the line has
  two words and the second is \<open>-p\<close>, with a pause of one second. A third word never has an effect: it even
  turns the repetition off.\<close>

theorem line_dispatch:
  assumes "offers w cs refs k" "scan_line line = Inr (n, selection, opt, arg)"
  shows "handle_line so cs line w =
    (if n = 0 then Inr ((), run_calls [Print (''Invalid input!'' @ newline)] w)
     else if selection < 0 \<or> int (length refs + k) \<le> selection
     then Inr ((), run_calls [Print (decimal selection @ '' is not a valid command!'' @ newline)] w)
     else if int (length refs) \<le> selection then Inl Uninitialised
     else let ref = refs ! nat selection; c = command_of ref in
       run_queries so ref (n = 2 \<and> opt = ''-p'') 1000 (run_calls [Print (''Querying mode '' @
         format_02x (ucast (OBDIICommandGetMode c)) @ '' PID '' @ format_02x (ucast (OBDIICommandGetPID c)) @ ''...'' @ newline)] w))"
  using assms by (rule line_dispatched)

definition two_commands :: OBDIICommandSet where
  "two_commands = \<lparr>pids_1_to_20 = 0x00100000, pids_21_to_40 = 0, pids_41_to_60 = 0, pids_61_to_80 = 0, mode9_pids = 0,
     numCommands = 2, commands = Some 0\<rparr>"

definition two_commands_world :: world where
  "two_commands_world = (rpm_vehicle 0)\<lparr>w_heap := \<lparr>blocks = [0 \<mapsto> PointerBlock [Some (Mode1Command 12), Some Mode3Command]],
     next_addr = 1, grants = (\<lambda>_. True)\<rparr>\<rparr>"

lemma two_commands_offered: "offers two_commands_world two_commands [Mode1Command 12, Mode3Command] 0"
  by (simp add: offers_def two_commands_def two_commands_world_def length_mode1)

lemma scan_example: "scan_line ''0 -p 200'' = Inr (3, 0, ''-p'', ''200'')"
  by (simp add: scan_line_def scan_int_def scan_word_def digit_value_def isspace_def)

theorem line_dispatch_witness:
  "handle_line shared_socket two_commands ''0 -p 200'' two_commands_world =
     run_queries shared_socket (Mode1Command 12) False 1000 (run_calls [Print (''Querying mode '' @
       format_02x (ucast (OBDIICommandGetMode (command_of (Mode1Command 12)))) @ '' PID '' @
       format_02x (ucast (OBDIICommandGetPID (command_of (Mode1Command 12)))) @ ''...'' @ newline)] two_commands_world)"
  using line_dispatch [OF two_commands_offered scan_example, of shared_socket] by (simp add: Let_def)

section \<open>Queries until interrupted\<close>

text \<open>What the tool needs of its surroundings: a kernel that keeps its promises and memory.\<close>

definition healthy :: "world \<Rightarrow> bool" where
  "healthy w \<longleftrightarrow> kernel (respond w) \<and> heap_ok (w_heap w) \<and> (\<forall>a. grants (w_heap w) a)"


lemma two_commands_healthy: "healthy two_commands_world"
  by (simp add: healthy_def two_commands_world_def heap_ok_def rpm_vehicle_def vehicle_kernel)


text \<open>How often the tool has slept.\<close>

definition sleeps :: "history \<Rightarrow> nat" where
  "sleeps hist = length (filter (\<lambda>(c, r). case c of Nanosleep a b \<Rightarrow> True | _ \<Rightarrow> False) hist)"

lemma sleeps_simps [simp]: "sleeps [] = 0" "sleeps ((c, r) # h) = (case c of Nanosleep a b \<Rightarrow> 1 | _ \<Rightarrow> 0) + sleeps h"
  "sleeps (h @ h') = sleeps h + sleeps h'"
  by (simp_all add: sleeps_def split: call.split)

definition awake :: "call \<Rightarrow> bool" where
  "awake c \<longleftrightarrow> (case c of Nanosleep a b \<Rightarrow> False | _ \<Rightarrow> True)"

lemma awake_sleeps: "\<forall>(c, r) \<in> set hist. awake c \<Longrightarrow> sleeps hist = 0"
  by (induction hist) (auto simp: awake_def split: call.splits)

lemma put_awake: "makes awake (put s)"
  unfolding put_def by (intro makes_intros) (simp add: awake_def)

lemma print_awake: "makes awake (print_value c r)"
  unfolding print_value_def by (cases "c_responseType c"; simp only: OBDIIResponseType.case) (intro makes_intros put_awake)+

lemma locks_awake: "makes awake (LockIfNecessary so)" "makes awake (UnlockIfNecessary so)"
  unfolding LockIfNecessary_def UnlockIfNecessary_def by (intro makes_intros; simp add: awake_def)+

lemma perform_query_awake: "makes awake (OBDIIPerformQuery so ref)"
  unfolding OBDIIPerformQuery_def Let_def by (intro makes_intros locks_awake) (simp_all add: awake_def)

lemma query_awake: "makes awake (query_once so ref)"
  unfolding query_once_def by (intro makes_intros perform_query_awake put_awake print_awake)

text \<open>A query does not touch the flag.\<close>

definition keeps_flag :: "'a io \<Rightarrow> bool" where
  "keeps_flag m \<longleftrightarrow> (\<forall>w a w'. m w = Inr (a, w') \<longrightarrow> interrupted (globals w') = interrupted (globals w))"

lemma keeps_flag_bind: "keeps_flag m \<Longrightarrow> (\<And>a. keeps_flag (f a)) \<Longrightarrow> keeps_flag (io_bind m f)"
  unfolding keeps_flag_def io_bind_def by (fastforce simp: obind_eq_Inr)

lemma keeps_flag_basic: "keeps_flag (io_return a)" "keeps_flag (io_lift r)" "keeps_flag (on_heap g)" "keeps_flag (syscall c)"
  "(b \<Longrightarrow> keeps_flag m) \<Longrightarrow> (\<not> b \<Longrightarrow> keeps_flag m') \<Longrightarrow> keeps_flag (if b then m else m')"
  "keeps_flag m \<Longrightarrow> (\<And>a. keeps_flag (k a)) \<Longrightarrow> keeps_flag (case found of None \<Rightarrow> m | Some a \<Rightarrow> k a)"
  by (auto simp: keeps_flag_def io_return_def io_lift_def on_heap_def syscall_def Let_def obind_eq_Inr split: option.splits)

lemma put_keeps_flag: "keeps_flag (put s)"
  unfolding put_def by (intro keeps_flag_bind keeps_flag_basic)

lemma print_keeps_flag: "keeps_flag (print_value c r)"
  unfolding print_value_def by (cases "c_responseType c"; simp only: OBDIIResponseType.case)
    (intro keeps_flag_bind keeps_flag_basic put_keeps_flag)+

lemma query_keeps_flag': "keeps_flag (query_once so ref)"
  unfolding query_once_def OBDIIPerformQuery_def Let_def LockIfNecessary_def UnlockIfNecessary_def
  by (intro keeps_flag_bind keeps_flag_basic put_keeps_flag print_keeps_flag)

lemma query_keeps_flag: "query_once so ref w = Inr (a, w') \<Longrightarrow> interrupted (globals w') = interrupted (globals w)"
  using query_keeps_flag' unfolding keeps_flag_def by blast

lemma query_round:
  assumes "deref ref = Inr c" "ref \<noteq> Mode9Command 1" "0 \<le> sock so" "sock so < 1024" "healthy w"
  obtains w' where "query_once so ref w = Inr ((), w')" "healthy w'" "restored (w_heap w) (w_heap w')"
    "respond w' = respond w" "sleeps (history w') = sleeps (history w)"
    "interrupted (globals w') = interrupted (globals w)"
proof -
  from query_once_run [OF assms(1-4), of w] assms(5) obtain w' where
    w': "query_once so ref w = Inr ((), w')" "restored (w_heap w) (w_heap w')" unfolding healthy_def by blast
  from query_awake w'(1) obtain hist where
    "history w' = history w @ hist" "\<forall>(c, r) \<in> set hist. awake c" "respond w' = respond w" unfolding makes_def by blast
  then have "sleeps (history w') = sleeps (history w)" "respond w' = respond w" by (simp_all add: awake_sleeps)
  moreover have "healthy w'" using assms(5) w'(2) calculation(2) restored_ok by (auto simp: healthy_def restored_def)
  moreover have "interrupted (globals w') = interrupted (globals w)" using query_keeps_flag w'(1) by blast
  ultimately show ?thesis using that w' by blast
qed

text \<open>After a pause: the flag is down, and it was up exactly when it was before or a signal came.\<close>

lemma pause_run:
  obtains w1 w2 :: world where "pause i w = Inr (interrupted (globals w) \<noteq> 0 \<or> ret (respond w (history w1) Sigint) \<noteq> 0, w2)"
    "sleeps (history w1) = Suc (sleeps (history w))" "sleeps (history w2) = Suc (sleeps (history w))"
    "w_heap w2 = w_heap w" "respond w2 = respond w" "interrupted (globals w2) = 0"
proof -
  define w1 where "w1 = run_calls [Nanosleep (i sdiv 1000) (i smod 1000 * 1000000)] w"
  define w3 where "w3 = run_calls [Nanosleep (i sdiv 1000) (i smod 1000 * 1000000), Sigint] w"
  define w2 where "w2 = w3\<lparr>globals := (globals w)\<lparr>interrupted := 0\<rparr>\<rparr>"
  have s: "sleeps (history w1) = Suc (sleeps (history w))" "sleeps (history w3) = Suc (sleeps (history w))"
    by (simp_all add: w1_def w3_def run_calls.simps)
  have g: "globals w3 = globals w" "w_heap w3 = w_heap w" "respond w3 = respond w" by (simp_all add: w3_def)
  have "pause i w = Inr (interrupted (globals w) \<noteq> 0 \<or> ret (respond w (history w1) Sigint) \<noteq> 0, w2)"
    unfolding w2_def w1_def w3_def
    by (auto simp: pause_def take_signals_def handleInterrupted_def io_simps)
  from that [OF this s(1)] show ?thesis using s g by (simp add: w2_def)
qed

text \<open>The signal arrives during the \<open>n\<close>th sleep.\<close>

definition interrupted_after :: "nat \<Rightarrow> (history \<Rightarrow> call \<Rightarrow> reply) \<Rightarrow> bool" where
  "interrupted_after n answer \<longleftrightarrow> (\<forall>hist. ret (answer hist Sigint) \<noteq> 0 \<longleftrightarrow> n \<le> sleeps hist)"

lemma restored_trans: "restored h h' \<Longrightarrow> restored h' h'' \<Longrightarrow> restored h h''"
  by (simp add: restored_def)

lemma query_loop_interrupted:
  assumes "deref ref = Inr c" "ref \<noteq> Mode9Command 1" "0 \<le> sock so" "sock so < 1024" "healthy w"
    and "interrupted_after n (respond w)" "sleeps (history w) < n" "interrupted (globals w) = 0"
  shows "\<exists>w'. query_loop so ref True i w = Some (Inr ((), w')) \<and> restored (w_heap w) (w_heap w') \<and> sleeps (history w') = n"
  using assms(5-)
proof (induction "n - sleeps (history w)" arbitrary: w)
  case (Suc m)
  from query_round [OF assms(1-4) Suc.prems(1)] obtain w1 where
    w1: "query_once so ref w = Inr ((), w1)" "healthy w1" "restored (w_heap w) (w_heap w1)" "respond w1 = respond w"
      "sleeps (history w1) = sleeps (history w)" "interrupted (globals w1) = interrupted (globals w)" .
  from pause_run [of i w1] obtain w2 w3 :: world where
    w3: "pause i w1 = Inr (interrupted (globals w1) \<noteq> 0 \<or> ret (respond w1 (history w2) Sigint) \<noteq> 0, w3)"
      "sleeps (history w2) = Suc (sleeps (history w1))" "sleeps (history w3) = Suc (sleeps (history w1))"
      "w_heap w3 = w_heap w1" "respond w3 = respond w1" "interrupted (globals w3) = 0" .
  have stop: "interrupted (globals w1) \<noteq> 0 \<or> ret (respond w1 (history w2) Sigint) \<noteq> 0 \<longleftrightarrow> n = Suc (sleeps (history w))"
    using Suc.prems w1(4-6) w3(2) by (auto simp: interrupted_after_def)
  show ?case
  proof (cases "n = Suc (sleeps (history w))")
    case True
    have "query_loop so ref True i w = Some (Inr ((), w3))"
      using True stop by (subst query_loop.simps) (simp add: w1(1) w3(1))
    then show ?thesis using True w1(3,5) w3(3,4) by simp
  next
    case False
    have loop: "query_loop so ref True i w = query_loop so ref True i w3"
      using False stop by (subst query_loop.simps) (simp add: w1(1) w3(1))
    have "healthy w3" using w1(2) w3(4,5) by (simp add: healthy_def)
    moreover have "m = n - sleeps (history w3)" "sleeps (history w3) < n" "interrupted_after n (respond w3)"
      using Suc.hyps(2) Suc.prems False w1(4,5) w3(3,5) by simp_all
    ultimately obtain w' where "query_loop so ref True i w3 = Some (Inr ((), w'))" "restored (w_heap w3) (w_heap w')"
      "sleeps (history w') = n" using Suc.hyps(1) w3(6) by blast
    then show ?thesis using loop restored_trans [OF w1(3)] w3(4) by simp
  qed
qed simp

text \<open>A flag that is up before the first query ends the loop after it.\<close>

lemma query_loop_stale:
  assumes "deref ref = Inr c" "ref \<noteq> Mode9Command 1" "0 \<le> sock so" "sock so < 1024" "healthy w"
    and "interrupted (globals w) \<noteq> 0"
  shows "\<exists>w'. query_loop so ref True i w = Some (Inr ((), w')) \<and> sleeps (history w') = Suc (sleeps (history w)) \<and>
    interrupted (globals w') = 0"
proof -
  from query_round [OF assms(1-5)] obtain w1 where
    w1: "query_once so ref w = Inr ((), w1)" "healthy w1" "restored (w_heap w) (w_heap w1)" "respond w1 = respond w"
      "sleeps (history w1) = sleeps (history w)" "interrupted (globals w1) = interrupted (globals w)" .
  from pause_run [of i w1] obtain w2 w3 :: world where
    w3: "pause i w1 = Inr (interrupted (globals w1) \<noteq> 0 \<or> ret (respond w1 (history w2) Sigint) \<noteq> 0, w3)"
      "sleeps (history w2) = Suc (sleeps (history w1))" "sleeps (history w3) = Suc (sleeps (history w1))"
      "w_heap w3 = w_heap w1" "respond w3 = respond w1" "interrupted (globals w3) = 0" .
  have "query_loop so ref True i w = Some (Inr ((), w3))"
    using w1(1,6) w3(1) assms(6) by (subst query_loop.simps) simp
  then show ?thesis using w1(5) w3(3,6) by simp
qed

lemma query_loop_uninterrupted:
  assumes "deref ref = Inr c" "ref \<noteq> Mode9Command 1" "0 \<le> sock so" "sock so < 1024"
    and "query_loop so ref rep i w = Some r" "rep" "healthy w" "\<forall>hist. ret (respond w hist Sigint) = 0" "interrupted (globals w) = 0"
  shows False
proof -
  define never where "never v \<longleftrightarrow> healthy v \<and> (\<forall>hist. ret (respond v hist Sigint) = 0) \<and> interrupted (globals v) = 0" for v
  have "command = ref \<longrightarrow> s = so \<longrightarrow> rep \<longrightarrow> never w \<longrightarrow> False"
    if "query_loop s command rep i w = Some r" for s command rep and i :: int and w r
  proof (rule query_loop.raw_induct [where P = "\<lambda>s command rep i w r. command = ref \<longrightarrow> s = so \<longrightarrow> rep \<longrightarrow> never w \<longrightarrow> False", OF _ that])
    fix loop :: "OBDIISocket \<Rightarrow> command_ref \<Rightarrow> bool \<Rightarrow> int \<Rightarrow> world \<Rightarrow> (unit \<times> world) outcome option"
      and s command rep w r and i :: int
    assume IH: "\<And>s command rep (i :: int) w r. loop s command rep i w = Some r \<Longrightarrow> command = ref \<longrightarrow> s = so \<longrightarrow> rep \<longrightarrow> never w \<longrightarrow> False"
    assume body: "(case query_once s command w of Inl e \<Rightarrow> Some (Inl e)
     | Inr (u, w) \<Rightarrow> if rep then (case pause i w of Inl e \<Rightarrow> Some (Inl e)
           | Inr (stop, w) \<Rightarrow> if stop then Some (Inr ((), w)) else loop s command rep i w)
         else Some (Inr ((), w))) = Some r"
    show "command = ref \<longrightarrow> s = so \<longrightarrow> rep \<longrightarrow> never w \<longrightarrow> False"
    proof (intro impI)
      assume *: "command = ref" "s = so" "rep" "never w"
      then have "healthy w" by (simp add: never_def)
      from query_round [OF assms(1-4) this] obtain w1 where
        w1: "query_once so ref w = Inr ((), w1)" "healthy w1" "respond w1 = respond w"
          "interrupted (globals w1) = interrupted (globals w)" .
      from pause_run [of i w1] obtain w2 w3 :: world where
        w3: "pause i w1 = Inr (interrupted (globals w1) \<noteq> 0 \<or> ret (respond w1 (history w2) Sigint) \<noteq> 0, w3)"
          "w_heap w3 = w_heap w1" "respond w3 = respond w1" "interrupted (globals w3) = 0" .
      have "loop so ref True i w3 = Some r" using body * w1(1,3,4) w3(1) by (simp add: never_def)
      moreover have "never w3" using w1(2,3) w3(2-4) *(4) by (simp add: never_def healthy_def)
      ultimately show False using IH by blast
    qed
  qed
  then show ?thesis using assms(5-) unfolding never_def by blast
qed

text \<open>C24. With memory, and for any command but the VIN message count, the repeated query ends exactly because of the interrupt: when the signal comes during the \<open>n\<close>th pause the
  loop has slept \<open>n\<close> times, returns, and leaves nothing allocated; when it never comes, the loop does not
  end. It does not end by an error of the vehicle or the bus. But a signal that came earlier, when nothing
  was repeated, is not forgotten: it ends the loop after the first query.\<close>

theorem repeat_until_interrupted:
  assumes "deref ref = Inr c" "ref \<noteq> Mode9Command 1" "0 \<le> sock so" "sock so < 1024" "healthy w" "sleeps (history w) < n"
  shows "(interrupted (globals w) = 0 \<and> interrupted_after n (respond w) \<longrightarrow> (\<exists>w'. run_queries so ref True i w = Inr ((), w') \<and>
      sleeps (history w') = n \<and> blocks (w_heap w') = blocks (w_heap w))) \<and>
    (interrupted (globals w) = 0 \<and> (\<forall>hist. ret (respond w hist Sigint) = 0) \<longrightarrow> run_queries so ref True i w = Inl Diverges) \<and>
    (interrupted (globals w) \<noteq> 0 \<longrightarrow> (\<exists>w'. run_queries so ref True i w = Inr ((), w') \<and>
      sleeps (history w') = sleeps (history w) + 1 \<and> interrupted (globals w') = 0))"
proof (intro conjI impI)
  assume "interrupted (globals w) = 0 \<and> interrupted_after n (respond w)"
  with query_loop_interrupted [OF assms(1-5) _ assms(6), of i] obtain w' where
    "query_loop so ref True i w = Some (Inr ((), w'))" "restored (w_heap w) (w_heap w')" "sleeps (history w') = n" by blast
  then show "\<exists>w'. run_queries so ref True i w = Inr ((), w') \<and> sleeps (history w') = n \<and> blocks (w_heap w') = blocks (w_heap w)"
    by (simp add: run_queries_def restored_def)
next
  assume never: "interrupted (globals w) = 0 \<and> (\<forall>hist. ret (respond w hist Sigint) = 0)"
  have "query_loop so ref True i w = None"
  proof (rule ccontr)
    assume "query_loop so ref True i w \<noteq> None"
    then obtain r where r: "query_loop so ref True i w = Some r" by blast
    from query_loop_uninterrupted [OF assms(1-4) r _ assms(5)] never show False by simp
  qed
  then show "run_queries so ref True i w = Inl Diverges" by (simp add: run_queries_def)
next
  assume "interrupted (globals w) \<noteq> 0"
  from query_loop_stale [OF assms(1-5) this, of i] show "\<exists>w'. run_queries so ref True i w = Inr ((), w') \<and>
      sleeps (history w') = sleeps (history w) + 1 \<and> interrupted (globals w') = 0"
    by (auto simp: run_queries_def)
qed

text \<open>A user who interrupts during the second pause, one who never does, and one who did before.\<close>

definition interrupted_world :: world where
  "interrupted_world = two_commands_world\<lparr>respond := (\<lambda>hist c. if c = Sigint then returns (if 2 \<le> sleeps hist then 1 else 0)
     else respond two_commands_world hist c)\<rparr>"

definition stale_world :: world where
  "stale_world = two_commands_world\<lparr>globals := initial_globals\<lparr>interrupted := 1\<rparr>\<rparr>"

lemma interrupted_world_facts: "healthy interrupted_world" "interrupted_after 2 (respond interrupted_world)"
  "sleeps (history interrupted_world) < 2" "sleeps (history two_commands_world) < 2" "interrupted (globals interrupted_world) = 0"
  "interrupted (globals two_commands_world) = 0" "healthy stale_world" "sleeps (history stale_world) < 2"
  "interrupted (globals stale_world) = 1" "sleeps (history stale_world) = 0"
  using two_commands_healthy
  by (auto simp: healthy_def interrupted_world_def stale_world_def kernel_def interrupted_after_def returns_def)
    (simp_all add: two_commands_world_def rpm_vehicle_def vehicle_def)

theorem repeat_until_interrupted_witness:
  "(\<exists>w'. run_queries shared_socket (Mode1Command 12) True 1000 interrupted_world = Inr ((), w') \<and> sleeps (history w') = 2) \<and>
   run_queries shared_socket (Mode1Command 12) True 1000 two_commands_world = Inl Diverges \<and>
   (\<exists>w'. run_queries shared_socket (Mode1Command 12) True 1000 stale_world = Inr ((), w') \<and> sleeps (history w') = 1)"
proof (intro conjI)
  have d: "deref (Mode1Command 12) = Inr (OBDIIMode1Commands ! 12)" by (simp add: length_mode1)
  have "0 \<le> sock shared_socket" "sock shared_socket < 1024" "Mode1Command 12 \<noteq> Mode9Command 1" by simp_all
  note r = repeat_until_interrupted [OF d this(3,1,2), of _ 2 1000]
  show "\<exists>w'. run_queries shared_socket (Mode1Command 12) True 1000 interrupted_world = Inr ((), w') \<and> sleeps (history w') = 2"
    using r [OF interrupted_world_facts(1,3)] interrupted_world_facts(2,5) by blast
  have "\<forall>hist. ret (respond two_commands_world hist Sigint) = 0"
    by (simp add: two_commands_world_def rpm_vehicle_def vehicle_def returns_def)
  with r [OF two_commands_healthy interrupted_world_facts(4)] interrupted_world_facts(6) show
    "run_queries shared_socket (Mode1Command 12) True 1000 two_commands_world = Inl Diverges" by blast
  show "\<exists>w'. run_queries shared_socket (Mode1Command 12) True 1000 stale_world = Inr ((), w') \<and> sleeps (history w') = 1"
    using r [OF interrupted_world_facts(7,8)] interrupted_world_facts(9,10) by auto
qed

section \<open>Options\<close>

text \<open>An identifier of more than seven characters is marked as an extended one.\<close>

lemma can_id_extended: "7 < length optarg \<Longrightarrow> bit (can_id optarg) 31"
  by (simp add: can_id_def CAN_EFF_FLAG_def bit_or_iff)

end
