(* ===== verification/Cli_Options.thy ===== *)
theory Cli_Options
  imports Cli_Properties
begin

text \<open>
  The command line: how a user writes the options of the tool, and what the tool makes of them.
\<close>

section \<open>Arguments as the user writes them\<close>

text \<open>An option with its value in the next word or in the same one, \<open>-d\<close>, or the name of an interface.\<close>

datatype argument = Separate char string | Joined char string | Shared | Operand string

fun words :: "argument \<Rightarrow> string list" where
  "words (Separate opt optarg) = [[CHR ''-'', opt], optarg]"
| "words (Joined opt optarg) = [CHR ''-'' # opt # optarg]"
| "words Shared = [''-d'']"
| "words (Operand s) = [s]"

fun well_formed :: "argument \<Rightarrow> bool" where
  "well_formed (Separate opt optarg) \<longleftrightarrow> opt \<in> {CHR ''r'', CHR ''t''}"
| "well_formed (Joined opt optarg) \<longleftrightarrow> opt \<in> {CHR ''r'', CHR ''t''} \<and> optarg \<noteq> ''''"
| "well_formed Shared \<longleftrightarrow> True"
| "well_formed (Operand s) \<longleftrightarrow> \<not> is_option s"

definition written :: "argument list \<Rightarrow> string list" where
  "written args = concat (map words args)"

fun values_of :: "char \<Rightarrow> argument \<Rightarrow> string list" where
  "values_of c (Separate opt optarg) = (if opt = c then [optarg] else [])"
| "values_of c (Joined opt optarg) = (if opt = c then [optarg] else [])"
| "values_of c arg = []"

text \<open>The last value counts.\<close>

definition chosen :: "char \<Rightarrow> argument list \<Rightarrow> u32" where
  "chosen c args = last (NO_CAN_ID # map can_id (concat (map (values_of c) args)))"

fun operand :: "argument \<Rightarrow> string list" where
  "operand (Operand s) = [s]"
| "operand arg = []"

definition operands :: "argument list \<Rightarrow> string list" where
  "operands args = concat (map operand args)"

definition shares :: "argument list \<Rightarrow> int" where
  "shares args = (if Shared \<in> set args then 1 else 0)"

section \<open>Parsing\<close>

fun given :: "argument \<Rightarrow> (char \<times> string) list" where
  "given (Separate opt optarg) = [(opt, optarg)]"
| "given (Joined opt optarg) = [(opt, optarg)]"
| "given Shared = [(CHR ''d'', '''')]"
| "given (Operand s) = []"

lemma getopt_argument:
  assumes "well_formed arg"
  shows "getopt (words arg @ rest) = (given arg @ fst (getopt rest), operand arg @ snd (getopt rest))"
proof (cases arg)
  case (Joined opt optarg)
  then show ?thesis using assms by (cases optarg) (auto split: prod.splits)
next
  case (Operand s)
  then have "s \<noteq> ''--''" using assms by auto
  then show ?thesis using assms Operand by (auto split: prod.splits)
qed (use assms in \<open>auto split: prod.splits\<close>)

lemma getopt_written:
  "\<forall>arg \<in> set args. well_formed arg \<Longrightarrow>
    getopt (written args @ rest) = (concat (map given args) @ fst (getopt rest), operands args @ snd (getopt rest))"
  by (induction args) (simp_all add: written_def operands_def getopt_argument)

text \<open>An option letter the tool does not have, or a letter at the end of the line whose value is missing.\<close>

lemma getopt_unknown:
  "c \<notin> {CHR ''d'', CHR ''r'', CHR ''t''} \<Longrightarrow> c # s \<noteq> ''-'' \<Longrightarrow>
     \<exists>opts. fst (getopt ((CHR ''-'' # c # s) # rest)) = (CHR ''?'', '''') # opts"
  by (auto split: prod.splits)

lemma getopt_missing: "c \<in> {CHR ''r'', CHR ''t''} \<Longrightarrow> getopt [[CHR ''-'', c]] = ([(CHR ''?'', '''')], [])"
  by auto

text \<open>From any point of the loop over the options.\<close>

lemma parse_given:
  assumes "\<forall>arg \<in> set args. well_formed arg"
  shows "parse_options (concat (map given args) @ opts) tx rx d = parse_options opts
    (last (tx # map can_id (concat (map (values_of CHR ''t'') args))))
    (last (rx # map can_id (concat (map (values_of CHR ''r'') args)))) (if Shared \<in> set args then 1 else d)"
  using assms
proof (induction args arbitrary: tx rx d)
  case (Cons arg args)
  then show ?case by (cases arg) auto
qed simp

lemma main_rejects:
  assumes "\<forall>arg \<in> set args. well_formed arg" "fst (getopt rest) = (CHR ''?'', '''') # opts"
  shows "cli_main (program # written args @ rest) error s = io_bind (put (''Unknown option ?'' @ newline)) (\<lambda>_.
    io_bind (print_usage (basename program)) (\<lambda>_. io_return 1))"
  by (simp add: cli_main_def getopt_written [OF assms(1)] assms(2) parse_given [OF assms(1)])

lemma main_accepts:
  assumes "\<forall>arg \<in> set args. well_formed arg"
  shows "cli_main (program # written args) error s = cli_run (basename program) (chosen CHR ''t'' args) (chosen CHR ''r'' args)
    (shares args) (operands args) error s"
  using getopt_written [OF assms, of "[]"] parse_given [OF assms, of "[]"] by (simp add: cli_main_def chosen_def shares_def)

section \<open>Properties\<close>

text \<open>C17. The tool reads back the options however they were written: in any order, repeated, with the value in
  the next word or in the same one, and mixed with the operands. The last \<open>-t\<close> and the last \<open>-r\<close> give the
  identifiers, and what follows \<open>--\<close> is an operand, whatever it looks like.\<close>

theorem cli_reads_options:
  assumes "\<forall>arg \<in> set args. well_formed arg"
  shows "cli_main (program # written args) error s = cli_run (basename program) (chosen CHR ''t'' args) (chosen CHR ''r'' args)
      (shares args) (operands args) error s \<and>
    cli_main (program # written args @ ''--'' # rest) error s = cli_run (basename program) (chosen CHR ''t'' args)
      (chosen CHR ''r'' args) (shares args) (operands args @ rest) error s"
  using main_accepts [OF assms] getopt_written [OF assms, of "''--'' # rest"] parse_given [OF assms, of "[]"]
  by (simp add: cli_main_def chosen_def shares_def)

theorem cli_reads_options_witness:
  "\<forall>error s. cli_main [''/usr/bin/cli'', ''can0'', ''-t'', ''7DF'', ''-r7E8'', ''-d'', ''-t7E0''] error s =
     cli_run ''cli'' 0x7E0 0x7E8 1 [''can0''] error s"
proof -
  let ?args = "[Operand ''can0'', Separate CHR ''t'' ''7DF'', Joined CHR ''r'' ''7E8'', Shared, Joined CHR ''t'' ''7E0'']"
  have "written ?args = [''can0'', ''-t'', ''7DF'', ''-r7E8'', ''-d'', ''-t7E0'']" by (simp add: written_def)
  moreover have "basename ''/usr/bin/cli'' = ''cli''" by (simp add: basename_def)
  moreover have "chosen CHR ''t'' ?args = 0x7E0" "chosen CHR ''r'' ?args = 0x7E8"
    by (simp_all add: chosen_def can_id_def strtoul16_def digit_value_def isspace_def)
  ultimately show ?thesis
    using cli_reads_options [of ?args "''/usr/bin/cli''"] by (simp add: shares_def operands_def)
qed

text \<open>After any well formed arguments, an option letter the tool does not have, or a last \<open>-t\<close> or \<open>-r\<close>
  without its value, ends it: it prints the usage and exits with 1, whatever follows, and has then made no
  other call. The message names the letter \<open>?\<close> and not the letter the user wrote.\<close>

theorem cli_unknown_option:
  assumes "\<forall>arg \<in> set args. well_formed arg"
    and "(\<exists>c t. word = CHR ''-'' # c # t \<and> c \<notin> {CHR ''d'', CHR ''r'', CHR ''t''} \<and> word \<noteq> ''--'') \<or>
      (\<exists>c. word = [CHR ''-'', c] \<and> c \<in> {CHR ''r'', CHR ''t''} \<and> rest = [])"
  shows "cli_main (program # written args @ word # rest) error s w =
    Inr (1, run_calls [Print (''Unknown option ?'' @ newline), Print (usage (basename program))] w)"
proof -
  obtain opts where "fst (getopt (word # rest)) = (CHR ''?'', '''') # opts"
    using assms(2)
  proof (elim disjE exE conjE)
    fix c t
    assume "word = CHR ''-'' # c # t" "c \<notin> {CHR ''d'', CHR ''r'', CHR ''t''}" "word \<noteq> ''--''"
    with getopt_unknown [of c t rest] that show ?thesis by blast
  next
    fix c
    assume "word = [CHR ''-'', c]" "c \<in> {CHR ''r'', CHR ''t''}" "rest = []"
    with getopt_missing [of c] that show ?thesis by (simp only: fst_conv)
  qed
  from main_rejects [OF assms(1) this] show ?thesis by (simp add: print_usage_def run_put io_return_def)
qed

theorem cli_unknown_option_witness:
  "\<forall>error s w. cli_main [''cli'', ''-t'', ''7E0'', ''-h'', ''can0''] error s w =
    Inr (1, run_calls [Print (''Unknown option ?'' @ newline), Print (usage ''cli'')] w)"
proof -
  have "written [Separate CHR ''t'' ''7E0''] = [''-t'', ''7E0'']" by (simp add: written_def)
  moreover have "basename ''cli'' = ''cli''" by (simp add: basename_def)
  ultimately show ?thesis
    using cli_unknown_option [of "[Separate CHR ''t'' ''7E0'']" "''-h''" "[''can0'']" "''cli''"] by simp
qed

end
