(* ===== verification/Program.thy ===== *)
theory Program
  imports Session Cli_Options
begin

text \<open>
  Facts for the properties that span the programs: which calls discovery, a query and a pause make, that a
  query, the repetition and the prompt clean up after themselves (\<open>tidy\<close>, \<open>ends_tidy\<close>), and the ledger
  of CAN sockets over a whole run of the command line tool.
\<close>

section \<open>Calls that leave the CAN sockets alone\<close>

definition keeps_fds :: "call \<Rightarrow> bool" where
  "keeps_fds c \<longleftrightarrow> c \<noteq> SocketIsotp \<and> (\<nexists>fd. c = Close fd)"

lemma keeps_fds_history:
  "\<forall>(c, r) \<in> set hist. keeps_fds c \<Longrightarrow> opened_fds hist = {#} \<and> closed_fds hist = {#}"
  by (induction hist) (auto simp: fds_step keeps_fds_def split: call.splits)

lemma makes_keeps_fds:
  assumes "makes keeps_fds m" "m w = Inr (a, w')"
  shows "opened_fds (history w') = opened_fds (history w)" "closed_fds (history w') = closed_fds (history w)"
    "respond w' = respond w"
  using assms keeps_fds_history unfolding makes_def by (metis fds_append add.right_neutral)+

lemma perform_query_keeps: "makes keeps_fds (OBDIIPerformQuery so ref)"
  unfolding OBDIIPerformQuery_def Let_def LockIfNecessary_def UnlockIfNecessary_def
  by (intro makes_intros) (simp_all add: keeps_fds_def)

lemma supported_keeps: "makes keeps_fds (OBDIIGetSupportedCommands so)"
  unfolding OBDIIGetSupportedCommands_def Let_def query_mode1_pids_def query_mode9_pids_def query_bitfield_def
  by (intro makes_intros perform_query_keeps)

lemma run_calls_keeps:
  "\<forall>c \<in> set cs. keeps_fds c \<Longrightarrow> opened_fds (history (run_calls cs w)) = opened_fds (history w) \<and>
     closed_fds (history (run_calls cs w)) = closed_fds (history w)"
proof (induction cs arbitrary: w)
  case (Cons c cs)
  have "run_calls (c # cs) w = run_calls cs (run_calls [c] w)" by simp
  moreover have "opened_fds (history (run_calls [c] w)) = opened_fds (history w) \<and>
      closed_fds (history (run_calls [c] w)) = closed_fds (history w)"
    using keeps_fds_history [of "[(c, reply_after [] c w)]"] Cons.prems by (simp add: history_calls)
  ultimately show ?case using Cons.IH [of "run_calls [c] w"] Cons.prems by simp
qed simp

section \<open>Programs that clean up\<close>

text \<open>The heap has the blocks it had, no CAN socket was opened or closed, and the kernel is the same.\<close>

definition tidy :: "world \<Rightarrow> world \<Rightarrow> bool" where
  "tidy w w' \<longleftrightarrow> restored (w_heap w) (w_heap w') \<and> opened_fds (history w') = opened_fds (history w) \<and>
     closed_fds (history w') = closed_fds (history w) \<and> respond w' = respond w"

lemma tidy_refl [simp]: "tidy w w"
  by (simp add: tidy_def)

lemma tidy_trans: "tidy w w' \<Longrightarrow> tidy w' w'' \<Longrightarrow> tidy w w''"
  by (auto simp: tidy_def intro: restored_trans)

lemma tidy_healthy: "tidy w w' \<Longrightarrow> healthy w \<Longrightarrow> healthy w'"
  using restored_ok by (auto simp: tidy_def healthy_def restored_def)

lemma tidy_offers: "tidy w w' \<Longrightarrow> offers w cs refs k \<Longrightarrow> offers w' cs refs k"
  by (simp add: tidy_def restored_def offers_def)

lemma tidy_calls: "\<forall>c \<in> set cs. keeps_fds c \<Longrightarrow> tidy w (run_calls cs w)"
  using run_calls_keeps by (auto simp: tidy_def)

text \<open>A run that ends in one of the given errors or has cleaned up.\<close>

definition ends_tidy :: "ub set \<Rightarrow> world \<Rightarrow> ('a \<times> world) outcome \<Rightarrow> bool" where
  "ends_tidy E w r \<longleftrightarrow> (case r of Inl e \<Rightarrow> e \<in> E | Inr (a, w') \<Rightarrow> tidy w w')"

lemma ends_tidy_simps [simp]: "ends_tidy E w (Inl e) \<longleftrightarrow> e \<in> E" "ends_tidy E w (Inr (a, w')) \<longleftrightarrow> tidy w w'"
  by (simp_all add: ends_tidy_def)

lemma ends_tidy_after: "tidy w w' \<Longrightarrow> ends_tidy E w' r \<Longrightarrow> ends_tidy E w r"
  using tidy_trans by (auto simp: ends_tidy_def split: sum.splits)

lemma ends_tidy_mono: "ends_tidy E w r \<Longrightarrow> E \<subseteq> E' \<Longrightarrow> ends_tidy E' w r"
  by (auto simp: ends_tidy_def split: sum.splits)

lemma put_keeps: "makes keeps_fds (put s)"
  unfolding put_def by (intro makes_intros) (simp add: keeps_fds_def)

lemma print_keeps: "makes keeps_fds (print_value c r)"
  unfolding print_value_def by (cases "c_responseType c"; simp only: OBDIIResponseType.case) (intro makes_intros put_keeps)+

lemma query_keeps: "makes keeps_fds (query_once so ref)"
  unfolding query_once_def by (intro makes_intros perform_query_keeps put_keeps print_keeps)

lemma pause_keeps: "makes keeps_fds (pause i)"
  unfolding pause_def take_signals_def handleInterrupted_def by (intro makes_intros) (simp_all add: keeps_fds_def)

lemma query_tidy:
  assumes "deref ref = Inr c" "0 \<le> sock so" "sock so < 1024" "healthy w"
  shows "ends_tidy {NullCall} w (query_once so ref w)"
proof (cases "answered so c w \<and> trouble ref (w_heap w) (ret (received so c w))")
  case True
  moreover have "ref = Mode9Command 1" using True assms(4) by (auto simp: trouble_def healthy_def)
  ultimately show ?thesis using query_troubled [OF assms(1-3)] assms(4) by (simp add: healthy_def)
next
  case False
  from query_untroubled [OF assms(1-3) _ _ False] assms(4) obtain w' where
    w': "query_once so ref w = Inr ((), w')" "restored (w_heap w) (w_heap w')" unfolding healthy_def by blast
  from makes_keeps_fds [OF query_keeps w'(1)] w' show ?thesis by (simp add: tidy_def)
qed

lemma pause_tidy: "\<exists>b w'. pause i w = Inr (b, w') \<and> tidy w w'"
proof -
  from pause_run [of i w] obtain b w' where p: "pause i w = Inr (b, w')" "w_heap w' = w_heap w" by metis
  from makes_keeps_fds [OF pause_keeps p(1)] p show ?thesis by (simp add: tidy_def)
qed

lemma query_loop_tidy:
  assumes "deref ref = Inr c" "0 \<le> sock so" "sock so < 1024" "healthy w" "query_loop so ref rep i w = Some r"
  shows "ends_tidy {NullCall} w r"
proof -
  have "command = ref \<longrightarrow> s = so \<longrightarrow> healthy w \<longrightarrow> ends_tidy {NullCall} w r"
    if "query_loop s command rep i w = Some r" for s command rep and i :: int and w r
  proof (rule query_loop.raw_induct [where P = "\<lambda>s command rep i w r. command = ref \<longrightarrow> s = so \<longrightarrow> healthy w \<longrightarrow> ends_tidy {NullCall} w r", OF _ that])
    fix loop :: "OBDIISocket \<Rightarrow> command_ref \<Rightarrow> bool \<Rightarrow> int \<Rightarrow> world \<Rightarrow> (unit \<times> world) outcome option"
      and s command rep w r and i :: int
    assume IH: "\<And>s command rep (i :: int) w r. loop s command rep i w = Some r \<Longrightarrow> command = ref \<longrightarrow> s = so \<longrightarrow> healthy w \<longrightarrow> ends_tidy {NullCall} w r"
    assume body: "(case query_once s command w of Inl e \<Rightarrow> Some (Inl e)
     | Inr (u, w) \<Rightarrow> if rep then (case pause i w of Inl e \<Rightarrow> Some (Inl e)
           | Inr (stop, w) \<Rightarrow> if stop then Some (Inr ((), w)) else loop s command rep i w)
         else Some (Inr ((), w))) = Some r"
    show "command = ref \<longrightarrow> s = so \<longrightarrow> healthy w \<longrightarrow> ends_tidy {NullCall} w r"
    proof (intro impI)
      assume *: "command = ref" "s = so" "healthy w"
      note one = query_tidy [OF assms(1-3) *(3)]
      show "ends_tidy {NullCall} w r"
      proof (cases "query_once so ref w")
        case (Inl e)
        with one body * show ?thesis by auto
      next
        case (Inr uw)
        then obtain w1 where w1: "query_once so ref w = Inr ((), w1)" by (cases uw) simp
        from pause_tidy [of i w1] obtain stop w2 where w2: "pause i w1 = Inr (stop, w2)" "tidy w1 w2" by blast
        have t: "tidy w w1" "tidy w w2" using one w1 w2(2) tidy_trans by auto
        show ?thesis
        proof (cases "rep \<and> \<not> stop")
          case True
          then have "ends_tidy {NullCall} w2 r" using IH [of s command rep i w2 r] body * w1 w2(1) tidy_healthy [OF t(2)] by simp
          then show ?thesis by (rule ends_tidy_after [OF t(2)])
        next
          case False
          then have "r = Inr ((), if rep then w2 else w1)" using body w2(1) * by (simp add: w1 split: if_splits)
          then show ?thesis using t by simp
        qed
      qed
    qed
  qed
  then show ?thesis using assms(4,5) by blast
qed

lemma run_queries_tidy:
  assumes "deref ref = Inr c" "0 \<le> sock so" "sock so < 1024" "healthy w"
  shows "ends_tidy {NullCall, Diverges} w (run_queries so ref rep i w)"
proof (cases "query_loop so ref rep i w")
  case (Some r)
  from query_loop_tidy [OF assms Some] show ?thesis by (auto simp: run_queries_def Some intro: ends_tidy_mono)
qed (simp add: run_queries_def)

text \<open>The ways in which a run can end other than by returning: a null decoder, an endless repetition or endless
  input, and a number in a line that is not an \<open>int\<close>.\<close>

abbreviation ill_ends :: "ub set" where "ill_ends \<equiv> {NullCall, Diverges, SignedOverflow}"

lemma scan_line_fails: "scan_line line = Inl e \<Longrightarrow> e = SignedOverflow"
  by (auto simp: scan_line_def scan_int_def Let_def obind_def split: if_splits prod.splits option.splits sum.splits)

lemma handle_line_tidy:
  assumes "offers w cs refs 0" "0 \<le> sock so" "sock so < 1024" "healthy w"
  shows "ends_tidy ill_ends w (handle_line so cs line w)"
proof (cases "scan_line line")
  case (Inl e)
  with scan_line_fails show ?thesis by (simp add: handle_line_def io_simps)
next
  case (Inr r)
  then obtain n selection opt arg where scan: "scan_line line = Inr (n, selection, opt, arg)" by (cases r) auto
  have t: "tidy w (run_calls [Print s] w)" for s by (rule tidy_calls) (simp add: keeps_fds_def)
  have "ends_tidy ill_ends w (run_queries so ref rep i (run_calls [Print s] w))" if "ref \<in> set refs" for ref rep i s
  proof -
    from assms(1) that obtain c where "deref ref = Inr c" unfolding offers_def by blast
    from run_queries_tidy [OF this assms(2,3) tidy_healthy [OF t assms(4)]]
    show ?thesis by (rule ends_tidy_mono [OF ends_tidy_after [OF t]]) blast
  qed
  moreover have "refs ! nat selection \<in> set refs" if "0 \<le> selection" "selection < int (length refs)"
    using that by (intro nth_mem) linarith
  ultimately show ?thesis unfolding line_dispatched [OF assms(1) scan] Let_def using t by (simp only: ends_tidy_simps add_0_right split: if_split) simp
qed

lemma prompt_loop_tidy:
  assumes "0 \<le> sock so" "sock so < 1024" "healthy w" "offers w cs refs 0" "prompt_loop so cs w = Some r"
  shows "ends_tidy ill_ends w r"
proof -
  have "s = so \<longrightarrow> set = cs \<longrightarrow> healthy w \<longrightarrow> offers w cs refs 0 \<longrightarrow> ends_tidy ill_ends w r"
    if "prompt_loop s set w = Some r" for s set w r
  proof (rule prompt_loop.raw_induct [where P = "\<lambda>s set w r. s = so \<longrightarrow> set = cs \<longrightarrow> healthy w \<longrightarrow> offers w cs refs 0 \<longrightarrow> ends_tidy ill_ends w r", OF _ that])
    fix loop :: "OBDIISocket \<Rightarrow> OBDIICommandSet \<Rightarrow> world \<Rightarrow> (unit \<times> world) outcome option" and s set w r
    assume IH: "\<And>s set w r. loop s set w = Some r \<Longrightarrow> s = so \<longrightarrow> set = cs \<longrightarrow> healthy w \<longrightarrow> offers w cs refs 0 \<longrightarrow> ends_tidy ill_ends w r"
    assume body: "(case io_bind (put ''> '') (\<lambda>_. syscall (Fgets 20)) w of Inl e \<Rightarrow> Some (Inl e)
     | Inr (x, w) \<Rightarrow> if ret x \<le> 0 then Some (Inr ((), w))
         else (case handle_line s set (map (char_of \<circ> unat) (takeWhile (\<lambda>b. b \<noteq> 0) (bytes x))) w of Inl e \<Rightarrow> Some (Inl e)
           | Inr (u, w) \<Rightarrow> loop s set w)) = Some r"
    show "s = so \<longrightarrow> set = cs \<longrightarrow> healthy w \<longrightarrow> offers w cs refs 0 \<longrightarrow> ends_tidy ill_ends w r"
    proof (intro impI)
      assume *: "s = so" "set = cs" "healthy w" "offers w cs refs 0"
      let ?w = "run_calls [Print ''> '', Fgets 20] w"
      obtain x where x: "io_bind (put ''> '') (\<lambda>_. syscall (Fgets 20)) w = Inr (x, ?w)" by (simp add: run_put io_simps)
      have t: "tidy w ?w" by (rule tidy_calls) (simp add: keeps_fds_def)
      define line where "line = map (char_of \<circ> unat) (takeWhile (\<lambda>b. b \<noteq> 0) (bytes x))"
      note one = handle_line_tidy [OF tidy_offers [OF t *(4)] assms(1,2) tidy_healthy [OF t *(3)], of line]
      show "ends_tidy ill_ends w r"
      proof (cases "ret x \<le> 0")
        case True
        with body x t show ?thesis by auto
      next
        case False
        note rest = body [unfolded x, simplified, folded line_def, unfolded if_not_P [OF False]]
        show ?thesis
        proof (cases "handle_line so cs line ?w")
          case (Inl e)
          with one rest False * show ?thesis by auto
        next
          case (Inr uw)
          then obtain w1 where w1: "handle_line so cs line ?w = Inr ((), w1)" by (cases uw) simp
          have t1: "tidy w w1" using one w1 tidy_trans [OF t] by simp
          have "ends_tidy ill_ends w1 r"
            using IH [of s set w1 r] rest False * w1 tidy_healthy [OF t1] tidy_offers [OF t1] by simp
          then show ?thesis by (rule ends_tidy_after [OF t1])
        qed
      qed
    qed
  qed
  then show ?thesis using assms(3-) by blast
qed

lemma prompt_tidy:
  assumes "0 \<le> sock so" "sock so < 1024" "healthy w" "offers w cs refs 0"
  shows "ends_tidy ill_ends w (prompt so cs w)"
proof (cases "prompt_loop so cs w")
  case (Some r)
  from prompt_loop_tidy [OF assms Some] show ?thesis by (simp add: prompt_def Some)
qed (simp add: prompt_def)

section \<open>The command line tool with a private socket\<close>

text \<open>From an open private socket to the end: the list has a hole, the run ends badly, or the tool exits with 0.\<close>

lemma supported_healthy:
  assumes "0 \<le> sock so" "sock so < 1024" "healthy w" "OBDIIGetSupportedCommands (Some so) w = Inr (cs, w')"
  shows "healthy w'"
proof -
  from assms(3) have h: "kernel (respond w)" "heap_ok (w_heap w)" "grants (w_heap w) (next_addr (w_heap w))"
    by (simp_all add: healthy_def)
  from supported_run [OF assms(1,2) h(1)] obtain vs vs' vs'' ws bm where
    bm: "bitmaps so w (run_calls vs w) (run_calls vs' w) (run_calls vs'' w) bm"
    and run: "OBDIIGetSupportedCommands (Some so) w = on_heap (make_commands bm) (run_calls ws w)" by blast
  have "w_heap w' = (w_heap w)\<lparr>blocks := (blocks (w_heap w))(next_addr (w_heap w) :=
      Some (PointerBlock (map Some (listed bm) @ replicate (unfilled bm) None))), next_addr := Suc (next_addr (w_heap w))\<rparr>"
    "respond w' = respond w"
    using assms(4) unfolding run by (auto simp: on_heap_def make_commands_run(1) [OF bitmaps_masked [OF bm] h(3)])
  then show ?thesis using assms(3) by (auto simp: healthy_def heap_ok_def intro: less_SucI)
qed

lemma cli_after_open:
  assumes "0 \<le> sock so" "sock so < 1024" "shared so = 0" "healthy w"
  shows "(case cli_connected so w of
       Inl e \<Rightarrow> e \<in> insert Uninitialised ill_ends
     | Inr (code, w') \<Rightarrow> code = 0 \<and> blocks (w_heap w') = blocks (w_heap w) \<and> opened_fds (history w') = opened_fds (history w) \<and>
         closed_fds (history w') = closed_fds (history w) + {#sock so#})"
proof -
  define msg where "msg = ''Supported commands:'' @ newline"
  let ?w = "run_calls [Print msg] w"
  let ?a = "next_addr (w_heap w)"
  have h: "kernel (respond ?w)" "heap_ok (w_heap w)" "grants (w_heap w) ?a" using assms(4) by (simp_all add: healthy_def)
  from supported_result [OF assms(1,2) h(1)] h(3) obtain cs w1 where
    r: "OBDIIGetSupportedCommands (Some so) ?w = Inr (cs, w1)" "commands cs = Some ?a"
      "blocks (w_heap w1) = (blocks (w_heap w))(?a := Some (PointerBlock (map Some (listed cs) @ replicate (unfilled cs) None)))"
      "numCommands cs = int (length (listed cs) + unfilled cs)" by auto
  note k = makes_keeps_fds [OF supported_keeps r(1)]
  have offers: "offers w1 cs (listed cs) (unfilled cs)" using r(2-4) library_deref by (auto simp: offers_def)
  have list: "list_commands cs 0 (nat (numCommands cs)) w1 =
      (if unfilled cs = 0 then Inr ((), run_calls (listing (listed cs) 0) w1) else Inl Uninitialised)"
    unfolding r(4) nat_int by (rule list_commands_run [OF offers]) simp_all
  show ?thesis
  proof (cases "unfilled cs = 0")
    case False
    with r(1) list show ?thesis unfolding cli_connected_def msg_def [symmetric] by (simp add: run_put io_bind_def)
  next
    case True
    note list = list [unfolded True, simplified]
    let ?w2 = "run_calls (listing (listed cs) 0) w1"
    have t: "tidy w1 ?w2" by (rule tidy_calls) (auto simp: listing_def keeps_fds_def)
    have "healthy ?w" using assms(4) by (simp add: healthy_def)
    then have "healthy w1" using supported_healthy [OF assms(1,2) _ r(1)] by simp
    note prompt = prompt_tidy [OF assms(1,2) tidy_healthy [OF t this] tidy_offers [OF t offers [unfolded True]]]
    note run = bind_run [where m = "OBDIIGetSupportedCommands _", OF r(1)] bind_run [where m = "list_commands cs 0 _", OF list]
    show ?thesis
    proof (cases "prompt so cs ?w2")
      case (Inl e)
      with prompt show ?thesis unfolding cli_connected_def msg_def [symmetric]
        by (auto simp: run run_put io_bind_def [of "prompt so cs"])
    next
      case (Inr uw)
      then obtain w3 where w3: "prompt so cs ?w2 = Inr ((), w3)" by (cases uw) simp
      have t3: "tidy w1 w3" using prompt w3 tidy_trans [OF t] by simp
      then have "blocks (w_heap w3) = blocks (w_heap w1)" by (simp add: tidy_def restored_def)
      with free_fresh [OF h(2,3), of "w_heap w3"] r(3) obtain h2 where
        free: "mfree ?a (w_heap w3) = Inr h2" "blocks h2 = blocks (w_heap w)" by metis
      let ?w4 = "w3\<lparr>w_heap := h2\<rparr>"
      have close: "OBDIICloseSocket (Some so) ?w4 = Inr ((ret (reply_after [] (Close (sock so)) ?w4), Some so), run_calls [Close (sock so)] ?w4)"
        using assms(3) by (simp add: OBDIICloseSocket_def io_simps reply_after_def)
      have "on_heap (\<lambda>h. obind (OBDIICommandSetFree (Some cs) h) (\<lambda>h. Inr ((), h))) w3 = Inr ((), ?w4)"
        using free(1) r(2) by (simp add: on_heap_def OBDIICommandSetFree_def)
      note run = run bind_run [where m = "prompt so cs", OF w3] bind_run [where m = "on_heap _", OF this]
        bind_run [where m = "OBDIICloseSocket _", OF close]
      have "opened_fds (history w3) = opened_fds (history w)" "closed_fds (history w3) = closed_fds (history w)"
        using t3 k(1,2) run_calls_keeps [of "[Print msg]" w] by (simp_all add: tidy_def keeps_fds_def)
      then have "opened_fds (history (run_calls [Close (sock so)] ?w4)) = opened_fds (history w)"
        "closed_fds (history (run_calls [Close (sock so)] ?w4)) = closed_fds (history w) + {#sock so#}"
        by (simp_all add: history_calls fds_step)
      then show ?thesis using free(2) unfolding cli_connected_def msg_def [symmetric] by (simp add: run run_put io_return_def)
    qed
  qed
qed

end
