(* ===== verification/Spec2Isabelle.thy ===== *)
theory Spec2Isabelle
  imports Unit_Tests Command_Set Query Supported Daemon_Properties Log_Properties Community Exclusion Cli_Options Program
begin

text \<open>
  Verification of the OBD-II library (\<open>src/src/\<close>): a C library that queries a vehicle for diagnostic
  data, a daemon that shares CAN sockets between processes, and a command line tool.

  The program and its theories. The library has a protocol layer, \<open>OBDII.c\<close> and \<open>OBDII.h\<close>: tables of
  commands, recognition of positive responses, and one decoder per kind of data; and a communication
  layer, \<open>OBDIICommunication.c\<close>: opening and closing sockets, one query, and the discovery of the
  commands a vehicle supports. A socket is either private, opened by the process, or shared: then the
  daemon \<open>OBDIIDaemon.c\<close> opens it, counts its users, and passes its descriptor over a Unix socket. The
  tool \<open>cli.c\<close> uses the library.

    \<^item> \<open>Prelude\<close>: bytes, undefined behaviour as error values (\<open>ub\<close>), sequencing (\<open>obind\<close>), checked reads.
    \<^item> \<open>Floats\<close>: rounding of \<open>double\<close> and \<open>float\<close> arithmetic, behind a locale of what rounding promises.
    \<^item> \<open>Response_Types\<close>, \<open>Memory\<close>: \<open>OBDIIResponse\<close> and its union; a heap with \<open>malloc\<close> and \<open>free\<close>, behind
      the locale \<open>allocator\<close>.
    \<^item> \<open>Decoders\<close>, \<open>Scaling\<close>, \<open>Decoder_Facts\<close>: the decoders; the scales the standard gives a PID and the
      error of a decoder against them; facts about each decoder.
    \<^item> \<open>Commands\<close>, \<open>Response\<close>, \<open>Command_Spec\<close>, \<open>Decoding\<close>: the command tables, \<open>OBDIIResponseSuccessful\<close>,
      \<open>OBDIIDecodeResponseForCommand\<close>, \<open>OBDIIResponseFree\<close>; what each command means; the properties of
      decoding: values, safety, trouble codes, VIN, and release of memory.
    \<^item> \<open>Unit_Tests\<close>: the unit tests of the repository as programs over the model, which pass.
    \<^item> \<open>Command_Set\<close>: \<open>OBDIICommandSet\<close>, membership, the bit count, release.
    \<^item> \<open>World\<close>: processes. A world has a heap, global variables, the history of system calls, and a
      function \<open>respond\<close> that answers each call given all earlier ones; theorems hold for every such
      function, or for those that keep the documented bounds of reading calls (\<open>kernel\<close>). \<open>makes\<close> says
      which calls a program can make.
    \<^item> \<open>Query\<close>, \<open>Supported\<close>: \<open>OBDIIPerformQuery\<close> with its lock and the timeout of its \<open>select\<close>, and
      \<open>OBDIIGetSupportedCommands\<close>. A vehicle that answers is a hypothesis on \<open>respond\<close> (\<open>answering\<close>) about
      the calls on one socket only; \<open>vehicle\<close> is a world for examples.
    \<^item> \<open>Interleaving\<close>, \<open>Exclusion\<close>: a query as a process that offers one system call at a time, and any number
      of such processes with their calls in any order: what goes wrong when they share the open file
      description that the daemon passes them. The calls do what is documented for \<open>flock\<close>, whose locks
      are on files and belong to open file descriptions, and for datagram sockets (\<open>documented_call\<close>).
    \<^item> \<open>Wire\<close>, \<open>Formats\<close>: requests and responses of the daemon's protocol with marshalling on both sides
      (the locale \<open>wire_field\<close> says what writer and reader of a field rely on) and the dump of a request; formatting and scanning of the C library.
    \<^item> \<open>Daemon_Log\<close>: the daemon's globals and \<open>Log\<close>, and that whole programs only add lines to the log
      (\<open>log_grows\<close>). The content of the log's stream is a part of the state.
    \<^item> \<open>Connections\<close>, \<open>Daemon\<close>: the daemon's doubly linked list of connections in the heap, and its request
      handler and main loop. The predicate \<open>holds\<close> ties the heap to a list of entries, \<open>represents\<close> the
      daemon to a table of reference counted descriptors, and each request refines one operation on the
      table (\<open>request_open\<close>, \<open>request_close\<close>).
    \<^item> \<open>Service\<close>, \<open>Reference_Counts\<close>, \<open>Rounds\<close>, \<open>Daemon_Properties\<close>, \<open>Log_Properties\<close>: messages and dumps; the
      locale of reference counting, interpreted on the table; runs of the main loop; the properties of the
      daemon and of its log.
    \<^item> \<open>Client\<close>, \<open>Session\<close>, \<open>Community\<close>: the client side of the protocol; a client and the daemon together; any
      number of clients with one daemon. The hypothesis \<open>delivering\<close> says what the documentation of datagram
      sockets says: a request that was sent reaches the daemon, the messages the daemon's kernel accepted
      come back in their order, a descriptor arrives as a duplicate with a number of its own, and every
      call may fail. Whether a message of the daemon was accepted is up to the daemon's own kernel. A
      client may be connected already or not (\<open>attached\<close>). In \<open>Community\<close> the reference counts are the
      sockets in use and those lost, by the exit of a client or an answer that did not arrive, as long as
      every socket is closed once; what a second close does is proved too. These theories are about requests
      that the daemon survives logging (\<open>loggable\<close>); what the others do is in \<open>Daemon_Properties\<close> and here.
    \<^item> \<open>Getopt\<close>, \<open>Cli\<close>, \<open>Cli_Properties\<close>, \<open>Cli_Options\<close>, \<open>Program\<close>: \<open>getopt\<close> and \<open>basename\<close> of the C library; the
      command line tool; the properties of its prompt and of its options; and facts for this theory, which
      has the properties that span the programs.

  Correspondence. Definitions carry the names of the C functions; parts of a function that are a
  definition of their own (a loop body, a branch) are named in the text before them. A pointer to a
  command is the table and the index, a heap pointer an address, a null pointer \<open>None\<close>. Bytes, \<open>uint32_t\<close>
  and \<open>canid_t\<close> are words; an \<open>int\<close> is an integer with its overflow as an error. A C function that
  changes a structure through a pointer returns the changed structure.

  Loops. Loops over tables, buffers and counters are structural recursion; the Kernighan loop has a
  measure. The search of the connection list, the query loop and the prompt may in principle not end:
  they are partial functions into \<open>option\<close>, where \<open>None\<close> (then \<open>Diverges\<close>) is a run that does not end;
  that the search ends in every reachable state, and when the query loop ends, are proved. The daemon's
  main loop never ends by itself, so \<open>main\<close> takes the number of rounds; theorems hold for every number
  below \<open>2 ^ 31\<close>, beyond which a reference count can overflow, as is proved too.

  Signals. Where \<open>cli.c\<close> reads its flag \<open>interrupted\<close>, after the pause of a repeated query, the world says
  whether \<open>SIGINT\<close> arrived since the last time, and then the handler has run (\<open>take_signals\<close>). A signal
  that arrives anywhere else only sets the flag, which nothing reads before that place.

  Not modelled. Calls are atomic: two processes interleave between calls, never inside one. The texts of
  \<open>strerror\<close> and the clock of the log are parameters of the state (in \<open>cli.c\<close>, an argument); failing output,
  the calls by which the log's stream is written and the line that \<open>getopt\<close> itself prints about an unknown option are left out, as is
  the buffering of output. Undefined in ISO C but defined here, as gcc defines it, is the shift \<open>1 << 31\<close> of
  the membership test. Left out are also the \<open>ctypes\<close> declarations of \<open>python/bindings.py\<close>, and
  the runners of the unit tests.
\<close>

section \<open>The command line tool as a whole\<close>

text \<open>C21. A whole run of the command line tool with a private socket, whatever the user types, the vehicle
  answers and the signals do, with memory and with descriptors that fit an \<open>fd_set\<close>. When it returns, the exit status is 0, or 1 if the
  socket could not be opened, nothing is left on the heap and every CAN socket it opened is closed. It
  fails to return in four ways only: the list follows the pointer that was never written, a positive
  answer to the VIN message count is given to a decoder that does not exist, a number in a line is not an
  \<open>int\<close>, or it goes on for ever. In particular nothing is freed twice, used after it was freed, or accessed out of bounds.\<close>

theorem cli_releases_everything:
  assumes "\<forall>arg \<in> set args. well_formed arg" "chosen CHR ''t'' args \<noteq> NO_CAN_ID" "chosen CHR ''r'' args \<noteq> NO_CAN_ID"
    and "Shared \<notin> set args" "operands args = [ifname]"
    and "healthy w" "\<And>hist. ret (respond w hist SocketIsotp) < 1024"
  shows "case cli_main (program # written args) error s w of
      Inl e \<Rightarrow> e \<in> {Uninitialised, NullCall, SignedOverflow, Diverges}
    | Inr (code, w') \<Rightarrow> (code = 0 \<or> code = 1) \<and> blocks (w_heap w') = blocks (w_heap w) \<and>
        opened_fds (history w') + closed_fds (history w) = closed_fds (history w') + opened_fds (history w)"
proof -
  let ?tx = "chosen CHR ''t'' args" and ?rx = "chosen CHR ''r'' args"
  let ?w = "run_calls [Sigaction] w"
  have start: "opened_fds (history ?w) = opened_fds (history w)" "closed_fds (history ?w) = closed_fds (history w)"
    using run_calls_keeps [of "[Sigaction]" w] by (simp_all add: keeps_fds_def)
  from private_open [of s ifname ?tx ?rx ?w] obtain r so w1 where
    op: "OBDIIOpenSocket (Some s) ifname ?tx ?rx 0 ?w = Inr ((r, Some so), w1)" "r = 0 \<or> r = - 1"
      "respond w1 = respond w" "w_heap w1 = w_heap w" "opened_fds (history w1) + closed_fds (history w) =
        closed_fds (history w1) + opened_fds (history w) + (if r = 0 then {#sock so#} else {#})"
      "r = 0 \<longrightarrow> shared so = 0 \<and> 0 \<le> sock so \<and> (\<exists>hist. sock so = ret (respond w hist SocketIsotp))"
    unfolding start by fastforce
  have sigaction: "io_bind (syscall Sigaction) k w = k (reply_after [] Sigaction w) ?w" for k :: "reply \<Rightarrow> int io"
    by (simp add: io_simps reply_after_def)
  have main: "cli_main (program # written args) error s w = (if r < 0 then io_bind (put (''Error connecting to vehicle: '' @ error @ newline)) (\<lambda>_. io_return 1) w1
      else cli_connected so w1)"
    using assms(2-5)
    by (simp add: main_accepts [OF assms(1)] cli_run_def shares_def sigaction bind_run [where m = "OBDIIOpenSocket _ _ _ _ _", OF op(1)])
  show ?thesis
  proof (cases "r = 0")
    case False
    with op(2-5) show ?thesis
      using run_calls_keeps [of "[Print (''Error connecting to vehicle: '' @ error @ newline)]" w1]
      by (simp add: main run_put io_return_def keeps_fds_def)
  next
    case True
    have "0 \<le> sock so" "sock so < 1024" "shared so = 0" using op(6) True assms(7) by auto
    moreover have "healthy w1" using assms(6) op(3,4) by (simp add: healthy_def)
    ultimately have "(case cli_connected so w1 of Inl e \<Rightarrow> e \<in> {Uninitialised, NullCall, SignedOverflow, Diverges}
       | Inr (code, w') \<Rightarrow> code = 0 \<and> blocks (w_heap w') = blocks (w_heap w1) \<and> opened_fds (history w') = opened_fds (history w1) \<and>
         closed_fds (history w') = closed_fds (history w1) + {#sock so#})"
      using cli_after_open [of so w1] by (auto split: sum.splits)
    moreover have "cli_main (program # written args) error s w = cli_connected so w1" using True by (simp add: main)
    ultimately show ?thesis using True op(4,5) by (auto split: sum.splits simp: ac_simps)
  qed
qed

text \<open>The options of the README, a vehicle on interface 3, and a user who selects the first command and then ends the input.\<close>

definition can0_world :: world where
  "can0_world = (rpm_vehicle 0)\<lparr>respond := (\<lambda>hist c. case c of IfNameToIndex n \<Rightarrow> returns 3 | SocketIsotp \<Rightarrow> returns 5
     | Fgets n \<Rightarrow> if Fgets n \<in> fst ` set hist then returns 0 else (returns 1)\<lparr>bytes := [0x30, 0x0A]\<rparr>
     | _ \<Rightarrow> respond (rpm_vehicle 0) hist c)\<rparr>"

lemma can_id_example: "can_id ''7E0'' = 0x7E0" "can_id ''7E8'' = 0x7E8"
  by (simp_all add: can_id_def strtoul16_def digit_value_def isspace_def)

theorem cli_releases_everything_witness:
  "case cli_main [''cli'', ''-t'', ''7E0'', ''-r'', ''7E8'', ''can0''] ''No such device'' no_socket can0_world of
      Inl e \<Rightarrow> e \<in> {Uninitialised, NullCall, SignedOverflow, Diverges}
    | Inr (code, w') \<Rightarrow> (code = 0 \<or> code = 1) \<and> blocks (w_heap w') = blocks (w_heap can0_world) \<and>
        opened_fds (history w') + closed_fds (history can0_world) = closed_fds (history w') + opened_fds (history can0_world)"
proof -
  let ?args = "[Separate CHR ''t'' ''7E0'', Separate CHR ''r'' ''7E8'', Operand ''can0'']"
  have "written ?args = [''-t'', ''7E0'', ''-r'', ''7E8'', ''can0'']" "operands ?args = [''can0'']"
    by (simp_all add: written_def operands_def)
  moreover have "chosen CHR ''t'' ?args \<noteq> NO_CAN_ID" "chosen CHR ''r'' ?args \<noteq> NO_CAN_ID"
    by (simp_all add: chosen_def can_id_example NO_CAN_ID_def)
  moreover have "healthy can0_world"
    using vehicle_kernel by (auto simp: healthy_def can0_world_def rpm_vehicle_def kernel_def)
  moreover have "ret (respond can0_world hist SocketIsotp) < 1024" for hist
    by (simp_all add: can0_world_def rpm_vehicle_def vehicle_def returns_def)
  ultimately show ?thesis
    using cli_releases_everything [of ?args "''can0''" can0_world "''cli''" "''No such device''" no_socket] by simp
qed

section \<open>From the command line to the daemon\<close>

text \<open>A system where the interface exists, the client can connect to the daemon's path and send to it, and no
  answer comes back, as when the daemon has died.\<close>

definition unanswered :: "string \<Rightarrow> nat \<Rightarrow> int \<Rightarrow> (history \<Rightarrow> call \<Rightarrow> reply) \<Rightarrow> bool" where
  "unanswered ifname i d resp \<longleftrightarrow> kernel resp \<and> 0 < i \<and> i < 2 ^ 32 \<and> 0 < d \<and> (\<forall>hist p req.
     ret (resp hist (IfNameToIndex ifname)) = int i \<and> ret (resp hist SocketUnix) = d \<and>
     ret (resp hist (Unlink p)) = 0 \<and> ret (resp hist (BindUnix d p)) = 0 \<and> ret (resp hist (Connect d p)) = 0 \<and>
     ret (resp hist (Send d req)) = int (length req) \<and> ret (resp hist (Recv d 2)) = - 1)"

lemma setup_unanswered:
  assumes "unanswered ifname i d (respond w)" "daemonSocket (globals w) = - 1"
  shows "\<exists>pid. setupDaemonCommunication w = Inr (0, (run_calls [SocketUnix, Getpid, Unlink (self_path pid), BindUnix d (self_path pid),
    Connect d OBDII_DAEMON_SOCKET_PATH] w)\<lparr>globals := (globals w)\<lparr>daemonSocket := d\<rparr>\<rparr>)"
  using assms
  by (auto simp: unanswered_def setupDaemonCommunication_def Let_def io_simps run_calls_globals)

lemma open_unanswered:
  assumes "unanswered ifname i d (respond w)" "daemonSocket (globals w) = - 1"
  shows "\<exists>pid so' w'. OBDIIOpenSocket (Some so) ifname tx rx 1 w = Inr ((- 1, Some so'), w') \<and>
    calls w' = calls w @ [IfNameToIndex ifname, SocketUnix, Getpid, Unlink (self_path pid), BindUnix d (self_path pid),
      Connect d OBDII_DAEMON_SOCKET_PATH, Send d (request_bytes OBDIIDaemonRequestOpenSocket (of_nat i, tx, rx)), Recv d 2]"
proof -
  let ?w = "run_calls [IfNameToIndex ifname] w"
  let ?so = "so\<lparr>ifindex := of_nat i, tid := tx, rid := rx, shared := word_of_int 1\<rparr>"
  have i: "ret (respond w (history w) (IfNameToIndex ifname)) = int i" "(of_nat i :: u32) \<noteq> 0"
    using assms(1) by (auto simp: unanswered_def word_of_nat_eq_0_iff dest: dvd_imp_le)
  from setup_unanswered [of ifname i d ?w] assms obtain pid where ready: "setupDaemonCommunication ?w =
      Inr (0, (run_calls [SocketUnix, Getpid, Unlink (self_path pid), BindUnix d (self_path pid),
        Connect d OBDII_DAEMON_SOCKET_PATH] ?w)\<lparr>globals := (globals w)\<lparr>daemonSocket := d\<rparr>\<rparr>)" by auto
  let ?v = "(run_calls [SocketUnix, Getpid, Unlink (self_path pid), BindUnix d (self_path pid),
    Connect d OBDII_DAEMON_SOCKET_PATH] ?w)\<lparr>globals := (globals w)\<lparr>daemonSocket := d\<rparr>\<rparr>"
  have d: "daemonSocket (globals ?v) = d" "d \<noteq> - 1" "d \<noteq> 0" "kernel (respond ?v)" "respond ?v = respond w"
    using assms(1) by (auto simp: unanswered_def)
  have "OBDIIOpenSocket (Some so) ifname tx rx 1 w = io_bind (requestRemoteSocket ?so True) (\<lambda>(r, so). io_return (r, Some so)) ?w"
    using i by (simp add: OBDIIOpenSocket_def io_simps Let_def)
  moreover have "requestRemoteSocket ?so True ?w = requestRemoteSocket ?so True ?v"
    using request_setup [OF ready] d by simp
  moreover have "requestRemoteSocket ?so True ?v = Inr ((- 1, ?so),
      run_calls [Send d (request_bytes OBDIIDaemonRequestOpenSocket (of_nat i, tx, rx)), Recv d 2] ?v)"
    using assms(1) request_run [of ?v ?so True] d by (simp add: unanswered_def reply_after_def request_type_def)
  ultimately show ?thesis by (intro exI [of _ pid]) (simp add: io_bind_def io_return_def run_calls_globals calls_def [of "_\<lparr>globals := _\<rparr>"] calls_def [symmetric])
qed

text \<open>C26. The two programs of the repository do not work together with 29-bit identifiers. When the tool is started with
  option \<open>-d\<close> and a receive identifier of eight or more digits (other than the one that means no identifier), it connects to
  the daemon and sends a request which makes the daemon write past the end of the buffer for the dump.
  No answer comes then, and the tool exits with 1.\<close>

theorem extended_option_overflows_daemon:
  assumes "7 < length b" "can_id a \<noteq> NO_CAN_ID" "can_id b \<noteq> NO_CAN_ID" "\<not> is_option ifname"
    and "unanswered ifname i d (respond w)" "daemonSocket (globals w) = - 1"
  shows "\<exists>pid req w'. cli_main [program, ''-t'', a, ''-r'', b, ''-d'', ifname] error so w = Inr (1, w') \<and>
    calls w' = calls w @ [Sigaction, IfNameToIndex ifname, SocketUnix, Getpid, Unlink (self_path pid), BindUnix d (self_path pid),
      Connect d OBDII_DAEMON_SOCKET_PATH, Send d req, Recv d 2, Print (''Error connecting to vehicle: '' @ error @ newline)] \<and>
    (\<forall>dw s. kernel (respond dw) \<and> ret (incoming s dw) = 16 \<and> bytes (incoming s dw) = req \<longrightarrow> serve s dw = Inl OutOfBounds)"
proof -
  let ?args = "[Separate CHR ''t'' a, Separate CHR ''r'' b, Shared, Operand ifname]"
  let ?req = "request_bytes OBDIIDaemonRequestOpenSocket (of_nat i, can_id a, can_id b)"
  let ?w = "run_calls [Sigaction] w"
  from open_unanswered [of ifname i d ?w so "can_id a" "can_id b"] assms(5,6) obtain pid so' w' where
    op: "OBDIIOpenSocket (Some so) ifname (can_id a) (can_id b) 1 ?w = Inr ((- 1, Some so'), w')"
      "calls w' = calls w @ [Sigaction, IfNameToIndex ifname, SocketUnix, Getpid, Unlink (self_path pid), BindUnix d (self_path pid),
        Connect d OBDII_DAEMON_SOCKET_PATH, Send d ?req, Recv d 2]" by auto
  have "cli_main [program, ''-t'', a, ''-r'', b, ''-d'', ifname] error so =
      cli_run (basename program) (can_id a) (can_id b) 1 [ifname] error so"
    using main_accepts [of ?args program error so] assms(4) by (simp add: written_def chosen_def shares_def operands_def)
  then have "cli_main [program, ''-t'', a, ''-r'', b, ''-d'', ifname] error so w =
      Inr (1, run_calls [Print (''Error connecting to vehicle: '' @ error @ newline)] w')"
    using assms(2,3) by (simp add: cli_run_def io_simps bind_run [where m = "OBDIIOpenSocket _ _ _ _ _", OF op(1)] run_put)
  moreover have "serve s dw = Inl OutOfBounds"
    if "kernel (respond dw)" "ret (incoming s dw) = 16" "bytes (incoming s dw) = ?req" for dw s
    using extended_overflow [OF that can_id_extended [OF assms(1)]] .
  ultimately show ?thesis using op(2) by (intro exI [of _ pid] exI [of _ ?req]) auto
qed

text \<open>A system whose daemon has died.\<close>

definition deserted_world :: world where
  "deserted_world = \<lparr>w_heap = empty_heap, globals = initial_globals, history = [], respond = (\<lambda>hist c. case c of
     Recv s n \<Rightarrow> returns (- 1) | _ \<Rightarrow> ideal (link_to (daemon_with [])) hist c)\<rparr>"

lemma deserted_unanswered: "unanswered ifname 3 4 (respond deserted_world)"
  by (auto simp: unanswered_def deserted_world_def ideal_def returns_def kernel_def split: list.splits call.splits)

lemma extended_example: "can_id ''18DA10F1'' \<noteq> NO_CAN_ID" "can_id ''18DAF110'' \<noteq> NO_CAN_ID"
  by (simp_all add: can_id_def strtoul16_def digit_value_def isspace_def CAN_EFF_FLAG_def NO_CAN_ID_def)

theorem extended_option_overflows_daemon_witness:
  "\<exists>req w'. cli_main [''cli'', ''-t'', ''18DA10F1'', ''-r'', ''18DAF110'', ''-d'', ''can0''] ''Connection reset'' no_socket deserted_world =
      Inr (1, w') \<and> Send 4 req \<in> set (calls w') \<and>
    (\<forall>dw s. kernel (respond dw) \<and> ret (incoming s dw) = 16 \<and> bytes (incoming s dw) = req \<longrightarrow> serve s dw = Inl OutOfBounds)"
proof -
  have start: "daemonSocket (globals deserted_world) = - 1" by (simp add: deserted_world_def)
  have "7 < length ''18DAF110''" "\<not> is_option ''can0''" by simp_all
  from extended_option_overflows_daemon [OF this(1) extended_example this(2) deserted_unanswered start, of "''cli''" "''Connection reset''" no_socket]
  obtain req w' where
    "cli_main [''cli'', ''-t'', ''18DA10F1'', ''-r'', ''18DAF110'', ''-d'', ''can0''] ''Connection reset'' no_socket deserted_world = Inr (1, w')"
    "\<forall>dw s. kernel (respond dw) \<and> ret (incoming s dw) = 16 \<and> bytes (incoming s dw) = req \<longrightarrow> serve s dw = Inl OutOfBounds"
    "Send 4 req \<in> set (calls w')"
    by (elim exE conjE) (rule that, assumption, assumption, simp)
  then show ?thesis by blast
qed

end
